theory Spec2Isabelle
  imports Main "HOL-Library.AList"
begin

section \<open>Strings and paths\<close>

text \<open>
  Strings are \<^typ>\<open>string\<close>. The operations of the JavaScript runtime that
  \<^verbatim>\<open>generate_build_file.js\<close> calls on strings and paths are written out here:
  \<^verbatim>\<open>String.prototype.split('/')\<close>, \<^verbatim>\<open>Array.prototype.join\<close>,
  \<^verbatim>\<open>String.prototype.startsWith\<close> and \<^verbatim>\<open>path.posix.join\<close> of Node.
\<close>

definition startsWith :: "string \<Rightarrow> string \<Rightarrow> bool" where
  "startsWith s p = (take (length p) s = p)"

text \<open>\<^verbatim>\<open>s.split(c)\<close>: the pieces between the separators; never empty
  (\<^verbatim>\<open>''.split('/')\<close> is \<^verbatim>\<open>['']\<close>).\<close>

fun split_on :: "char \<Rightarrow> string \<Rightarrow> string list" where
  "split_on sep [] = [[]]"
| "split_on sep (c # cs) =
     (if c = sep then [] # split_on sep cs
      else (case split_on sep cs of
              [] \<Rightarrow> [[c]]
            | piece # pieces \<Rightarrow> (c # piece) # pieces))"

text \<open>\<^verbatim>\<open>xs.join(sep)\<close>\<close>

fun join_with :: "string \<Rightarrow> string list \<Rightarrow> string" where
  "join_with sep [] = []"
| "join_with sep [x] = x"
| "join_with sep (x # y # ys) = x @ sep @ join_with sep (y # ys)"

text \<open>
  \<^verbatim>\<open>path.posix.join\<close> is Node's: the non-empty arguments are joined with a slash and
  the result is normalised. Normalisation (Node's \<^verbatim>\<open>normalizeString\<close>) walks the
  segments from the left, skips empty segments and \<^verbatim>\<open>.\<close>, and on \<^verbatim>\<open>..\<close> drops the
  last kept segment, unless there is none or it is \<^verbatim>\<open>..\<close> itself, in which case a
  relative path keeps the \<^verbatim>\<open>..\<close>. The kept segments are held in reverse.
\<close>

fun normalizeString :: "bool \<Rightarrow> string list \<Rightarrow> string list \<Rightarrow> string list" where
  "normalizeString allowAboveRoot res [] = rev res"
| "normalizeString allowAboveRoot res (s # ss) =
     (if s = [] \<or> s = ''.'' then normalizeString allowAboveRoot res ss
      else if s = ''..'' then
        (if res \<noteq> [] \<and> hd res \<noteq> ''..'' then normalizeString allowAboveRoot (tl res) ss
         else if allowAboveRoot then normalizeString allowAboveRoot (''..'' # res) ss
         else normalizeString allowAboveRoot res ss)
      else normalizeString allowAboveRoot (s # res) ss)"

definition posix_normalize :: "string \<Rightarrow> string" where
  "posix_normalize path =
     (if path = [] then ''.''
      else
        let isAbsolute = (hd path = CHR ''/'');
            trailingSeparator = (last path = CHR ''/'');
            p = join_with ''/'' (normalizeString (\<not> isAbsolute) [] (split_on (CHR ''/'') path))
        in if p = [] then (if isAbsolute then ''/'' else if trailingSeparator then ''./'' else ''.'')
           else (if isAbsolute then ''/'' else []) @ p @ (if trailingSeparator then ''/'' else []))"

definition posix_join :: "string list \<Rightarrow> string" where
  "posix_join args =
     (let joined = filter (\<lambda>a. a \<noteq> []) args
      in if joined = [] then ''.'' else posix_normalize (join_with ''/'' joined))"

section \<open>Parsed metadata and package records\<close>

text \<open>
  The value \<^verbatim>\<open>JSON.parse\<close> returns. An object is the list of its own properties in
  the order JavaScript enumerates them (\<^verbatim>\<open>Object.keys\<close>, \<^verbatim>\<open>for ... in\<close>); its keys are
  distinct. Numbers are never inspected beyond being zero or not.
\<close>

datatype json =
    JNull
  | JBool bool
  | JNumber int
  | JString string
  | JArray "json list"
  | JObject "(string \<times> json) list"

datatype error =
    Error string
  | TypeError
  | SyntaxError
  | SystemError string

text \<open>
  A package record is the object \<^verbatim>\<open>parsePackage\<close> returns: the parsed
  \<^verbatim>\<open>package.json\<close> with the added attributes \<^verbatim>\<open>_dir\<close>, \<^verbatim>\<open>_isNested\<close> and
  \<^verbatim>\<open>_executables\<close> (a JavaScript \<^verbatim>\<open>Map\<close>, here an association list in insertion
  order). The mutable attribute \<^verbatim>\<open>_dependencies\<close> is not a field: it is the state that
  \<^verbatim>\<open>flattenDependencies\<close> threads. Records live in the array \<^verbatim>\<open>pkgs\<close>; a reference to
  a record is its index there, so that \<^verbatim>\<open>indexOf\<close> and \<^verbatim>\<open>!=\<close> on records compare
  identities, as they do in JavaScript.
\<close>

record package =
  json :: json
  dir :: string
  isNested :: bool
  executables :: "(string \<times> string) list"

text \<open>Property access \<^verbatim>\<open>pkg.name\<close> on the parsed value; \<open>None\<close> is \<^verbatim>\<open>undefined\<close>.\<close>

fun property :: "json \<Rightarrow> string \<Rightarrow> json option" where
  "property (JObject kvs) k = map_of kvs k"
| "property _ k = None"

fun truthy :: "json \<Rightarrow> bool" where
  "truthy JNull = False"
| "truthy (JBool b) = b"
| "truthy (JNumber n) = (n \<noteq> 0)"
| "truthy (JString s) = (s \<noteq> [])"
| "truthy (JArray xs) = True"
| "truthy (JObject kvs) = True"

fun show_digit :: "nat \<Rightarrow> char" where
  "show_digit n = char_of (48 + n)"

function show_nat :: "nat \<Rightarrow> string" where
  "show_nat n = (if n < 10 then [show_digit n] else show_nat (n div 10) @ [show_digit (n mod 10)])"
  by pat_completeness auto
termination
  by (relation "measure (\<lambda>n. n)") auto

declare show_nat.simps [simp del]

text \<open>\<^verbatim>\<open>Object.keys(v)\<close>: the keys of an object, the indices of an array or of a
  string, nothing for the other primitives.\<close>

fun Object_keys :: "json \<Rightarrow> string list" where
  "Object_keys (JObject kvs) = map fst kvs"
| "Object_keys (JArray xs) = map show_nat [0..<length xs]"
| "Object_keys (JString s) = map show_nat [0..<length s]"
| "Object_keys _ = []"

text \<open>\<^verbatim>\<open>Object.keys(targetDeps || {})\<close>\<close>

definition keys_or_empty :: "json option \<Rightarrow> string list" where
  "keys_or_empty targetDeps =
     (case targetDeps of
        None \<Rightarrow> []
      | Some v \<Rightarrow> if truthy v then Object_keys v else [])"

section \<open>The install tree\<close>

text \<open>
  The file system below the working directory is a tree: a file with its text, a directory
  with its entries in the order \<^verbatim>\<open>fs.readdirSync\<close> lists them, or a file that cannot be
  read. The object at the path \<^verbatim>\<open>path.posix.join(p, f)\<close> is the entry \<open>f\<close> of the
  directory at \<open>p\<close>, so the functions that walk the tree take the object at their path
  along with the path; \<open>None\<close> is a path at which nothing exists.
\<close>

datatype fsnode =
    File string
  | Unreadable
  | Directory "(string \<times> fsnode) list"

fun child :: "fsnode \<Rightarrow> string \<Rightarrow> fsnode option" where
  "child (Directory entries) f = map_of entries f"
| "child _ f = None"

text \<open>\<^verbatim>\<open>fs.statSync(p).isDirectory()\<close> and \<^verbatim>\<open>fs.statSync(p).isFile()\<close>\<close>

fun isDirectory :: "fsnode \<Rightarrow> bool" where
  "isDirectory (Directory entries) = True"
| "isDirectory _ = False"

fun isFile :: "fsnode \<Rightarrow> bool" where
  "isFile (Directory entries) = False"
| "isFile _ = True"

text \<open>\<^verbatim>\<open>fs.readFileSync(p, {encoding: 'utf8'})\<close>\<close>

fun readFileSync :: "fsnode option \<Rightarrow> error + string" where
  "readFileSync None = Inl (SystemError ''ENOENT'')"
| "readFileSync (Some (File text)) = Inr text"
| "readFileSync (Some Unreadable) = Inl (SystemError ''EACCES'')"
| "readFileSync (Some (Directory entries)) = Inl (SystemError ''EISDIR'')"

text \<open>\<^verbatim>\<open>isPackage(p)\<close>, on the object at \<open>p\<close>.\<close>

definition isPackage :: "fsnode \<Rightarrow> bool" where
  "isPackage node =
     (isDirectory node \<and>
      (case child node ''package.json'' of None \<Rightarrow> False | Some packageJson \<Rightarrow> isFile packageJson))"

section \<open>Parsing a package\<close>

text \<open>\<^verbatim>\<open>s.replace(/^node_modules\//, '')\<close>\<close>

definition strip_node_modules :: "string \<Rightarrow> string" where
  "strip_node_modules s =
     (if startsWith s ''node_modules/'' then drop (length ''node_modules/'') s else s)"

text \<open>Whether \<open>sub\<close> occurs in \<open>s\<close>: the truth value of \<^verbatim>\<open>s.match(/sub/)\<close> for a literal.\<close>

fun occurs_in :: "string \<Rightarrow> string \<Rightarrow> bool" where
  "occurs_in sub [] = (sub = [])"
| "occurs_in sub (c # cs) = (startsWith (c # cs) sub \<or> occurs_in sub cs)"

text \<open>\<^verbatim>\<open>cleanupBinPath(path)\<close>\<close>

definition cleanupBinPath :: "string \<Rightarrow> string" where
  "cleanupBinPath path =
     (let path = map (\<lambda>c. if c = CHR 0x5C then CHR ''/'' else c) path
      in if startsWith path ''./'' then drop 2 path else path)"

text \<open>The \<^verbatim>\<open>for (let key in pkg.bin)\<close> loop; a value that is not a string has no
  \<^verbatim>\<open>replace\<close> method, and \<^verbatim>\<open>cleanupBinPath\<close> throws a \<^verbatim>\<open>TypeError\<close>.\<close>

fun bin_entries :: "(string \<times> json) list \<Rightarrow> (string \<times> string) list \<Rightarrow> error + (string \<times> string) list" where
  "bin_entries [] execs = Inr execs"
| "bin_entries ((key, JString path) # rest) execs =
     bin_entries rest (AList.update key (cleanupBinPath path) execs)"
| "bin_entries ((key, _) # rest) execs = Inl TypeError"

text \<open>The branches on \<^verbatim>\<open>pkg.bin\<close> of \<^verbatim>\<open>parsePackage\<close>, in the order of the source:
  an array, a string, an object (\<^verbatim>\<open>typeof null\<close> is \<^verbatim>\<open>'object'\<close> too, and the loop
  over \<^verbatim>\<open>null\<close> has no iteration), anything else.\<close>

fun bin_executables :: "string \<Rightarrow> json option \<Rightarrow> error + (string \<times> string) list" where
  "bin_executables d (Some (JArray xs)) = Inr []"
| "bin_executables d (Some (JString path)) = Inr (AList.update d (cleanupBinPath path) [])"
| "bin_executables d (Some (JObject kvs)) = bin_entries kvs []"
| "bin_executables d (Some JNull) = Inr []"
| "bin_executables d _ = Inr []"

text \<open>\<^verbatim>\<open>parsePackage(p)\<close>, on the directory at \<open>p\<close>. \<^verbatim>\<open>JSON.parse\<close> is a parameter:
  \<open>None\<close> is its \<^verbatim>\<open>SyntaxError\<close>. The script is in strict mode, so the assignment
  \<^verbatim>\<open>pkg._dir = ...\<close> throws a \<^verbatim>\<open>TypeError\<close> when the parsed value is \<^verbatim>\<open>null\<close> or a
  primitive.\<close>

fun is_object :: "json \<Rightarrow> bool" where
  "is_object (JArray xs) = True"
| "is_object (JObject kvs) = True"
| "is_object _ = False"

definition parsePackage :: "(string \<Rightarrow> json option) \<Rightarrow> string \<Rightarrow> fsnode \<Rightarrow> error + package" where
  "parsePackage JSON_parse p node =
     (case readFileSync (child node ''package.json'') of
        Inl e \<Rightarrow> Inl e
      | Inr text \<Rightarrow>
          (case JSON_parse text of
             None \<Rightarrow> Inl SyntaxError
           | Some pkg \<Rightarrow>
               if \<not> is_object pkg then Inl TypeError
               else if occurs_in ''/node_modules/'' p
               then Inr \<lparr> json = pkg, dir = strip_node_modules p, isNested = True,
                          executables = [] \<rparr>
               else
                 (case bin_executables (strip_node_modules p) (property pkg ''bin'') of
                    Inl e \<Rightarrow> Inl e
                  | Inr ex \<Rightarrow>
                      Inr \<lparr> json = pkg, dir = strip_node_modules p, isNested = False,
                             executables = ex \<rparr>)))"

section \<open>Finding the packages\<close>

fun fs_size :: "fsnode \<Rightarrow> nat" and entries_size :: "(string \<times> fsnode) list \<Rightarrow> nat" where
  "fs_size (File text) = 1"
| "fs_size Unreadable = 1"
| "fs_size (Directory entries) = Suc (entries_size entries)"
| "entries_size [] = 0"
| "entries_size (e # es) = Suc (fs_size (snd e) + entries_size es)"


lemma entries_size_filter: "entries_size (filter P es) \<le> entries_size es"
  by (induction es) auto

lemma entries_size_member: "(f, n) \<in> set es \<Longrightarrow> fs_size n < Suc (entries_size es)"
  by (induction es) auto

lemma child_size: "child n f = Some c \<Longrightarrow> fs_size c < fs_size n"
  by (cases n) (auto dest!: map_of_SomeD entries_size_member)

text \<open>
  \<^verbatim>\<open>findPackages(p)\<close>, on the object at \<open>p\<close>. \<open>findPackages_packages\<close> is the loop
  \<^verbatim>\<open>packages.forEach(...)\<close> over the entries that are packages, \<open>findPackages_scopes\<close> the
  loop \<^verbatim>\<open>scopes.forEach(...)\<close> over the scope directories; an exception of
  \<^verbatim>\<open>parsePackage\<close> ends the walk.
\<close>

function findPackages ::
    "(string \<Rightarrow> json option) \<Rightarrow> string \<Rightarrow> fsnode option \<Rightarrow> error + package list"
  and findPackages_packages ::
    "(string \<Rightarrow> json option) \<Rightarrow> string \<Rightarrow> (string \<times> fsnode) list \<Rightarrow> error + package list"
  and findPackages_scopes ::
    "(string \<Rightarrow> json option) \<Rightarrow> string \<Rightarrow> (string \<times> fsnode) list \<Rightarrow> error + package list"
where
  "findPackages JSON_parse p None = Inr []"
| "findPackages JSON_parse p (Some (File text)) = Inr []"
| "findPackages JSON_parse p (Some Unreadable) = Inr []"
| "findPackages JSON_parse p (Some (Directory listing)) =
     (case findPackages_packages JSON_parse p
             (filter (\<lambda>(f, n). \<not> startsWith f ''@'' \<and> isPackage n) listing) of
        Inl e \<Rightarrow> Inl e
      | Inr result \<Rightarrow>
          (case findPackages_scopes JSON_parse p
                  (filter (\<lambda>(f, n). startsWith f ''@'' \<and> isDirectory n) listing) of
             Inl e \<Rightarrow> Inl e
           | Inr others \<Rightarrow> Inr (result @ others)))"
| "findPackages_packages JSON_parse p [] = Inr []"
| "findPackages_packages JSON_parse p ((f, n) # rest) =
     (case parsePackage JSON_parse (posix_join [p, f]) n of
        Inl e \<Rightarrow> Inl e
      | Inr pkg \<Rightarrow>
          (case findPackages JSON_parse (posix_join [posix_join [p, f], ''node_modules''])
                  (child n ''node_modules'') of
             Inl e \<Rightarrow> Inl e
           | Inr nested \<Rightarrow>
               (case findPackages_packages JSON_parse p rest of
                  Inl e \<Rightarrow> Inl e
                | Inr others \<Rightarrow> Inr (pkg # nested @ others))))"
| "findPackages_scopes JSON_parse p [] = Inr []"
| "findPackages_scopes JSON_parse p ((f, n) # rest) =
     (case findPackages JSON_parse (posix_join [p, f]) (Some n) of
        Inl e \<Rightarrow> Inl e
      | Inr found \<Rightarrow>
          (case findPackages_scopes JSON_parse p rest of
             Inl e \<Rightarrow> Inl e
           | Inr others \<Rightarrow> Inr (found @ others)))"
  by pat_completeness auto
termination findPackages
proof (relation "measure (\<lambda>x. case x of
    Inl (parse, p, node) \<Rightarrow> (case node of None \<Rightarrow> 0 | Some n \<Rightarrow> fs_size n)
  | Inr (Inl (parse, p, es)) \<Rightarrow> entries_size es
  | Inr (Inr (parse, p, es)) \<Rightarrow> entries_size es)", goal_cases)
  case 1
  then show ?case by simp
next
  case (2 JSON_parse p listing)
  then show ?case by (simp add: entries_size_filter le_imp_less_Suc)
next
  case (3 JSON_parse p listing result)
  then show ?case by (simp add: entries_size_filter le_imp_less_Suc)
next
  case (4 JSON_parse p f n rest pkg)
  then show ?case
    using child_size[of n "''node_modules''"]
    by (cases "child n ''node_modules''") auto
next
  case (5 JSON_parse p f n rest pkg nested)
  then show ?case by simp
next
  case (6 JSON_parse p f n rest)
  then show ?case by simp
next
  case (7 JSON_parse p f n rest found)
  then show ?case by simp
qed

text \<open>\<^verbatim>\<open>findScopes()\<close>, on the object at \<^verbatim>\<open>node_modules\<close>.\<close>

definition findScopes :: "fsnode option \<Rightarrow> string list" where
  "findScopes node =
     (case node of
        Some (Directory listing) \<Rightarrow>
          map (\<lambda>(f, n). strip_node_modules (posix_join [''node_modules'', f]))
            (filter (\<lambda>(f, n). startsWith f ''@'' \<and> isDirectory n) listing)
      | _ \<Rightarrow> [])"

section \<open>Dependency resolution\<close>

text \<open>\<^verbatim>\<open>pkgsMap\<close> of \<^verbatim>\<open>main\<close>: \<^verbatim>\<open>Map.prototype.set\<close> replaces the value of a key
  already present and appends a new key otherwise, which is \<^const>\<open>AList.update\<close>.\<close>

definition build_pkgsMap :: "package list \<Rightarrow> (string \<times> nat) list" where
  "build_pkgsMap pkgs = fold (\<lambda>i m. AList.update (dir (pkgs ! i)) i m) [0..<length pkgs] []"

text \<open>The \<^verbatim>\<open>while (dirSegments.length)\<close> loop of \<^verbatim>\<open>findDeps\<close>.\<close>

function lookupNested :: "(string \<times> nat) list \<Rightarrow> string list \<Rightarrow> string \<Rightarrow> nat option" where
  "lookupNested pkgsMap dirSegments targetDep =
     (if dirSegments = [] then None
      else
        let maybe = posix_join (dirSegments @ [''node_modules'', targetDep])
        in (case map_of pkgsMap maybe of
              Some r \<Rightarrow> Some r
            | None \<Rightarrow> lookupNested pkgsMap (butlast dirSegments) targetDep))"
  by pat_completeness auto
termination
  by (relation "measure (\<lambda>(m, segs, t). length segs)") auto

declare lookupNested.simps [simp del]

lemma lookupNested_Nil: "lookupNested m [] t = None"
  by (simp add: lookupNested.simps[of m "[]"])

lemma lookupNested_step:
  "segs \<noteq> [] \<Longrightarrow>
   lookupNested m segs t =
     (case map_of m (posix_join (segs @ [''node_modules'', t])) of
        Some r \<Rightarrow> Some r
      | None \<Rightarrow> lookupNested m (butlast segs) t)"
  by (simp add: lookupNested.simps[of m segs] Let_def)



text \<open>The callback \<^verbatim>\<open>targetDep => ...\<close> that \<^verbatim>\<open>findDeps\<close> maps over the keys.\<close>

definition resolveTargetDep ::
  "(string \<times> nat) list \<Rightarrow> string \<Rightarrow> bool \<Rightarrow> string \<Rightarrow> error + nat option" where
  "resolveTargetDep pkgsMap depDir required targetDep =
     (case lookupNested pkgsMap (split_on (CHR ''/'') depDir) targetDep of
        Some r \<Rightarrow> Inr (Some r)
      | None \<Rightarrow>
          (case map_of pkgsMap targetDep of
             Some r \<Rightarrow> Inr (Some r)
           | None \<Rightarrow>
               if required
               then Inl (Error (''Could not find required dep '' @ targetDep @ '' of '' @ depDir))
               else Inr None))"

text \<open>\<^verbatim>\<open>xs.map(f)\<close> where \<open>f\<close> may throw: the first exception ends the map.\<close>

fun map_throwing :: "('a \<Rightarrow> error + 'b) \<Rightarrow> 'a list \<Rightarrow> error + 'b list" where
  "map_throwing f [] = Inr []"
| "map_throwing f (x # xs) =
     (case f x of
        Inl e \<Rightarrow> Inl e
      | Inr y \<Rightarrow> (case map_throwing f xs of Inl e \<Rightarrow> Inl e | Inr ys \<Rightarrow> Inr (y # ys)))"

text \<open>\<^verbatim>\<open>.filter(dep => !!dep)\<close>\<close>

definition filter_found :: "nat option list \<Rightarrow> nat list" where
  "filter_found found = List.map_filter (\<lambda>d. d) found"

text \<open>
  \<^verbatim>\<open>flattenDependencies(pkg, dep, pkgsMap)\<close>. The argument \<open>deps\<close> is
  \<^verbatim>\<open>pkg._dependencies\<close> on entry and the result is that array on return; \<open>Inl\<close> is the
  exception thrown. \<^verbatim>\<open>findDeps\<close> is the closure of the source; \<open>flattenEach\<close> is its
  last \<^verbatim>\<open>.map(dep => flattenDependencies(pkg, dep, pkgsMap))\<close>.
\<close>

function flattenDependencies ::
    "package list \<Rightarrow> (string \<times> nat) list \<Rightarrow> nat list \<Rightarrow> nat \<Rightarrow> error + nat list"
  and findDeps ::
    "package list \<Rightarrow> (string \<times> nat) list \<Rightarrow> nat list \<Rightarrow> nat \<Rightarrow> json option \<Rightarrow> bool \<Rightarrow> error + nat list"
  and flattenEach ::
    "package list \<Rightarrow> (string \<times> nat) list \<Rightarrow> nat list \<Rightarrow> nat list \<Rightarrow> error + nat list"
where
  "flattenDependencies pkgs pkgsMap deps dep =
     (if dep \<in> set deps then Inr deps
      else
        (case findDeps pkgs pkgsMap (deps @ [dep]) dep
                (property (json (pkgs ! dep)) ''dependencies'') True of
           Inl e \<Rightarrow> Inl e
         | Inr deps1 \<Rightarrow>
             (case findDeps pkgs pkgsMap deps1 dep
                     (property (json (pkgs ! dep)) ''peerDependencies'') True of
                Inl e \<Rightarrow> Inl e
              | Inr deps2 \<Rightarrow>
                  findDeps pkgs pkgsMap deps2 dep
                    (property (json (pkgs ! dep)) ''optionalDependencies'') False)))"
| "findDeps pkgs pkgsMap deps dep targetDeps required =
     (case map_throwing (resolveTargetDep pkgsMap (dir (pkgs ! dep)) required)
             (keys_or_empty targetDeps) of
        Inl e \<Rightarrow> Inl e
      | Inr found \<Rightarrow> flattenEach pkgs pkgsMap deps (filter_found found))"
| "flattenEach pkgs pkgsMap deps [] = Inr deps"
| "flattenEach pkgs pkgsMap deps (d # ds) =
     (case flattenDependencies pkgs pkgsMap deps d of
        Inl e \<Rightarrow> Inl e
      | Inr deps' \<Rightarrow> flattenEach pkgs pkgsMap deps' ds)"
  by pat_completeness auto


lemma map_throwing_set:
  "map_throwing f xs = Inr ys \<Longrightarrow> y \<in> set ys \<Longrightarrow> \<exists>x \<in> set xs. f x = Inr y"
proof (induction xs arbitrary: ys)
  case Nil
  then show ?case by simp
next
  case (Cons x xs)
  from Cons.prems(1) obtain z zs where
    fx: "f x = Inr z" and rest: "map_throwing f xs = Inr zs" and ys: "ys = z # zs"
    by (auto split: sum.splits)
  show ?case
  proof (cases "y = z")
    case True
    with fx show ?thesis by simp
  next
    case False
    with Cons.prems(2) ys have "y \<in> set zs" by simp
    from Cons.IH[OF rest this] show ?thesis by auto
  qed
qed

lemma map_of_ran: "map_of m k = Some r \<Longrightarrow> r \<in> snd ` set m"
  by (drule map_of_SomeD) force

lemma lookupNested_ran:
  "lookupNested m segs t = Some r \<Longrightarrow> r \<in> snd ` set m"
proof (induction m segs t rule: lookupNested.induct)
  case (1 pkgsMap dirSegments targetDep)
  show ?case
  proof (cases "dirSegments = []")
    case True
    with "1.prems" show ?thesis by (simp add: lookupNested_Nil)
  next
    case False
    let ?maybe = "posix_join (dirSegments @ [''node_modules'', targetDep])"
    show ?thesis
    proof (cases "map_of pkgsMap ?maybe")
      case None
      with False "1.prems" have "lookupNested pkgsMap (butlast dirSegments) targetDep = Some r"
        by (simp add: lookupNested_step)
      with "1.IH"[OF False refl None] show ?thesis by simp
    next
      case (Some r')
      with False "1.prems" have "r' = r"
        by (simp add: lookupNested_step)
      with Some show ?thesis by (auto dest: map_of_ran)
    qed
  qed
qed

lemma resolveTargetDep_ran:
  "resolveTargetDep m d req t = Inr (Some r) \<Longrightarrow> r \<in> snd ` set m"
  unfolding resolveTargetDep_def
  by (auto split: option.splits if_splits dest: lookupNested_ran map_of_ran)

lemma found_ran:
  assumes "map_throwing (resolveTargetDep m d req) ts = Inr found"
  shows "set (filter_found found) \<subseteq> snd ` set m"
proof
  fix r assume "r \<in> set (filter_found found)"
  then have "Some r \<in> set found"
    by (auto simp: filter_found_def List.map_filter_def)
  with map_throwing_set[OF assms] obtain t where "resolveTargetDep m d req t = Inr (Some r)"
    by auto
  then show "r \<in> snd ` set m" by (rule resolveTargetDep_ran)
qed

lemma grows_partial:
  "(flattenDependencies_findDeps_flattenEach_dom (Inl (pkgs, m, deps, dep)) \<Longrightarrow>
      (\<forall>r. flattenDependencies pkgs m deps dep = Inr r \<longrightarrow> set deps \<subseteq> set r))"
  "(flattenDependencies_findDeps_flattenEach_dom (Inr (Inl (pkgs, m, deps, dep, t, req))) \<Longrightarrow>
      (\<forall>r. findDeps pkgs m deps dep t req = Inr r \<longrightarrow> set deps \<subseteq> set r))"
  "(flattenDependencies_findDeps_flattenEach_dom (Inr (Inr (pkgs, m, deps, ds))) \<Longrightarrow>
      (\<forall>r. flattenEach pkgs m deps ds = Inr r \<longrightarrow> set deps \<subseteq> set r))"
proof (induction pkgs m deps dep and pkgs m deps dep t req and pkgs m deps ds
    rule: flattenDependencies_findDeps_flattenEach.pinduct)
  case (1 pkgs pkgsMap deps dep)
  show ?case
  proof (intro allI impI)
    fix r
    assume r: "flattenDependencies pkgs pkgsMap deps dep = Inr r"
    show "set deps \<subseteq> set r"
    proof (cases "dep \<in> set deps")
      case True
      with r "1.hyps" show ?thesis by (simp add: flattenDependencies.psimps)
    next
      case False
      from r False "1.hyps" obtain d1 d2 where
        s1: "findDeps pkgs pkgsMap (deps @ [dep]) dep
               (property (json (pkgs ! dep)) ''dependencies'') True = Inr d1" and
        s2: "findDeps pkgs pkgsMap d1 dep
               (property (json (pkgs ! dep)) ''peerDependencies'') True = Inr d2" and
        s3: "findDeps pkgs pkgsMap d2 dep
               (property (json (pkgs ! dep)) ''optionalDependencies'') False = Inr r"
        by (auto simp: flattenDependencies.psimps split: sum.splits)
      from "1.IH"(1)[OF False] s1 have "set (deps @ [dep]) \<subseteq> set d1" by blast
      moreover from "1.IH"(2)[OF False s1] s2 have "set d1 \<subseteq> set d2" by blast
      moreover from "1.IH"(3)[OF False s1 s2] s3 have "set d2 \<subseteq> set r" by blast
      ultimately show ?thesis by auto
    qed
  qed
next
  case (2 pkgs pkgsMap deps dep targetDeps required)
  then show ?case
    by (auto simp: findDeps.psimps split: sum.splits)
next
  case (3 pkgs pkgsMap deps)
  then show ?case by (simp add: flattenEach.psimps)
next
  case (4 pkgs pkgsMap deps d ds)
  then show ?case
    by (fastforce simp: flattenEach.psimps split: sum.splits)
qed



lemma measure_drop:
  assumes "finite U" "dep \<notin> set deps" "insert dep (set deps) \<subseteq> set b"
  shows "card (U - set b) < card (insert dep U - set deps)"
proof -
  have "dep \<in> insert dep U - set deps" "dep \<notin> U - set b"
    using assms(2,3) by auto
  moreover have "U - set b \<subseteq> insert dep U - set deps"
    using assms(3) by auto
  ultimately have "U - set b \<subset> insert dep U - set deps"
    by blast
  moreover have "finite (insert dep U - set deps)"
    using assms(1) by simp
  ultimately show ?thesis by (simp add: psubset_card_mono)
qed

lemma measure_keep:
  assumes "finite U" "set deps \<subseteq> set b"
  shows "card (U - set b) \<le> card (insert d U - set deps)"
proof -
  have "U - set b \<subseteq> insert d U - set deps"
    using assms(2) by auto
  moreover have "finite (insert d U - set deps)"
    using assms(1) by simp
  ultimately show ?thesis by (simp add: card_mono)
qed

termination flattenDependencies
  apply (relation "measures [
     (\<lambda>x. case x of
         Inl (pkgs, m, deps, dep) \<Rightarrow> card ((snd ` set m \<union> {dep}) - set deps)
       | Inr (Inl (pkgs, m, deps, dep, t, req)) \<Rightarrow> card (snd ` set m - set deps)
       | Inr (Inr (pkgs, m, deps, ds)) \<Rightarrow> card ((snd ` set m \<union> set ds) - set deps)),
     (\<lambda>x. case x of Inl _ \<Rightarrow> 0 | Inr (Inl _) \<Rightarrow> 2 | Inr (Inr _) \<Rightarrow> 1),
     (\<lambda>x. case x of Inr (Inr (pkgs, m, deps, ds)) \<Rightarrow> length ds | _ \<Rightarrow> 0)]")
        apply simp_all
  subgoal for pkgsMap deps dep
    using measure_drop[of "snd ` set pkgsMap" dep deps "deps @ [dep]"] by simp
  subgoal for pkgs pkgsMap deps dep d1
    using measure_drop[of "snd ` set pkgsMap" dep deps d1]
      grows_partial(2)[of pkgs pkgsMap "deps @ [dep]" dep]
    by fastforce
  subgoal for pkgs pkgsMap deps dep d1 d2
    using measure_drop[of "snd ` set pkgsMap" dep deps d2]
      grows_partial(2)[of pkgs pkgsMap "deps @ [dep]" dep]
      grows_partial(2)[of pkgs pkgsMap d1 dep]
    by fastforce
  subgoal for pkgs pkgsMap deps dep targetDeps required found
    using found_ran[of pkgsMap "dir (pkgs ! dep)" required "keys_or_empty targetDeps" found]
    by (simp add: Un_absorb2)
  subgoal for pkgsMap deps d ds
    using card_mono[of "insert d (snd ` set pkgsMap \<union> set ds) - set deps"
        "insert d (snd ` set pkgsMap) - set deps"]
    by (auto simp: le_less)
  subgoal for pkgs pkgsMap deps d ds deps'
    using measure_keep[of "snd ` set pkgsMap \<union> set ds" deps deps' d]
      grows_partial(1)[of pkgs pkgsMap deps d]
    by (auto simp: le_less)
  done

declare flattenDependencies.simps [simp del]
declare findDeps.simps [simp del]

text \<open>\<^verbatim>\<open>pkgs.forEach(pkg => flattenDependencies(pkg, pkg, pkgsMap))\<close> of \<^verbatim>\<open>main\<close>. The state
  is the \<^verbatim>\<open>_dependencies\<close> array of every record, by index.\<close>

definition flatten_pkg ::
  "package list \<Rightarrow> (string \<times> nat) list \<Rightarrow> nat list list \<Rightarrow> nat \<Rightarrow> error + nat list list" where
  "flatten_pkg pkgs pkgsMap st i =
     (case flattenDependencies pkgs pkgsMap (st ! i) i of
        Inl e \<Rightarrow> Inl e
      | Inr r \<Rightarrow> Inr (st[i := r]))"

fun forEach_throwing :: "('s \<Rightarrow> 'a \<Rightarrow> error + 's) \<Rightarrow> 's \<Rightarrow> 'a list \<Rightarrow> error + 's" where
  "forEach_throwing f s [] = Inr s"
| "forEach_throwing f s (x # xs) =
     (case f s x of Inl e \<Rightarrow> Inl e | Inr s' \<Rightarrow> forEach_throwing f s' xs)"

definition flatten_all :: "package list \<Rightarrow> nat list list \<Rightarrow> error + nat list list" where
  "flatten_all pkgs st =
     forEach_throwing (flatten_pkg pkgs (build_pkgsMap pkgs)) st [0..<length pkgs]"

section \<open>The generated document\<close>

definition nl :: string where
  "nl = [CHR 0x0A]"

definition BUILD_FILE_HEADER :: string where
  \<open>BUILD_FILE_HEADER = concat
     [''# Generated file from yarn_install rule.'', nl,
      ''# See $(bazel info output_base)/external/build_bazel_rules_nodejs/internal/npm_install/generate_build_file.js'', nl,
      nl,
      ''# All rules in other repositories can use these targets'', nl,
      ''package(default_visibility = ["//visibility:public"])'', nl,
      nl,
      ''load("@build_bazel_rules_nodejs//:defs.bzl", "nodejs_binary")'', nl,
      nl,
      ''# The entire node_modules directory in one catch-all filegroup.'', nl,
      ''# NB: Using this target may have bad performance implications if'', nl,
      ''# there are many files in filegroup.'', nl,
      ''# See https://github.com/bazelbuild/bazel/issues/5153.'', nl,
      ''filegroup('', nl,
      ''    name = "node_modules",'', nl,
      ''    srcs = glob('', nl,
      ''        include = ["node_modules/**/*"],'', nl,
      ''        exclude = ['', nl,
      ''          # Files under test & docs may contain file names that'', nl,
      ''          # are not legal Bazel labels (e.g.,'', nl,
      ''          # node_modules/ecstatic/test/public/'', [CHR 0xE4, CHR 0xB8, CHR 0xAD], [CHR 0xE6, CHR 0x96, CHR 0x87], ''/'', [CHR 0xE6, CHR 0xAA, CHR 0x94], [CHR 0xE6, CHR 0xA1, CHR 0x88], ''.html)'', nl,
      ''          "node_modules/**/test/**",'', nl,
      ''          "node_modules/**/docs/**",'', nl,
      ''          # Files with spaces in the name are not legal Bazel labels'', nl,
      ''          "node_modules/**/* */**",'', nl,
      ''          "node_modules/**/* *",'', nl,
      ''        ],'', nl,
      ''    ),'', nl,
      '')'', nl,
      nl,
      ''# A lite version of the node_modules filegroup that includes'', nl,
      ''# only js, d.ts and json files as well as the .bin folder. This can'', nl,
      ''# be used in some cases to improve performance by reducing the number'', nl,
      ''# of runfiles. The recommended approach to reducing performance'', nl,
      ''# is to use fine grained deps such as ["@npm//:a", "@npm://b", ...].'', nl,
      ''# There are cases where the node_modules_lite filegroup will'', nl,
      ''# not include files with no extension that are needed. The feature request'', nl,
      ''# https://github.com/bazelbuild/bazel/issues/5769 would allow this'', nl,
      ''# filegroup to include those files.'', nl,
      ''filegroup('', nl,
      ''    name = "node_modules_lite",'', nl,
      ''    srcs = glob('', nl,
      ''        include = ['', nl,
      ''          "node_modules/**/*.js",'', nl,
      ''          "node_modules/**/*.d.ts",'', nl,
      ''          "node_modules/**/*.json",'', nl,
      ''          "node_modules/.bin/*",'', nl,
      ''        ],'', nl,
      ''        exclude = ['', nl,
      ''          # Files under test & docs may contain file names that'', nl,
      ''          # are not legal Bazel labels (e.g.,'', nl,
      ''          # node_modules/ecstatic/test/public/'', [CHR 0xE4, CHR 0xB8, CHR 0xAD], [CHR 0xE6, CHR 0x96, CHR 0x87], ''/'', [CHR 0xE6, CHR 0xAA, CHR 0x94], [CHR 0xE6, CHR 0xA1, CHR 0x88], ''.html)'', nl,
      ''          "node_modules/**/test/**",'', nl,
      ''          "node_modules/**/docs/**",'', nl,
      ''          # Files with spaces in the name are not legal Bazel labels'', nl,
      ''          "node_modules/**/* */**",'', nl,
      ''          "node_modules/**/* *",'', nl,
      ''        ],'', nl,
      ''    ),'', nl,
      '')'', nl,
      nl]\<close>

text \<open>
  \<^verbatim>\<open>printJson(pkg)\<close>. \<^verbatim>\<open>JSON.stringify(v, null, 2)\<close> is a parameter. The clone of the record
  has the properties of the parsed \<^verbatim>\<open>package.json\<close> and, after them, the four attributes
  that \<^verbatim>\<open>parsePackage\<close> sets, in the order it sets them; an attribute whose name the
  \<^verbatim>\<open>package.json\<close> also has keeps the place of that property. \<^verbatim>\<open>_isNested\<close> is the result
  of the \<^verbatim>\<open>match\<close>, \<^verbatim>\<open>_dependencies\<close> the directories of the resolved records, and the
  \<^verbatim>\<open>Map\<close> of \<^verbatim>\<open>_executables\<close> is serialised as an empty object.
\<close>

fun own_properties :: "json \<Rightarrow> (string \<times> json) list" where
  "own_properties (JObject kvs) = kvs"
| "own_properties (JArray xs) = zip (map show_nat [0..<length xs]) xs"
| "own_properties _ = []"

definition cloned :: "package list \<Rightarrow> nat list \<Rightarrow> nat \<Rightarrow> json" where
  "cloned pkgs deps pkg =
     JObject
       (AList.update ''_executables'' (JObject [])
         (AList.update ''_dependencies'' (JArray (map (\<lambda>dep. JString (dir (pkgs ! dep))) deps))
           (AList.update ''_isNested''
              (if isNested (pkgs ! pkg) then JArray [JString ''/node_modules/''] else JNull)
             (AList.update ''_dir'' (JString (dir (pkgs ! pkg)))
               (own_properties (json (pkgs ! pkg)))))))"

definition printJson :: "(json \<Rightarrow> string) \<Rightarrow> package list \<Rightarrow> nat list \<Rightarrow> nat \<Rightarrow> string" where
  "printJson JSON_stringify pkgs deps pkg =
     join_with nl
       (map (\<lambda>line. ''# '' @ line) (split_on (CHR 0x0A) (JSON_stringify (cloned pkgs deps pkg))))"

text \<open>The entry \<^verbatim>\<open>":${dir}__files",\<close> of a \<^verbatim>\<open>srcs\<close> list.\<close>

definition files_label :: "string \<Rightarrow> string" where
  \<open>files_label d = ''":'' @ d @ ''__files",''\<close>

text \<open>The entries that \<^verbatim>\<open>printPackage\<close> lists after the package's own: the expression
  \<^verbatim>\<open>pkg._dependencies.filter(dep => dep != pkg).filter(dep => !dep._isNested).map(...)\<close>.\<close>

definition printPackage_deps :: "package list \<Rightarrow> nat list \<Rightarrow> nat \<Rightarrow> string list" where
  "printPackage_deps pkgs deps pkg =
     map (\<lambda>dep. files_label (dir (pkgs ! dep)))
       (filter (\<lambda>dep. \<not> isNested (pkgs ! dep)) (filter (\<lambda>dep. dep \<noteq> pkg) deps))"

text \<open>The \<^verbatim>\<open>nodejs_binary\<close> target of one entry of \<^verbatim>\<open>pkg._executables\<close>.\<close>

definition printExecutable :: "string \<Rightarrow> string \<Rightarrow> string \<Rightarrow> string" where
  \<open>printExecutable d name path = concat
     [''# Wire up the `bin` entry `'', name, ''`'', nl,
      ''nodejs_binary('', nl,
      ''    name = "'', d, ''/'', name, ''",'', nl,
      ''    entry_point = "'', d, ''/'', path, ''",'', nl,
      ''    install_source_map_support = False,'', nl,
      ''    data = [":'', d, ''"],'', nl,
      '')'', nl,
      nl]\<close>

text \<open>\<^verbatim>\<open>printPackage(pkg)\<close>; \<open>deps\<close> is \<^verbatim>\<open>pkg._dependencies\<close>.\<close>

definition printPackage :: "(json \<Rightarrow> string) \<Rightarrow> package list \<Rightarrow> nat list \<Rightarrow> nat \<Rightarrow> string" where
  \<open>printPackage JSON_stringify pkgs deps pkg =
     concat
     [nl,
      ''# Generated target for npm package "'', dir (pkgs ! pkg), ''"'', nl,
      printJson JSON_stringify pkgs deps pkg, nl,
      ''filegroup('', nl,
      ''    name = "'', dir (pkgs ! pkg), ''",'', nl,
      ''    srcs = ['', nl,
      ''        # '', dir (pkgs ! pkg), '' package contents (and contents of nested node_modules)'', nl,
      ''        '', files_label (dir (pkgs ! pkg)), nl,
      ''        # direct or transitive dependencies hoisted to root by the package manager'', nl,
      ''        '', join_with (nl @ ''        '') (printPackage_deps pkgs deps pkg), nl,
      ''    ],'', nl,
      ''    tags = ["NODE_MODULE_MARKER"],'', nl,
      '')'', nl,
      nl,
      ''filegroup('', nl,
      ''    name = "'', dir (pkgs ! pkg), ''__files",'', nl,
      ''    srcs = glob('', nl,
      ''        include = ["node_modules/'', dir (pkgs ! pkg), ''/**/*"],'', nl,
      ''        exclude = ['', nl,
      ''          # Files under test & docs may contain file names that'', nl,
      ''          # are not legal Bazel labels (e.g.,'', nl,
      ''          # node_modules/ecstatic/test/public/'', [CHR 0xE4, CHR 0xB8, CHR 0xAD], [CHR 0xE6, CHR 0x96, CHR 0x87], ''/'', [CHR 0xE6, CHR 0xAA, CHR 0x94], [CHR 0xE6, CHR 0xA1, CHR 0x88], ''.html)'', nl,
      ''          "node_modules/'', dir (pkgs ! pkg), ''/test/**",'', nl,
      ''          "node_modules/'', dir (pkgs ! pkg), ''/docs/**",'', nl,
      ''          # Files with spaces in the name are not legal Bazel labels'', nl,
      ''          "node_modules/'', dir (pkgs ! pkg), ''/**/* */**",'', nl,
      ''          "node_modules/'', dir (pkgs ! pkg), ''/**/* *",'', nl,
      ''        ],'', nl,
      ''    ),'', nl,
      ''    tags = ["NODE_MODULE_MARKER"],'', nl,
      '')'', nl,
      nl,
      ''filegroup('', nl,
      ''    name = "'', dir (pkgs ! pkg), ''__typings",'', nl,
      ''    srcs = glob('', nl,
      ''        include = ["node_modules/'', dir (pkgs ! pkg), ''/**/*.d.ts"],'', nl,
      ''        exclude = ['', nl,
      ''          # Files under test & docs may contain file names that'', nl,
      ''          # are not legal Bazel labels (e.g.,'', nl,
      ''          # node_modules/ecstatic/test/public/'', [CHR 0xE4, CHR 0xB8, CHR 0xAD], [CHR 0xE6, CHR 0x96, CHR 0x87], ''/'', [CHR 0xE6, CHR 0xAA, CHR 0x94], [CHR 0xE6, CHR 0xA1, CHR 0x88], ''.html)'', nl,
      ''          "node_modules/'', dir (pkgs ! pkg), ''/test/**",'', nl,
      ''          "node_modules/'', dir (pkgs ! pkg), ''/docs/**",'', nl,
      ''          # Files with spaces in the name are not legal Bazel labels'', nl,
      ''          "node_modules/'', dir (pkgs ! pkg), ''/**/* */**",'', nl,
      ''          "node_modules/'', dir (pkgs ! pkg), ''/**/* *",'', nl,
      ''        ],'', nl,
      ''    ),'', nl,
      ''    tags = ["NODE_MODULE_MARKER"],'', nl,
      '')'', nl]
     @ concat (map (\<lambda>(name, path). printExecutable (dir (pkgs ! pkg)) name path)
                 (executables (pkgs ! pkg)))\<close>

text \<open>\<^verbatim>\<open>printScope(scope, pkgs)\<close>\<close>

definition printScope :: "string \<Rightarrow> package list \<Rightarrow> string" where
  \<open>printScope scope pkgs =
     (let scopePkgs = filter (\<lambda>pkg. \<not> isNested pkg \<and> startsWith (dir pkg) (scope @ ''/'')) pkgs
      in concat
     [nl,
      ''# Generated target for npm scope '', scope, nl,
      ''filegroup('', nl,
      ''    name = "'', scope, ''",'', nl,
      ''    srcs = ['', nl,
      ''        '', join_with (nl @ ''        '') (map (\<lambda>pkg. ''":'' @ dir pkg @ ''",'') scopePkgs), nl,
      ''    ],'', nl,
      ''    tags = ["NODE_MODULE_MARKER"],'', nl,
      '')'', nl,
      nl])\<close>

section \<open>The main entry point\<close>

text \<open>\<^verbatim>\<open>fs.writeFileSync(name, text)\<close> in the working directory: the entry is replaced or
  added; a directory of that name cannot be written.\<close>

fun writeFileSync :: "fsnode \<Rightarrow> string \<Rightarrow> string \<Rightarrow> (error + unit) \<times> fsnode" where
  "writeFileSync (Directory entries) name text =
     (case map_of entries name of
        Some (Directory sub) \<Rightarrow> (Inl (SystemError ''EISDIR''), Directory entries)
      | _ \<Rightarrow> (Inr (), Directory (AList.update name (File text) entries)))"
| "writeFileSync cwd name text = (Inl (SystemError ''ENOTDIR''), cwd)"

text \<open>The document before the manual fragment: \<^verbatim>\<open>buildFile\<close> of \<^verbatim>\<open>main\<close> when it reaches
  the \<^verbatim>\<open>try\<close>. \<open>deps ! i\<close> is the \<^verbatim>\<open>_dependencies\<close> of the record \<open>pkgs ! i\<close>.\<close>

definition generated_targets ::
  "(json \<Rightarrow> string) \<Rightarrow> package list \<Rightarrow> nat list list \<Rightarrow> string list \<Rightarrow> string" where
  "generated_targets JSON_stringify pkgs deps scopes =
     BUILD_FILE_HEADER
     @ concat (map (\<lambda>pkg. printPackage JSON_stringify pkgs (deps ! pkg) pkg)
                 (filter (\<lambda>pkg. \<not> isNested (pkgs ! pkg)) [0..<length pkgs]))
     @ concat (map (\<lambda>scope. printScope scope pkgs) scopes)"

text \<open>
  \<^verbatim>\<open>main()\<close>, from the working directory \<open>cwd\<close> to the exception or the normal return, and
  the working directory it leaves. \<^verbatim>\<open>JSON.parse\<close> and \<^verbatim>\<open>JSON.stringify\<close> are parameters.
  The \<^verbatim>\<open>try\<close> appends two newlines and the manual fragment when the fragment can be read,
  and \<^verbatim>\<open>catch (e) {}\<close> drops every exception of the read.
\<close>

definition main ::
  "(string \<Rightarrow> json option) \<Rightarrow> (json \<Rightarrow> string) \<Rightarrow> fsnode \<Rightarrow> (error + unit) \<times> fsnode" where
  "main JSON_parse JSON_stringify cwd =
     (case findPackages JSON_parse ''node_modules'' (child cwd ''node_modules'') of
        Inl e \<Rightarrow> (Inl e, cwd)
      | Inr pkgs \<Rightarrow>
          (let scopes = findScopes (child cwd ''node_modules'')
           in case flatten_all pkgs (replicate (length pkgs) []) of
                Inl e \<Rightarrow> (Inl e, cwd)
              | Inr deps \<Rightarrow>
                  (let buildFile = generated_targets JSON_stringify pkgs deps scopes;
                       buildFile =
                         (case readFileSync (child cwd ''manual_build_file_contents'') of
                            Inr manualContents \<Rightarrow> buildFile @ nl @ nl @ manualContents
                          | Inl e \<Rightarrow> buildFile)
                   in writeFileSync cwd ''BUILD.bazel'' buildFile)))"

section \<open>The notions of the specification\<close>

text \<open>
  Definitions that are not functions of the script: they word what the specification says
  about the lookup, the errors and the executables, so that the functions above can be
  compared with it.
\<close>

text \<open>
  The lookup as the specification words it: the candidate paths
  \<^verbatim>\<open><segments>/node_modules/<name>\<close>, formed by \<^verbatim>\<open>path.posix.join\<close> from the segments
  of the directory, the longest prefix first, down to one segment; the first candidate
  that the index holds is selected, and the name itself is looked up at the root of the
  index when there is none.
\<close>

definition candidate :: "string \<Rightarrow> string \<Rightarrow> nat \<Rightarrow> string" where
  "candidate depDir targetDep k =
     posix_join (take k (split_on (CHR ''/'') depDir) @ [''node_modules'', targetDep])"

definition candidate_paths :: "string \<Rightarrow> string \<Rightarrow> string list" where
  "candidate_paths depDir targetDep =
     map (candidate depDir targetDep) (rev [1..<Suc (length (split_on (CHR ''/'') depDir))])"

definition nearest_ancestor_lookup :: "(string \<times> nat) list \<Rightarrow> string \<Rightarrow> string \<Rightarrow> nat option" where
  "nearest_ancestor_lookup pkgsMap depDir targetDep =
     (case find (\<lambda>c. map_of pkgsMap c \<noteq> None) (candidate_paths depDir targetDep) of
        Some c \<Rightarrow> map_of pkgsMap c
      | None \<Rightarrow> map_of pkgsMap targetDep)"

text \<open>A path that normalisation leaves alone: no segment is empty, \<^verbatim>\<open>.\<close> or \<^verbatim>\<open>..\<close>.\<close>

definition clean_path :: "string \<Rightarrow> bool" where
  "clean_path p = (\<forall>s \<in> set (split_on (CHR ''/'') p). s \<noteq> [] \<and> s \<noteq> ''.'' \<and> s \<noteq> ''..'')"

definition resolve_by_spec ::
  "(string \<times> nat) list \<Rightarrow> string \<Rightarrow> bool \<Rightarrow> string \<Rightarrow> error + nat option" where
  "resolve_by_spec pkgsMap depDir required targetDep =
     (case nearest_ancestor_lookup pkgsMap depDir targetDep of
        Some r \<Rightarrow> Inr (Some r)
      | None \<Rightarrow>
          if required
          then Inl (Error (''Could not find required dep '' @ targetDep @ '' of '' @ depDir))
          else Inr None)"

text \<open>The names a record requires: the keys of \<^verbatim>\<open>dependencies\<close>, then those of
  \<^verbatim>\<open>peerDependencies\<close>, the two mappings \<^verbatim>\<open>findDeps\<close> is called on with
  \<^verbatim>\<open>required = true\<close>.\<close>

definition required_names :: "package \<Rightarrow> string list" where
  "required_names pkg =
     keys_or_empty (property (json pkg) ''dependencies'')
     @ keys_or_empty (property (json pkg) ''peerDependencies'')"

text \<open>A name is missing for a directory when neither the loop over the directory's
  segments nor the lookup at the root of the index finds it.\<close>

definition missing :: "(string \<times> nat) list \<Rightarrow> string \<Rightarrow> string \<Rightarrow> bool" where
  "missing pkgsMap depDir targetDep =
     (lookupNested pkgsMap (split_on (CHR ''/'') depDir) targetDep = None
      \<and> map_of pkgsMap targetDep = None)"

text \<open>The error \<^verbatim>\<open>findDeps\<close> throws.\<close>

definition missing_dep_error :: "string \<Rightarrow> string \<Rightarrow> error" where
  "missing_dep_error targetDep depDir =
     Error (''Could not find required dep '' @ targetDep @ '' of '' @ depDir)"

text \<open>The shape of every error of the resolution.\<close>

definition names_missing_dep :: "package list \<Rightarrow> (string \<times> nat) list \<Rightarrow> error \<Rightarrow> bool" where
  "names_missing_dep pkgs pkgsMap e =
     (\<exists>q Y. e = missing_dep_error Y (dir (pkgs ! q))
          \<and> Y \<in> set (required_names (pkgs ! q))
          \<and> missing pkgsMap (dir (pkgs ! q)) Y)"

text \<open>The normalisation of an entry-point path as the specification words it: every
  backslash becomes a slash, then one leading \<^verbatim>\<open>./\<close> is removed.\<close>

fun strip_dot_slash :: "string \<Rightarrow> string" where
  "strip_dot_slash (a # b # rest) = (if a = CHR ''.'' \<and> b = CHR ''/'' then rest else a # b # rest)"
| "strip_dot_slash s = s"

definition normalized_path :: "string \<Rightarrow> string" where
  "normalized_path s = strip_dot_slash (map (\<lambda>c. if c = CHR 0x5C then CHR ''/'' else c) s)"

text \<open>
  A well-formed tree: \<^verbatim>\<open>fs.readdirSync\<close> lists every name of a directory once, and a name
  is not empty, has no slash and is neither \<^verbatim>\<open>.\<close> nor \<^verbatim>\<open>..\<close>.
\<close>

definition clean_name :: "string \<Rightarrow> bool" where
  "clean_name f = (f \<noteq> [] \<and> f \<noteq> ''.'' \<and> f \<noteq> ''..'' \<and> CHR ''/'' \<notin> set f)"

fun wf_fs :: "fsnode \<Rightarrow> bool" and wf_entries :: "(string \<times> fsnode) list \<Rightarrow> bool" where
  "wf_fs (File text) = True"
| "wf_fs Unreadable = True"
| "wf_fs (Directory entries) = (distinct (map fst entries) \<and> wf_entries entries)"
| "wf_entries [] = True"
| "wf_entries (e # es) = (clean_name (fst e) \<and> wf_fs (snd e) \<and> wf_entries es)"

text \<open>The directories of the records of a scan below the path \<open>p\<close>: the paths
  \<open>p/r\<close> without their leading \<^verbatim>\<open>node_modules/\<close>, for pairwise different relative
  paths \<open>r\<close> whose first segment is in \<open>heads\<close>.\<close>

definition scanned_dirs :: "string \<Rightarrow> string set \<Rightarrow> package list \<Rightarrow> bool" where
  "scanned_dirs p heads pkgs =
     (\<exists>rs. map dir pkgs = map (\<lambda>r. strip_node_modules (p @ ''/'' @ r)) rs
          \<and> distinct rs
          \<and> (\<forall>r \<in> set rs. clean_path r \<and> hd (split_on (CHR ''/'') r) \<in> heads))"

text \<open>
  The package directories that the scan of the directory \<open>node\<close> at the path \<open>p\<close> comes
  to, when nothing stops it before: \<open>parsed_at p node q m\<close> says that \<^verbatim>\<open>findPackages(p)\<close>
  calls \<^verbatim>\<open>parsePackage(q)\<close>, and \<open>m\<close> is the directory at \<open>q\<close>. These are the packages
  among the entries, the packages of their own \<^verbatim>\<open>node_modules\<close>, and the packages of the
  scope directories.
\<close>

inductive parsed_at :: "string \<Rightarrow> fsnode \<Rightarrow> string \<Rightarrow> fsnode \<Rightarrow> bool" where
  entry:
    "(f, n) \<in> set listing \<Longrightarrow> \<not> startsWith f ''@'' \<Longrightarrow> isPackage n \<Longrightarrow>
     parsed_at p (Directory listing) (posix_join [p, f]) n"
| nested:
    "(f, n) \<in> set listing \<Longrightarrow> \<not> startsWith f ''@'' \<Longrightarrow> isPackage n \<Longrightarrow>
     child n ''node_modules'' = Some c \<Longrightarrow>
     parsed_at (posix_join [posix_join [p, f], ''node_modules'']) c q m \<Longrightarrow>
     parsed_at p (Directory listing) q m"
| scoped:
    "(f, n) \<in> set listing \<Longrightarrow> startsWith f ''@'' \<Longrightarrow> isDirectory n \<Longrightarrow>
     parsed_at (posix_join [p, f]) n q m \<Longrightarrow>
     parsed_at p (Directory listing) q m"

section \<open>Example install trees\<close>

text \<open>Two packages that depend on each other.\<close>

definition pkgA :: package where
  "pkgA = \<lparr> json = JObject [(''name'', JString ''A''),
                              (''dependencies'', JObject [(''B'', JString ''^1.0.0'')])],
            dir = ''A'', isNested = False, executables = [] \<rparr>"

definition pkgB :: package where
  "pkgB = \<lparr> json = JObject [(''name'', JString ''B''),
                              (''dependencies'', JObject [(''A'', JString ''^1.0.0'')])],
            dir = ''B'', isNested = False, executables = [] \<rparr>"

definition cycle_pkgs :: "package list" where
  "cycle_pkgs = [pkgA, pkgB]"

text \<open>An install tree with a package \<^verbatim>\<open>A\<close> that declares \<^verbatim>\<open>X\<close>, a private copy of
  \<^verbatim>\<open>X\<close> nested under \<^verbatim>\<open>A\<close>, a package \<^verbatim>\<open>B\<close> that declares \<^verbatim>\<open>X\<close> too, and
  \<^verbatim>\<open>X\<close> hoisted to the root; in the order \<^verbatim>\<open>findPackages\<close> lists them.\<close>

definition shadow_pkgs :: "package list" where
  "shadow_pkgs =
     [\<lparr> json = JObject [(''name'', JString ''A''), (''dependencies'', JObject [(''X'', JString ''1.0.0'')])],
        dir = ''A'', isNested = False, executables = [] \<rparr>,
      \<lparr> json = JObject [(''name'', JString ''X''), (''version'', JString ''1.0.0'')],
        dir = ''A/node_modules/X'', isNested = True, executables = [] \<rparr>,
      \<lparr> json = JObject [(''name'', JString ''B''), (''dependencies'', JObject [(''X'', JString ''2.0.0'')])],
        dir = ''B'', isNested = False, executables = [] \<rparr>,
      \<lparr> json = JObject [(''name'', JString ''X''), (''version'', JString ''2.0.0'')],
        dir = ''X'', isNested = False, executables = [] \<rparr>]"

text \<open>A package that requires two names, neither installed, and a package whose only
  missing name is optional.\<close>

definition missing_pkgs :: "package list" where
  "missing_pkgs =
     [\<lparr> json = JObject [(''name'', JString ''P''),
                         (''dependencies'', JObject [(''x'', JString ''1''), (''y'', JString ''1'')])],
        dir = ''P'', isNested = False, executables = [] \<rparr>]"

definition optional_pkgs :: "package list" where
  "optional_pkgs =
     [\<lparr> json = JObject [(''name'', JString ''chokidar''),
                         (''optionalDependencies'', JObject [(''fsevents'', JString ''1'')])],
        dir = ''chokidar'', isNested = False, executables = [] \<rparr>]"

text \<open>A package installed under the directory \<^verbatim>\<open>foo\<close> whose \<^verbatim>\<open>package.json\<close> declares the
  name \<^verbatim>\<open>bar\<close> (an aliased install) and a single executable; and the same package nested
  under a package \<^verbatim>\<open>a\<close>. \<open>example_parse\<close> is \<^verbatim>\<open>JSON.parse\<close> on the texts of the examples.\<close>

definition example_parse :: "string \<Rightarrow> json option" where
  \<open>example_parse =
     map_of
       [(''{"name":"bar","bin":"./cli.js"}'',
         JObject [(''name'', JString ''bar''), (''bin'', JString ''./cli.js'')]),
        (''{"name":"tool","bin":{"t1":"./bin/t1","t2":"lib/t2.js"}}'',
         JObject [(''name'', JString ''tool''),
                  (''bin'', JObject [(''t1'', JString ''./bin/t1''), (''t2'', JString ''lib/t2.js'')])]),
        (''{"name":"P","dependencies":{"x":"1"}}'',
         JObject [(''name'', JString ''P''), (''dependencies'', JObject [(''x'', JString ''1'')])]),
        (''{"name":"A","dependencies":{"B":"^1.0.0"}}'',
         JObject [(''name'', JString ''A''), (''dependencies'', JObject [(''B'', JString ''^1.0.0'')])]),
        (''{"name":"B","dependencies":{"A":"^1.0.0"}}'',
         JObject [(''name'', JString ''B''), (''dependencies'', JObject [(''A'', JString ''^1.0.0'')])]),
        (''{"name":"A","dependencies":{"X":"1.0.0"}}'',
         JObject [(''name'', JString ''A''), (''dependencies'', JObject [(''X'', JString ''1.0.0'')])]),
        (''{"name":"X","version":"1.0.0"}'',
         JObject [(''name'', JString ''X''), (''version'', JString ''1.0.0'')]),
        (''{"name":"B","dependencies":{"X":"2.0.0"}}'',
         JObject [(''name'', JString ''B''), (''dependencies'', JObject [(''X'', JString ''2.0.0'')])]),
        (''{"name":"X","version":"2.0.0"}'',
         JObject [(''name'', JString ''X''), (''version'', JString ''2.0.0'')]),
        (''{}'', JObject [])]\<close>

definition foo_dir :: fsnode where
  \<open>foo_dir = Directory [(''package.json'', File ''{"name":"bar","bin":"./cli.js"}''), (''cli.js'', File '''')]\<close>

definition tool_dir :: fsnode where
  \<open>tool_dir = Directory [(''package.json'', File ''{"name":"tool","bin":{"t1":"./bin/t1","t2":"lib/t2.js"}}'')]\<close>

text \<open>Three working directories: one whose only package, in a scope, has a
  \<^verbatim>\<open>package.json\<close> that does not parse, one whose only package requires a name that is not installed, and one with the
  package \<^verbatim>\<open>foo\<close> and a fragment that is a directory, a file that cannot be read, or a
  file.\<close>

definition broken_cwd :: fsnode where
  \<open>broken_cwd =
     Directory
       [(''node_modules'',
         Directory [(''@s'', Directory [(''foo'', Directory [(''package.json'', File ''{"name":'')])])])]\<close>

definition unresolved_cwd :: fsnode where
  \<open>unresolved_cwd =
     Directory [(''node_modules'',
        Directory [(''P'', Directory [(''package.json'', File ''{"name":"P","dependencies":{"x":"1"}}'')])])]\<close>

definition installed_cwd :: "(string \<times> fsnode) list \<Rightarrow> fsnode" where
  "installed_cwd others = Directory ((''node_modules'', Directory [(''foo'', foo_dir)]) # others)"

definition foo_pkgs :: "package list" where
  "foo_pkgs =
     [\<lparr> json = JObject [(''name'', JString ''bar''), (''bin'', JString ''./cli.js'')],
        dir = ''foo'', isNested = False, executables = [(''foo'', ''cli.js'')] \<rparr>]"

text \<open>The \<^verbatim>\<open>node_modules\<close> directories whose scans are \<open>cycle_pkgs\<close> and \<open>shadow_pkgs\<close>.\<close>

definition cycle_tree :: fsnode where
  \<open>cycle_tree =
     Directory
       [(''A'', Directory [(''package.json'', File ''{"name":"A","dependencies":{"B":"^1.0.0"}}'')]),
        (''B'', Directory [(''package.json'', File ''{"name":"B","dependencies":{"A":"^1.0.0"}}'')])]\<close>

definition shadow_tree :: fsnode where
  \<open>shadow_tree =
     Directory
       [(''A'', Directory
           [(''package.json'', File ''{"name":"A","dependencies":{"X":"1.0.0"}}''),
            (''node_modules'',
             Directory [(''X'', Directory [(''package.json'', File ''{"name":"X","version":"1.0.0"}'')])])]),
        (''B'', Directory [(''package.json'', File ''{"name":"B","dependencies":{"X":"2.0.0"}}'')]),
        (''X'', Directory [(''package.json'', File ''{"name":"X","version":"2.0.0"}'')])]\<close>

text \<open>A working directory that holds the tree of \<open>shadow_pkgs\<close> and nothing else.\<close>

definition shadow_cwd :: fsnode where
  "shadow_cwd = Directory [(''node_modules'', shadow_tree)]"

section \<open>Auxiliary facts\<close>

lemma split_on_nonempty [simp]: "split_on c s \<noteq> []"
  by (induction s) (auto split: list.splits)

lemma split_on_Cons [simp]:
  "split_on sep (c # cs) =
     (if c = sep then [] # split_on sep cs
      else (c # hd (split_on sep cs)) # tl (split_on sep cs))"
  by (cases "split_on sep cs") simp_all

declare split_on.simps(2) [simp del]

lemma flattenDependencies_visited:
  "dep \<in> set deps \<Longrightarrow> flattenDependencies pkgs m deps dep = Inr deps"
  by (simp add: flattenDependencies.simps[of pkgs m deps dep])

lemma flattenDependencies_InrE:
  assumes "flattenDependencies pkgs m deps dep = Inr r" and "dep \<notin> set deps"
  obtains d1 d2 where
    "findDeps pkgs m (deps @ [dep]) dep (property (json (pkgs ! dep)) ''dependencies'') True = Inr d1"
    "findDeps pkgs m d1 dep (property (json (pkgs ! dep)) ''peerDependencies'') True = Inr d2"
    "findDeps pkgs m d2 dep (property (json (pkgs ! dep)) ''optionalDependencies'') False = Inr r"
  using assms
  by (auto simp: flattenDependencies.simps[of pkgs m deps dep] split: sum.splits)

lemma findDeps_InrE:
  assumes "findDeps pkgs m deps dep targetDeps required = Inr r"
  obtains found where
    "map_throwing (resolveTargetDep m (dir (pkgs ! dep)) required) (keys_or_empty targetDeps) = Inr found"
    "flattenEach pkgs m deps (filter_found found) = Inr r"
  using assms
  by (auto simp: findDeps.simps[of pkgs m deps dep] split: sum.splits)

lemma flattenEach_Cons_InrE:
  assumes "flattenEach pkgs m deps (d # ds) = Inr r"
  obtains deps' where
    "flattenDependencies pkgs m deps d = Inr deps'"
    "flattenEach pkgs m deps' ds = Inr r"
  using assms by (auto split: sum.splits)

lemma flatten_invariant:
  fixes I :: "nat list \<Rightarrow> bool" and S :: "nat set"
  assumes step: "\<And>ds d. I ds \<Longrightarrow> d \<notin> set ds \<Longrightarrow> d \<in> S \<Longrightarrow> I (ds @ [d])"
  shows "flattenDependencies pkgs m deps dep = Inr r \<Longrightarrow> snd ` set m \<subseteq> S \<Longrightarrow> dep \<in> S \<Longrightarrow> I deps \<Longrightarrow> I r"
    and "findDeps pkgs m deps dep targetDeps required = Inr r \<Longrightarrow> snd ` set m \<subseteq> S \<Longrightarrow> I deps \<Longrightarrow> I r"
    and "flattenEach pkgs m deps ds = Inr r \<Longrightarrow> snd ` set m \<subseteq> S \<Longrightarrow> set ds \<subseteq> S \<Longrightarrow> I deps \<Longrightarrow> I r"
proof (induction pkgs m deps dep and pkgs m deps dep targetDeps required and pkgs m deps ds
    arbitrary: r and r and r
    rule: flattenDependencies_findDeps_flattenEach.induct)
  case (1 pkgs pkgsMap deps dep)
  show ?case
  proof (cases "dep \<in> set deps")
    case True
    with "1.prems" show ?thesis by (simp add: flattenDependencies_visited)
  next
    case False
    from "1.prems"(1) False obtain d1 d2 where
      s1: "findDeps pkgs pkgsMap (deps @ [dep]) dep
             (property (json (pkgs ! dep)) ''dependencies'') True = Inr d1" and
      s2: "findDeps pkgs pkgsMap d1 dep
             (property (json (pkgs ! dep)) ''peerDependencies'') True = Inr d2" and
      s3: "findDeps pkgs pkgsMap d2 dep
             (property (json (pkgs ! dep)) ''optionalDependencies'') False = Inr r"
      by (rule flattenDependencies_InrE)
    have "I (deps @ [dep])"
      using "1.prems" False by (intro step)
    with "1.IH"(1)[OF False s1 "1.prems"(2)] have "I d1" .
    with "1.IH"(2)[OF False s1 s2 "1.prems"(2)] have "I d2" .
    with "1.IH"(3)[OF False s1 s2 s3 "1.prems"(2)] show ?thesis .
  qed
next
  case (2 pkgs pkgsMap deps dep targetDeps required)
  from "2.prems"(1) obtain found where
    f: "map_throwing (resolveTargetDep pkgsMap (dir (pkgs ! dep)) required)
          (keys_or_empty targetDeps) = Inr found" and
    e: "flattenEach pkgs pkgsMap deps (filter_found found) = Inr r"
    by (rule findDeps_InrE)
  from found_ran[OF f] "2.prems"(2) have "set (filter_found found) \<subseteq> S" by blast
  from "2.IH"[OF f e "2.prems"(2) this "2.prems"(3)] show ?case .
next
  case (3 pkgs pkgsMap deps)
  then show ?case by simp
next
  case (4 pkgs pkgsMap deps d ds)
  from "4.prems"(1) obtain deps' where
    a: "flattenDependencies pkgs pkgsMap deps d = Inr deps'" and
    b: "flattenEach pkgs pkgsMap deps' ds = Inr r"
    by (rule flattenEach_Cons_InrE)
  from "4.prems"(3) have "d \<in> S" "set ds \<subseteq> S" by auto
  from "4.IH"(1)[OF a "4.prems"(2) \<open>d \<in> S\<close> "4.prems"(4)] have "I deps'" .
  from "4.IH"(2)[OF a b "4.prems"(2) \<open>set ds \<subseteq> S\<close> this] show ?case .
qed


lemma flatten_prefix:
  "flattenDependencies pkgs m deps dep = Inr r \<Longrightarrow> \<exists>ys. r = deps @ ys"
  by (rule flatten_invariant(1)[where S = UNIV and I = "\<lambda>r. \<exists>ys. r = deps @ ys"]) auto

lemma flatten_distinct:
  "flattenDependencies pkgs m deps dep = Inr r \<Longrightarrow> distinct deps \<Longrightarrow> distinct r"
  by (rule flatten_invariant(1)[where S = UNIV and I = distinct]) auto

lemma flatten_subset:
  "flattenDependencies pkgs m deps dep = Inr r \<Longrightarrow> snd ` set m \<subseteq> S \<Longrightarrow> dep \<in> S \<Longrightarrow>
   set deps \<subseteq> S \<Longrightarrow> set r \<subseteq> S"
  by (rule flatten_invariant(1)[where S = S and I = "\<lambda>r. set r \<subseteq> S"]) auto


lemma forEach_flatten_pkg:
  assumes "forEach_throwing (flatten_pkg pkgs m) st xs = Inr st'"
    and "distinct xs" and "\<forall>x \<in> set xs. x < length st"
  shows "length st' = length st
       \<and> (\<forall>i \<in> set xs. flattenDependencies pkgs m (st ! i) i = Inr (st' ! i))
       \<and> (\<forall>i. i \<notin> set xs \<longrightarrow> st' ! i = st ! i)"
  using assms
proof (induction xs arbitrary: st)
  case Nil
  then show ?case by simp
next
  case (Cons x xs)
  from Cons.prems(1) obtain s' where
    s': "flatten_pkg pkgs m st x = Inr s'" and
    rest': "forEach_throwing (flatten_pkg pkgs m) s' xs = Inr st'"
    by (cases "flatten_pkg pkgs m st x") auto
  from s' obtain r where
    r: "flattenDependencies pkgs m (st ! x) x = Inr r" and "s' = st[x := r]"
    by (auto simp: flatten_pkg_def split: sum.splits)
  with rest' have rest: "forEach_throwing (flatten_pkg pkgs m) (st[x := r]) xs = Inr st'"
    by simp
  from Cons.prems(2,3) have d: "distinct xs" "x \<notin> set xs"
    and b: "\<forall>y \<in> set xs. y < length (st[x := r])" "x < length st"
    by auto
  from Cons.IH[OF rest d(1) b(1)] have
    l: "length st' = length st" and
    i: "\<forall>i \<in> set xs. flattenDependencies pkgs m (st[x := r] ! i) i = Inr (st' ! i)" and
    o: "\<forall>i. i \<notin> set xs \<longrightarrow> st' ! i = st[x := r] ! i"
    by auto
  from o d(2) b(2) have "st' ! x = r" by simp
  with r have "flattenDependencies pkgs m (st ! x) x = Inr (st' ! x)" by simp
  moreover from i d(2) have "\<forall>i \<in> set xs. flattenDependencies pkgs m (st ! i) i = Inr (st' ! i)"
    by (metis nth_list_update_neq)
  moreover from o have "\<forall>i. i \<notin> set (x # xs) \<longrightarrow> st' ! i = st ! i"
    by simp
  ultimately show ?case using l by simp
qed

lemma flatten_all_results:
  assumes "flatten_all pkgs st = Inr st'" and "length st = length pkgs" and "i < length pkgs"
  shows "flattenDependencies pkgs (build_pkgsMap pkgs) (st ! i) i = Inr (st' ! i)"
    and "length st' = length pkgs"
  using forEach_flatten_pkg[of pkgs "build_pkgsMap pkgs" st "[0..<length pkgs]" st'] assms
  by (simp_all add: flatten_all_def)

lemma update_ran: "snd ` set (AList.update k v al) \<subseteq> insert v (snd ` set al)"
  by (induction al) auto

lemma fold_update_ran:
  "snd ` set (fold (\<lambda>i m. AList.update (f i) i m) xs al) \<subseteq> snd ` set al \<union> set xs"
proof (induction xs arbitrary: al)
  case Nil
  then show ?case by simp
next
  case (Cons x xs)
  from Cons.IH[of "AList.update (f x) x al"] update_ran[of "f x" x al]
  show ?case by auto
qed

lemma build_pkgsMap_ran: "snd ` set (build_pkgsMap pkgs) \<subseteq> {..<length pkgs}"
  using fold_update_ran[of "\<lambda>i. dir (pkgs ! i)" "[0..<length pkgs]" "[]"]
  by (auto simp: build_pkgsMap_def)

lemma flatten_in_range:
  assumes "flattenDependencies pkgs (build_pkgsMap pkgs) deps dep = Inr r"
    and "dep < length pkgs" and "set deps \<subseteq> {..<length pkgs}"
  shows "set r \<subseteq> {..<length pkgs}"
  using assms(1) build_pkgsMap_ran _ assms(3)
  by (rule flatten_subset) (use assms(2) in simp)

lemma distinct_dirs:
  assumes "distinct (map dir pkgs)" and "distinct r" and "set r \<subseteq> {..<length pkgs}"
  shows "distinct (map (\<lambda>d. dir (pkgs ! d)) r)"
proof -
  have "inj_on (\<lambda>d. dir (pkgs ! d)) {..<length pkgs}"
    using assms(1) by (auto simp: inj_on_def distinct_conv_nth)
  then have "inj_on (\<lambda>d. dir (pkgs ! d)) (set r)"
    using assms(3) by (rule inj_on_subset)
  with assms(2) show ?thesis by (simp add: distinct_map)
qed

lemma findDeps_prefix:
  "findDeps pkgs m deps dep targetDeps required = Inr r \<Longrightarrow> \<exists>ys. r = deps @ ys"
  by (rule flatten_invariant(2)[where S = UNIV and I = "\<lambda>r. \<exists>ys. r = deps @ ys"]) auto

lemma flatten_self:
  assumes "flattenDependencies pkgs m [] dep = Inr r"
  shows "\<exists>ys. r = dep # ys"
proof -
  have "dep \<notin> set []" by simp
  with assms obtain d1 d2 where
    s1: "findDeps pkgs m ([] @ [dep]) dep
           (property (json (pkgs ! dep)) ''dependencies'') True = Inr d1" and
    s2: "findDeps pkgs m d1 dep
           (property (json (pkgs ! dep)) ''peerDependencies'') True = Inr d2" and
    s3: "findDeps pkgs m d2 dep
           (property (json (pkgs ! dep)) ''optionalDependencies'') False = Inr r"
    by (rule flattenDependencies_InrE)
  from findDeps_prefix[OF s1] findDeps_prefix[OF s2] findDeps_prefix[OF s3]
  show ?thesis by auto
qed

lemma cycle_pkgs_flatten_all: "flatten_all cycle_pkgs [[], []] = Inr [[0, 1], [1, 0]]"
  unfolding cycle_pkgs_def by code_simp

lemma forEach_flatten_pkg_visited:
  assumes "\<forall>i \<in> set xs. i < length st \<and> i \<in> set (st ! i)"
  shows "forEach_throwing (flatten_pkg pkgs m) st xs = Inr st"
  using assms
  by (induction xs) (simp_all add: flatten_pkg_def flattenDependencies_visited)

lemma findDeps_no_keys:
  "keys_or_empty targetDeps = [] \<Longrightarrow> findDeps pkgs m deps dep targetDeps required = Inr deps"
  by (simp add: findDeps.simps[of pkgs m deps dep] filter_found_def List.map_filter_def)

lemma findDeps_one_key:
  "keys_or_empty targetDeps = [k] \<Longrightarrow> resolveTargetDep m (dir (pkgs ! dep)) required k = Inr (Some d) \<Longrightarrow>
   findDeps pkgs m deps dep targetDeps required = flattenDependencies pkgs m deps d"
  by (simp add: findDeps.simps[of pkgs m deps dep] filter_found_def List.map_filter_def split: sum.splits)

lemma flattenDependencies_one_dependency:
  assumes "dep \<notin> set deps"
    and "keys_or_empty (property (json (pkgs ! dep)) ''dependencies'') = [k]"
    and "resolveTargetDep m (dir (pkgs ! dep)) True k = Inr (Some d)"
    and "keys_or_empty (property (json (pkgs ! dep)) ''peerDependencies'') = []"
    and "keys_or_empty (property (json (pkgs ! dep)) ''optionalDependencies'') = []"
  shows "flattenDependencies pkgs m deps dep = flattenDependencies pkgs m (deps @ [dep]) d"
  using assms
  by (simp add: flattenDependencies.simps[of pkgs m deps dep] findDeps_no_keys findDeps_one_key
      split: sum.splits)

lemma cycle_pkgs_keys:
  "keys_or_empty (property (json (cycle_pkgs ! 0)) ''dependencies'') = [''B'']"
  "keys_or_empty (property (json (cycle_pkgs ! 0)) ''peerDependencies'') = []"
  "keys_or_empty (property (json (cycle_pkgs ! 0)) ''optionalDependencies'') = []"
  "keys_or_empty (property (json (cycle_pkgs ! 1)) ''dependencies'') = [''A'']"
  "keys_or_empty (property (json (cycle_pkgs ! 1)) ''peerDependencies'') = []"
  "keys_or_empty (property (json (cycle_pkgs ! 1)) ''optionalDependencies'') = []"
  by (simp_all add: cycle_pkgs_def pkgA_def pkgB_def keys_or_empty_def)

lemma cycle_pkgs_resolve:
  "resolveTargetDep (build_pkgsMap cycle_pkgs) (dir (cycle_pkgs ! 0)) True ''B'' = Inr (Some 1)"
  "resolveTargetDep (build_pkgsMap cycle_pkgs) (dir (cycle_pkgs ! 1)) True ''A'' = Inr (Some 0)"
  unfolding cycle_pkgs_def by code_simp+

lemma lookupNested_take:
  "k \<le> length segs \<Longrightarrow>
   lookupNested m (take k segs) t =
     (case find (\<lambda>c. map_of m c \<noteq> None)
             (map (\<lambda>k. posix_join (take k segs @ [''node_modules'', t])) (rev [1..<Suc k])) of
        Some c \<Rightarrow> map_of m c
      | None \<Rightarrow> None)"
proof (induction k)
  case 0
  then show ?case by (simp add: lookupNested_Nil)
next
  case (Suc k)
  then have ne: "take (Suc k) segs \<noteq> []" and bl: "butlast (take (Suc k) segs) = take k segs"
    by (auto simp: butlast_take)
  show ?case
  proof (cases "map_of m (posix_join (take (Suc k) segs @ [''node_modules'', t]))")
    case None
    with Suc ne bl show ?thesis
      by (simp add: lookupNested_step del: take_Suc)
  next
    case (Some r)
    with ne show ?thesis
      by (simp add: lookupNested_step del: take_Suc)
  qed
qed

lemma lookupNested_find:
  "lookupNested m (split_on (CHR ''/'') d) t =
     (case find (\<lambda>c. map_of m c \<noteq> None) (candidate_paths d t) of
        Some c \<Rightarrow> map_of m c
      | None \<Rightarrow> None)"
  using lookupNested_take[of "length (split_on (CHR ''/'') d)" "split_on (CHR ''/'') d" m t]
  by (simp add: candidate_paths_def candidate_def[abs_def])

lemma resolveTargetDep_spec:
  "resolveTargetDep m d required t =
     (case nearest_ancestor_lookup m d t of
        Some r \<Rightarrow> Inr (Some r)
      | None \<Rightarrow>
          if required then Inl (Error (''Could not find required dep '' @ t @ '' of '' @ d))
          else Inr None)"
  by (auto simp: resolveTargetDep_def nearest_ancestor_lookup_def lookupNested_find
      split: option.splits dest: find_Some_iff[THEN iffD1])


lemma split_on_append:
  "split_on c (xs @ c # ys) = split_on c xs @ split_on c ys"
  by (induction xs) (auto simp: hd_append)

lemma split_on_no_sep: "x \<in> set (split_on c s) \<Longrightarrow> c \<notin> set x"
proof (induction s arbitrary: x)
  case Nil
  then show ?case by simp
next
  case (Cons a s)
  show ?case
  proof (cases "a = c")
    case True
    with Cons show ?thesis by auto
  next
    case False
    from Cons.prems False have "x = a # hd (split_on c s) \<or> x \<in> set (tl (split_on c s))"
      by simp
    then show ?thesis
    proof
      assume "x = a # hd (split_on c s)"
      moreover have "c \<notin> set (hd (split_on c s))"
        by (rule Cons.IH) simp
      ultimately show ?thesis using False by simp
    next
      assume "x \<in> set (tl (split_on c s))"
      then have "x \<in> set (split_on c s)" by (rule list.set_sel(2)[rotated]) simp
      then show ?thesis by (rule Cons.IH)
    qed
  qed
qed

lemma split_on_id: "c \<notin> set s \<Longrightarrow> split_on c s = [s]"
  by (induction s) auto

lemma join_split: "join_with [c] (split_on c s) = s"
proof (induction s)
  case Nil
  then show ?case by simp
next
  case (Cons a s)
  obtain x xs where x: "split_on c s = x # xs" by (cases "split_on c s") auto
  with Cons show ?case by (cases xs) auto
qed

lemma join_with_append:
  "xs \<noteq> [] \<Longrightarrow> ys \<noteq> [] \<Longrightarrow> join_with sep (xs @ ys) = join_with sep xs @ sep @ join_with sep ys"
  by (induction sep xs rule: join_with.induct) (auto simp: neq_Nil_conv)

lemma normalizeString_clean:
  "\<forall>s \<in> set segs. s \<noteq> [] \<and> s \<noteq> ''.'' \<and> s \<noteq> ''..'' \<Longrightarrow>
   normalizeString a res segs = rev res @ segs"
  by (induction segs arbitrary: res) simp_all

lemma split_on_hd_sep: "s \<noteq> [] \<Longrightarrow> hd s = c \<Longrightarrow> hd (split_on c s) = []"
  by (cases s) auto

lemma split_on_last_sep: "s \<noteq> [] \<Longrightarrow> last s = c \<Longrightarrow> last (split_on c s) = []"
proof (induction s)
  case Nil
  then show ?case by simp
next
  case (Cons a s)
  show ?case
  proof (cases "s = []")
    case True
    with Cons.prems show ?thesis by simp
  next
    case False
    with Cons have l: "last (split_on c s) = []" by simp
    obtain x xs where x: "split_on c s = x # xs" by (cases "split_on c s") auto
    from False have "xs \<noteq> []"
      using x l by (cases s) (auto split: if_splits)
    with x l show ?thesis by auto
  qed
qed

lemma clean_path_nonempty: "clean_path p \<Longrightarrow> p \<noteq> []"
proof
  assume "clean_path p" and "p = []"
  then have "clean_path []" by simp
  then show False unfolding clean_path_def by simp
qed

lemma posix_normalize_clean:
  assumes "clean_path p"
  shows "posix_normalize p = p"
proof -
  let ?segs = "split_on (CHR ''/'') p"
  from assms have ne: "p \<noteq> []" by (rule clean_path_nonempty)
  from assms have c: "\<forall>s \<in> set ?segs. s \<noteq> [] \<and> s \<noteq> ''.'' \<and> s \<noteq> ''..''"
    by (simp add: clean_path_def)
  then have "hd ?segs \<noteq> []" "last ?segs \<noteq> []" by auto
  with ne have h: "hd p \<noteq> CHR ''/''" and l: "last p \<noteq> CHR ''/''"
    using split_on_hd_sep[of p "CHR ''/''"] split_on_last_sep[of p "CHR ''/''"] by auto
  have "join_with ''/'' (normalizeString True [] ?segs) = p"
    using normalizeString_clean[OF c, of True "[]"] join_split[of "CHR ''/''" p] by simp
  with ne h l show ?thesis by (simp add: posix_normalize_def)
qed

lemma split_on_join:
  "args \<noteq> [] \<Longrightarrow> split_on c (join_with [c] args) = concat (map (split_on c) args)"
proof (induction "[c]" args rule: join_with.induct)
  case 1
  then show ?case by simp
next
  case (2 x)
  then show ?case by simp
next
  case (3 x y ys)
  then show ?case by (simp add: split_on_append)
qed

lemma posix_join_clean:
  assumes "args \<noteq> []" and "\<forall>a \<in> set args. clean_path a"
  shows "posix_join args = join_with ''/'' args"
proof -
  from assms(2) have "filter (\<lambda>a. a \<noteq> []) args = args"
    by (auto simp: filter_id_conv dest: clean_path_nonempty)
  moreover have "clean_path (join_with ''/'' args)"
    using assms by (auto simp: clean_path_def split_on_join)
  ultimately show ?thesis
    using assms(1) by (simp add: posix_join_def posix_normalize_clean)
qed

lemma clean_segment: "clean_path d \<Longrightarrow> s \<in> set (split_on (CHR ''/'') d) \<Longrightarrow> clean_path s"
  using split_on_no_sep[of s "CHR ''/''" d]
  by (auto simp: clean_path_def split_on_id)

lemma clean_node_modules: "clean_path ''node_modules''"
  by (simp add: clean_path_def)

lemma candidate_clean:
  assumes "clean_path d" and "clean_path t"
  shows "candidate d t k = join_with ''/'' (take k (split_on (CHR ''/'') d) @ [''node_modules'', t])"
  unfolding candidate_def
  by (rule posix_join_clean)
    (use assms clean_node_modules in \<open>auto dest: in_set_takeD intro: clean_segment\<close>)


lemma lookupNested_skip:
  assumes "k \<le> n" and "n \<le> length segs"
    and "\<forall>j. k < j \<and> j \<le> n \<longrightarrow> map_of m (posix_join (take j segs @ [''node_modules'', t])) = None"
  shows "lookupNested m (take n segs) t = lookupNested m (take k segs) t"
  using assms
proof (induction n)
  case 0
  then show ?case by simp
next
  case (Suc n)
  show ?case
  proof (cases "k = Suc n")
    case True
    then show ?thesis by simp
  next
    case False
    with Suc.prems have kn: "k \<le> n" and n: "n \<le> length segs" "Suc n \<le> length segs" by auto
    from Suc.prems(3) have none: "map_of m (posix_join (take (Suc n) segs @ [''node_modules'', t])) = None"
      using False Suc.prems(1) by auto
    from n have ne: "take (Suc n) segs \<noteq> []" and bl: "butlast (take (Suc n) segs) = take n segs"
      by (auto simp: butlast_take)
    have "lookupNested m (take (Suc n) segs) t = lookupNested m (take n segs) t"
      using none bl by (simp add: lookupNested_step[OF ne])
    also have "\<dots> = lookupNested m (take k segs) t"
      using Suc.IH[OF kn n(1)] Suc.prems(3) by simp
    finally show ?thesis .
  qed
qed

lemma lookupNested_hit:
  assumes "1 \<le> k" and "k \<le> length segs"
    and "map_of m (posix_join (take k segs @ [''node_modules'', t])) = Some r"
  shows "lookupNested m (take k segs) t = Some r"
proof -
  from assms(1,2) have "take k segs \<noteq> []" by auto
  from lookupNested_step[OF this] assms(3) show ?thesis by simp
qed

lemma lookupNested_nearest:
  assumes "1 \<le> k" and "k \<le> length (split_on (CHR ''/'') d)"
    and "map_of m (candidate d t k) = Some r"
    and "\<forall>j. k < j \<and> j \<le> length (split_on (CHR ''/'') d) \<longrightarrow> map_of m (candidate d t j) = None"
  shows "lookupNested m (split_on (CHR ''/'') d) t = Some r"
proof -
  let ?segs = "split_on (CHR ''/'') d"
  have "lookupNested m (take (length ?segs) ?segs) t = lookupNested m (take k ?segs) t"
    using assms(2,4) by (intro lookupNested_skip) (auto simp: candidate_def)
  also have "\<dots> = Some r"
    using assms(1,2,3) by (intro lookupNested_hit) (auto simp: candidate_def)
  finally show ?thesis by simp
qed

lemma lookupNested_miss:
  assumes "\<forall>j. 1 \<le> j \<and> j \<le> length (split_on (CHR ''/'') d) \<longrightarrow> map_of m (candidate d t j) = None"
  shows "lookupNested m (split_on (CHR ''/'') d) t = None"
proof -
  let ?segs = "split_on (CHR ''/'') d"
  have "lookupNested m (take (length ?segs) ?segs) t = lookupNested m (take 0 ?segs) t"
    using assms by (intro lookupNested_skip) (auto simp: candidate_def)
  then show ?thesis by (simp add: lookupNested_Nil)
qed

lemma findDeps_by_spec:
  "findDeps pkgs m deps dep targetDeps required =
     (case map_throwing (resolve_by_spec m (dir (pkgs ! dep)) required) (keys_or_empty targetDeps) of
        Inl e \<Rightarrow> Inl e
      | Inr found \<Rightarrow> flattenEach pkgs m deps (filter_found found))"
proof -
  have "resolveTargetDep m (dir (pkgs ! dep)) required = resolve_by_spec m (dir (pkgs ! dep)) required"
    by (rule ext) (simp add: resolveTargetDep_spec resolve_by_spec_def)
  then show ?thesis by (simp add: findDeps.simps[of pkgs m deps dep])
qed

lemma shadow_pkgsMap:
  "build_pkgsMap shadow_pkgs = [(''A'', 0), (''A/node_modules/X'', 1), (''B'', 2), (''X'', 3)]"
  unfolding shadow_pkgs_def by code_simp

lemma shadow_candidates:
  "split_on (CHR ''/'') ''A'' = [''A'']"
  "split_on (CHR ''/'') ''B'' = [''B'']"
  "candidate ''A'' ''X'' 1 = ''A/node_modules/X''"
  "candidate ''B'' ''X'' 1 = ''B/node_modules/X''"
  by code_simp+

lemma shadow_pkgs_flatten_all:
  "flatten_all shadow_pkgs [[], [], [], []] = Inr [[0, 1], [1], [2, 3], [3]]"
  unfolding shadow_pkgs_def by code_simp

lemma shadow_clean: "clean_path ''A''" "clean_path ''X''"
  by (simp_all add: clean_path_def)

lemma resolveTargetDep_missing:
  "missing m d t \<Longrightarrow> resolveTargetDep m d True t = Inl (missing_dep_error t d)"
  "missing m d t \<Longrightarrow> resolveTargetDep m d False t = Inr None"
  by (simp_all add: missing_def resolveTargetDep_def missing_dep_error_def)

lemma resolveTargetDep_Inl:
  "resolveTargetDep m d required t = Inl e \<Longrightarrow> required \<and> missing m d t \<and> e = missing_dep_error t d"
  by (auto simp: missing_def resolveTargetDep_def missing_dep_error_def split: option.splits if_splits)

lemma map_throwing_Inl:
  "map_throwing f xs = Inl e \<Longrightarrow> \<exists>x \<in> set xs. f x = Inl e"
  by (induction xs) (auto split: sum.splits)

lemma map_throwing_fails:
  "x \<in> set xs \<Longrightarrow> f x = Inl e \<Longrightarrow> \<exists>e'. map_throwing f xs = Inl e'"
  by (induction xs) (auto split: sum.splits)

lemma map_throwing_first_error:
  "\<forall>k \<in> set ks. \<exists>y. f k = Inr y \<Longrightarrow> f x = Inl e \<Longrightarrow> map_throwing f (ks @ x # ks') = Inl e"
  by (induction ks) (auto split: sum.splits)

lemma map_throwing_total:
  "\<forall>x \<in> set xs. \<exists>y. f x = Inr y \<Longrightarrow> map_throwing f xs = Inr (map (\<lambda>x. projr (f x)) xs)"
  by (induction xs) (auto split: sum.splits)

lemma flattenDependencies_InlE:
  assumes "flattenDependencies pkgs m deps dep = Inl e"
  obtains
    (deps) "dep \<notin> set deps"
      "findDeps pkgs m (deps @ [dep]) dep (property (json (pkgs ! dep)) ''dependencies'') True = Inl e"
  | (peer) d1 where "dep \<notin> set deps"
      "findDeps pkgs m (deps @ [dep]) dep (property (json (pkgs ! dep)) ''dependencies'') True = Inr d1"
      "findDeps pkgs m d1 dep (property (json (pkgs ! dep)) ''peerDependencies'') True = Inl e"
  | (opt) d1 d2 where "dep \<notin> set deps"
      "findDeps pkgs m (deps @ [dep]) dep (property (json (pkgs ! dep)) ''dependencies'') True = Inr d1"
      "findDeps pkgs m d1 dep (property (json (pkgs ! dep)) ''peerDependencies'') True = Inr d2"
      "findDeps pkgs m d2 dep (property (json (pkgs ! dep)) ''optionalDependencies'') False = Inl e"
  using assms
  by (auto simp: flattenDependencies.simps[of pkgs m deps dep] split: sum.splits if_splits)

lemma findDeps_InlE:
  assumes "findDeps pkgs m deps dep targetDeps required = Inl e"
  obtains
    (lookup) "map_throwing (resolveTargetDep m (dir (pkgs ! dep)) required) (keys_or_empty targetDeps) = Inl e"
  | (rec) found where
      "map_throwing (resolveTargetDep m (dir (pkgs ! dep)) required) (keys_or_empty targetDeps) = Inr found"
      "flattenEach pkgs m deps (filter_found found) = Inl e"
  using assms
  by (auto simp: findDeps.simps[of pkgs m deps dep] split: sum.splits)

lemma flatten_error:
  shows "flattenDependencies pkgs m deps dep = Inl e \<Longrightarrow> names_missing_dep pkgs m e"
    and "findDeps pkgs m deps dep targetDeps required = Inl e \<Longrightarrow>
         (required \<longrightarrow> set (keys_or_empty targetDeps) \<subseteq> set (required_names (pkgs ! dep))) \<Longrightarrow>
         names_missing_dep pkgs m e"
    and "flattenEach pkgs m deps ds = Inl e \<Longrightarrow> names_missing_dep pkgs m e"
proof (induction pkgs m deps dep and pkgs m deps dep targetDeps required and pkgs m deps ds
    arbitrary: e and e and e
    rule: flattenDependencies_findDeps_flattenEach.induct)
  case (1 pkgs pkgsMap deps dep)
  from "1.prems" show ?case
  proof (cases rule: flattenDependencies_InlE)
    case deps
    from "1.IH"(1)[OF deps(1,2)] show ?thesis by (simp add: required_names_def)
  next
    case (peer d1)
    from "1.IH"(2)[OF peer(1,2,3)] show ?thesis by (simp add: required_names_def)
  next
    case (opt d1 d2)
    from "1.IH"(3)[OF opt(1,2,3,4)] show ?thesis by simp
  qed
next
  case (2 pkgs pkgsMap deps dep targetDeps required)
  from "2.prems"(1) show ?case
  proof (cases rule: findDeps_InlE)
    case lookup
    from map_throwing_Inl[OF lookup] obtain Y where
      Y: "Y \<in> set (keys_or_empty targetDeps)"
        "resolveTargetDep pkgsMap (dir (pkgs ! dep)) required Y = Inl e"
      by blast
    from resolveTargetDep_Inl[OF Y(2)] Y(1) "2.prems"(2)
    show ?thesis unfolding names_missing_dep_def by blast
  next
    case (rec found)
    from "2.IH"[OF rec] show ?thesis .
  qed
next
  case (3 pkgs pkgsMap deps)
  then show ?case by simp
next
  case (4 pkgs pkgsMap deps d ds)
  show ?case
  proof (cases "flattenDependencies pkgs pkgsMap deps d")
    case (Inl e')
    with "4.prems" have "e' = e" by simp
    with Inl "4.IH"(1) show ?thesis by simp
  next
    case (Inr deps')
    with "4.prems" have "flattenEach pkgs pkgsMap deps' ds = Inl e" by simp
    from "4.IH"(2)[OF Inr this] show ?thesis .
  qed
qed

lemma findDeps_fails:
  assumes "X \<in> set (keys_or_empty targetDeps)" and "missing m (dir (pkgs ! dep)) X"
  shows "\<exists>e. findDeps pkgs m deps dep targetDeps True = Inl e"
proof -
  from map_throwing_fails[of X "keys_or_empty targetDeps"
      "resolveTargetDep m (dir (pkgs ! dep)) True", OF assms(1) resolveTargetDep_missing(1)[OF assms(2)]]
  obtain e where "map_throwing (resolveTargetDep m (dir (pkgs ! dep)) True) (keys_or_empty targetDeps) = Inl e"
    by blast
  then show ?thesis by (simp add: findDeps.simps[of pkgs m deps dep])
qed

lemma flattenDependencies_fails:
  assumes "dep \<notin> set deps" and "X \<in> set (required_names (pkgs ! dep))"
    and "missing m (dir (pkgs ! dep)) X"
  shows "\<exists>e. flattenDependencies pkgs m deps dep = Inl e"
proof (cases "X \<in> set (keys_or_empty (property (json (pkgs ! dep)) ''dependencies''))")
  case True
  from findDeps_fails[OF True assms(3), where deps = "deps @ [dep]"] assms(1)
  show ?thesis by (auto simp: flattenDependencies.simps[of pkgs m deps dep])
next
  case False
  with assms(2) have p: "X \<in> set (keys_or_empty (property (json (pkgs ! dep)) ''peerDependencies''))"
    by (simp add: required_names_def)
  show ?thesis
  proof (cases "findDeps pkgs m (deps @ [dep]) dep (property (json (pkgs ! dep)) ''dependencies'') True")
    case (Inl e)
    with assms(1) show ?thesis by (simp add: flattenDependencies.simps[of pkgs m deps dep])
  next
    case (Inr d1)
    from findDeps_fails[OF p assms(3), where deps = d1] Inr assms(1)
    show ?thesis by (auto simp: flattenDependencies.simps[of pkgs m deps dep])
  qed
qed

lemma flattenDependencies_first_missing:
  assumes "dep \<notin> set deps"
    and "keys_or_empty (property (json (pkgs ! dep)) ''dependencies'') = ks @ X # ks'"
    and "\<forall>k \<in> set ks. \<not> missing m (dir (pkgs ! dep)) k"
    and "missing m (dir (pkgs ! dep)) X"
  shows "flattenDependencies pkgs m deps dep = Inl (missing_dep_error X (dir (pkgs ! dep)))"
proof -
  have "\<forall>k \<in> set ks. \<exists>y. resolveTargetDep m (dir (pkgs ! dep)) True k = Inr y"
  proof
    fix k assume "k \<in> set ks"
    with assms(3) have "\<not> missing m (dir (pkgs ! dep)) k" by simp
    then show "\<exists>y. resolveTargetDep m (dir (pkgs ! dep)) True k = Inr y"
      by (cases "resolveTargetDep m (dir (pkgs ! dep)) True k") (auto dest: resolveTargetDep_Inl)
  qed
  from map_throwing_first_error[of ks "resolveTargetDep m (dir (pkgs ! dep)) True" X _ ks',
      OF this resolveTargetDep_missing(1)[OF assms(4)]] assms(2)
  have "findDeps pkgs m (deps @ [dep]) dep (property (json (pkgs ! dep)) ''dependencies'') True
        = Inl (missing_dep_error X (dir (pkgs ! dep)))"
    by (simp add: findDeps.simps[of pkgs m "deps @ [dep]" dep])
  with assms(1) show ?thesis by (simp add: flattenDependencies.simps[of pkgs m deps dep])
qed

lemma findDeps_optional:
  "findDeps pkgs m deps dep targetDeps False =
     flattenEach pkgs m deps
       (List.map_filter (nearest_ancestor_lookup m (dir (pkgs ! dep))) (keys_or_empty targetDeps))"
proof -
  let ?f = "resolveTargetDep m (dir (pkgs ! dep)) False"
  have ok: "?f x = Inr (nearest_ancestor_lookup m (dir (pkgs ! dep)) x)" for x
    by (simp add: resolveTargetDep_spec split: option.splits)
  then have "map_throwing ?f (keys_or_empty targetDeps)
      = Inr (map (\<lambda>x. projr (?f x)) (keys_or_empty targetDeps))"
    by (intro map_throwing_total) simp
  with ok show ?thesis
    by (simp add: findDeps.simps[of pkgs m deps dep] filter_found_def List.map_filter_def
        filter_map comp_def)
qed

lemma missing_lookup: "missing m d t \<longleftrightarrow> nearest_ancestor_lookup m d t = None"
  by (auto simp: missing_def nearest_ancestor_lookup_def lookupNested_find split: option.splits
      dest: find_Some_iff[THEN iffD1])

lemma forEach_flatten_pkg_Inl:
  "forEach_throwing (flatten_pkg pkgs m) st xs = Inl e \<Longrightarrow>
   \<exists>deps dep. flattenDependencies pkgs m deps dep = Inl e"
proof (induction xs arbitrary: st)
  case Nil
  then show ?case by simp
next
  case (Cons x xs)
  show ?case
  proof (cases "flatten_pkg pkgs m st x")
    case (Inl e')
    with Cons.prems have "e' = e" by simp
    with Inl show ?thesis by (auto simp: flatten_pkg_def split: sum.splits)
  next
    case (Inr st')
    with Cons.prems have "forEach_throwing (flatten_pkg pkgs m) st' xs = Inl e" by simp
    then show ?thesis by (rule Cons.IH)
  qed
qed

lemma forEach_flatten_pkg_fails:
  assumes "i \<in> set xs" and "st ! i = deps" and "\<forall>x \<in> set xs. x < length st"
    and "flattenDependencies pkgs m deps i = Inl e"
  shows "\<exists>e'. forEach_throwing (flatten_pkg pkgs m) st xs = Inl e'"
  using assms(1,2,3)
proof (induction xs arbitrary: st)
  case Nil
  then show ?case by simp
next
  case (Cons x xs)
  show ?case
  proof (cases "flatten_pkg pkgs m st x")
    case (Inl e')
    then show ?thesis by simp
  next
    case (Inr st')
    then obtain r where st': "st' = st[x := r]"
      by (auto simp: flatten_pkg_def split: sum.splits)
    have "x \<noteq> i"
    proof
      assume "x = i"
      with Cons.prems(2) assms(4) have "flatten_pkg pkgs m st x = Inl e"
        by (simp add: flatten_pkg_def)
      with Inr show False by simp
    qed
    with Cons.prems st' have "i \<in> set xs" "st' ! i = deps" "\<forall>x \<in> set xs. x < length st'"
      by auto
    from Cons.IH[OF this] Inr show ?thesis by simp
  qed
qed

lemma flatten_all_fails:
  assumes "i < length pkgs" and "X \<in> set (required_names (pkgs ! i))"
    and "missing (build_pkgsMap pkgs) (dir (pkgs ! i)) X"
  shows "\<exists>e. flatten_all pkgs (replicate (length pkgs) []) = Inl e
            \<and> names_missing_dep pkgs (build_pkgsMap pkgs) e"
proof -
  from flattenDependencies_fails[of i "[]", OF _ assms(2,3)]
  obtain e where "flattenDependencies pkgs (build_pkgsMap pkgs) [] i = Inl e" by auto
  from forEach_flatten_pkg_fails[of i "[0..<length pkgs]" "replicate (length pkgs) []" "[]", OF _ _ _ this]
    assms(1)
  obtain e' where e': "flatten_all pkgs (replicate (length pkgs) []) = Inl e'"
    by (auto simp: flatten_all_def)
  then obtain deps dep where "flattenDependencies pkgs (build_pkgsMap pkgs) deps dep = Inl e'"
    unfolding flatten_all_def by (blast dest: forEach_flatten_pkg_Inl)
  from flatten_error(1)[OF this] e' show ?thesis by simp
qed

lemma findDeps_optional_found:
  "findDeps pkgs m deps dep targetDeps False =
     flattenEach pkgs m deps
       (map (\<lambda>X. the (nearest_ancestor_lookup m (dir (pkgs ! dep)) X))
          (filter (\<lambda>X. \<not> missing m (dir (pkgs ! dep)) X) (keys_or_empty targetDeps)))"
  by (simp add: findDeps_optional List.map_filter_def missing_lookup comp_def)

lemma missing_pkgs_facts:
  "length missing_pkgs = 1"
  "dir (missing_pkgs ! 0) = ''P''"
  "keys_or_empty (property (json (missing_pkgs ! 0)) ''dependencies'') = [''x'', ''y'']"
  "required_names (missing_pkgs ! 0) = [''x'', ''y'']"
  by (simp_all add: missing_pkgs_def required_names_def keys_or_empty_def)

lemma missing_pkgs_missing:
  "missing (build_pkgsMap missing_pkgs) ''P'' ''x''"
  "missing (build_pkgsMap missing_pkgs) ''P'' ''y''"
  unfolding missing_pkgs_def by code_simp+

lemma missing_pkgs_flatten:
  "flattenDependencies missing_pkgs (build_pkgsMap missing_pkgs) [] 0
     = Inl (Error ''Could not find required dep x of P'')"
  "flatten_all missing_pkgs [[]] = Inl (Error ''Could not find required dep x of P'')"
  unfolding missing_pkgs_def by code_simp+

lemma optional_pkgs_facts:
  "keys_or_empty (property (json (optional_pkgs ! 0)) ''optionalDependencies'') = [''fsevents'']"
  "dir (optional_pkgs ! 0) = ''chokidar''"
  by (simp_all add: optional_pkgs_def keys_or_empty_def)

lemma optional_pkgs_missing:
  "missing (build_pkgsMap optional_pkgs) ''chokidar'' ''fsevents''"
  unfolding optional_pkgs_def by code_simp

lemma optional_pkgs_flatten:
  "flatten_all optional_pkgs [[]] = Inr [[0]]"
  unfolding optional_pkgs_def by code_simp

lemma missing_pkgs_y:
  "''y'' \<in> set (keys_or_empty (property (json (missing_pkgs ! 0)) ''dependencies''))"
  "lookupNested (build_pkgsMap missing_pkgs) (split_on (CHR ''/'') (dir (missing_pkgs ! 0))) ''y'' = None"
  "map_of (build_pkgsMap missing_pkgs) ''y'' = None"
  "flattenDependencies missing_pkgs (build_pkgsMap missing_pkgs) [] 0
       \<noteq> Inl (Error (''Could not find required dep '' @ ''y'' @ '' of '' @ dir (missing_pkgs ! 0)))"
  unfolding missing_pkgs_def by code_simp+

lemma cleanupBinPath_normalized: "cleanupBinPath s = normalized_path s"
proof -
  have "(if startsWith t ''./'' then drop 2 t else t) = strip_dot_slash t" for t
    by (cases t rule: strip_dot_slash.cases) (auto simp: startsWith_def)
  then show ?thesis by (simp add: cleanupBinPath_def normalized_path_def Let_def)
qed

lemma update_fresh: "k \<notin> fst ` set al \<Longrightarrow> AList.update k v al = al @ [(k, v)]"
  by (induction al) auto

lemma bin_entries_strings:
  assumes "distinct (map fst paths)" and "fst ` set paths \<inter> fst ` set acc = {}"
  shows "bin_entries (map (\<lambda>(k, path). (k, JString path)) paths) acc
       = Inr (acc @ map (\<lambda>(k, path). (k, cleanupBinPath path)) paths)"
  using assms
proof (induction paths arbitrary: acc)
  case Nil
  then show ?case by simp
next
  case (Cons kp paths)
  obtain k path where kp: "kp = (k, path)" by (cases kp)
  from Cons.prems kp have fresh: "k \<notin> fst ` set acc" by auto
  from Cons.prems kp have "distinct (map fst paths)"
    and "fst ` set paths \<inter> fst ` set (acc @ [(k, cleanupBinPath path)]) = {}"
    by auto
  from Cons.IH[OF this] kp fresh show ?case
    by (simp add: update_fresh)
qed

lemma foo_dir_facts:
  \<open>readFileSync (child foo_dir ''package.json'') = Inr ''{"name":"bar","bin":"./cli.js"}''\<close>
  \<open>example_parse ''{"name":"bar","bin":"./cli.js"}''
     = Some (JObject [(''name'', JString ''bar''), (''bin'', JString ''./cli.js'')])\<close>
  "\<not> occurs_in ''/node_modules/'' ''node_modules/foo''"
  "occurs_in ''/node_modules/'' ''node_modules/a/node_modules/foo''"
  "strip_node_modules ''node_modules/foo'' = ''foo''"
  "strip_node_modules ''node_modules/a/node_modules/foo'' = ''a/node_modules/foo''"
  "normalized_path ''./cli.js'' = ''cli.js''"
  unfolding foo_dir_def by code_simp+

lemma tool_dir_facts:
  \<open>readFileSync (child tool_dir ''package.json'')
     = Inr ''{"name":"tool","bin":{"t1":"./bin/t1","t2":"lib/t2.js"}}''\<close>
  \<open>example_parse ''{"name":"tool","bin":{"t1":"./bin/t1","t2":"lib/t2.js"}}''
     = Some (JObject [(''name'', JString ''tool''),
          (''bin'', JObject [(''t1'', JString ''./bin/t1''), (''t2'', JString ''lib/t2.js'')])])\<close>
  "\<not> occurs_in ''/node_modules/'' ''node_modules/tool''"
  "strip_node_modules ''node_modules/tool'' = ''tool''"
  "map (\<lambda>(k, path). (k, normalized_path path)) [(''t1'', ''./bin/t1''), (''t2'', ''lib/t2.js'')]
     = [(''t1'', ''bin/t1''), (''t2'', ''lib/t2.js'')]"
  unfolding tool_dir_def by code_simp+

lemma foo_dir_parsed:
  "parsePackage example_parse ''node_modules/foo'' foo_dir
     = Inr \<lparr> json = JObject [(''name'', JString ''bar''), (''bin'', JString ''./cli.js'')],
             dir = ''foo'', isNested = False, executables = [(''foo'', ''cli.js'')] \<rparr>"
  unfolding foo_dir_def by code_simp

lemma dir_inj:
  assumes "distinct (map dir pkgs)" and "a < length pkgs" and "b < length pkgs"
  shows "dir (pkgs ! a) = dir (pkgs ! b) \<longleftrightarrow> a = b"
  using assms by (auto simp: distinct_conv_nth)

lemma printPackage_deps_filter:
  "printPackage_deps pkgs deps i =
     map (\<lambda>d. files_label (dir (pkgs ! d))) (filter (\<lambda>d. d \<noteq> i \<and> \<not> isNested (pkgs ! d)) deps)"
  by (simp add: printPackage_deps_def conj_commute)

lemma shadow_pkgs_facts:
  "length shadow_pkgs = 4"
  "distinct (map dir shadow_pkgs)"
  unfolding shadow_pkgs_def by code_simp+

lemma findPackages_packages_fails:
  assumes "(f, n) \<in> set es" and "parsePackage JSON_parse (posix_join [p, f]) n = Inl e"
  shows "\<exists>e'. findPackages_packages JSON_parse p es = Inl e'"
  using assms(1)
proof (induction es)
  case Nil
  then show ?case by simp
next
  case (Cons x es)
  obtain g m where x: "x = (g, m)" by (cases x)
  show ?case
  proof (cases "parsePackage JSON_parse (posix_join [p, g]) m")
    case (Inl e0)
    with x show ?thesis by simp
  next
    case pkg: (Inr pkg)
    show ?thesis
    proof (cases "findPackages JSON_parse (posix_join [posix_join [p, g], ''node_modules''])
                    (child m ''node_modules'')")
      case (Inl e0)
      with x pkg show ?thesis by simp
    next
      case (Inr nested)
      from pkg assms(2) have "x \<noteq> (f, n)" using x by auto
      with Cons.prems have "(f, n) \<in> set es" by simp
      from Cons.IH[OF this] obtain e' where "findPackages_packages JSON_parse p es = Inl e'" ..
      with x pkg Inr show ?thesis by simp
    qed
  qed
qed

lemma findPackages_malformed:
  assumes "(f, n) \<in> set listing" and "\<not> startsWith f ''@''" and "isPackage n"
    and "parsePackage JSON_parse (posix_join [p, f]) n = Inl e"
  shows "\<exists>e'. findPackages JSON_parse p (Some (Directory listing)) = Inl e'"
proof -
  from assms(1,2,3)
  have "(f, n) \<in> set (filter (\<lambda>(f, n). \<not> startsWith f ''@'' \<and> isPackage n) listing)"
    by simp
  from findPackages_packages_fails[OF this assms(4)] show ?thesis by auto
qed

lemma parsePackage_malformed:
  "readFileSync (child n ''package.json'') = Inr text \<Longrightarrow> JSON_parse text = None \<Longrightarrow>
   parsePackage JSON_parse p n = Inl SyntaxError"
  by (simp add: parsePackage_def)

lemma main_scan_error:
  "findPackages JSON_parse ''node_modules'' (child cwd ''node_modules'') = Inl e \<Longrightarrow>
   main JSON_parse JSON_stringify cwd = (Inl e, cwd)"
  by (simp add: main_def)

lemma main_resolution_error:
  "findPackages JSON_parse ''node_modules'' (child cwd ''node_modules'') = Inr pkgs \<Longrightarrow>
   flatten_all pkgs (replicate (length pkgs) []) = Inl e \<Longrightarrow>
   main JSON_parse JSON_stringify cwd = (Inl e, cwd)"
  by (simp add: main_def)

lemma main_written:
  "findPackages JSON_parse ''node_modules'' (child cwd ''node_modules'') = Inr pkgs \<Longrightarrow>
   flatten_all pkgs (replicate (length pkgs) []) = Inr deps \<Longrightarrow>
   main JSON_parse JSON_stringify cwd =
     writeFileSync cwd ''BUILD.bazel''
       (case readFileSync (child cwd ''manual_build_file_contents'') of
          Inr manualContents \<Rightarrow>
            generated_targets JSON_stringify pkgs deps (findScopes (child cwd ''node_modules''))
            @ nl @ nl @ manualContents
        | Inl e \<Rightarrow>
            generated_targets JSON_stringify pkgs deps (findScopes (child cwd ''node_modules'')))"
  by (simp add: main_def Let_def)

lemma writeFileSync_cases:
  "snd (writeFileSync cwd name text) = cwd
   \<or> (\<exists>entries. cwd = Directory entries
         \<and> writeFileSync cwd name text = (Inr (), Directory (AList.update name (File text) entries)))"
  by (cases cwd) (auto split: option.splits fsnode.splits)

lemma main_document:
  assumes "findPackages JSON_parse ''node_modules'' (child (Directory entries) ''node_modules'') = Inr pkgs"
    and "flatten_all pkgs (replicate (length pkgs) []) = Inr deps"
    and "\<forall>sub. map_of entries ''BUILD.bazel'' \<noteq> Some (Directory sub)"
  shows "main JSON_parse JSON_stringify (Directory entries) =
     (Inr (),
      Directory (AList.update ''BUILD.bazel''
        (File
          (BUILD_FILE_HEADER
           @ concat (map (\<lambda>pkg. printPackage JSON_stringify pkgs (deps ! pkg) pkg)
                       (filter (\<lambda>pkg. \<not> isNested (pkgs ! pkg)) [0..<length pkgs]))
           @ concat (map (\<lambda>scope. printScope scope pkgs)
                       (findScopes (child (Directory entries) ''node_modules'')))
           @ (case readFileSync (child (Directory entries) ''manual_build_file_contents'') of
                Inr manualContents \<Rightarrow> nl @ nl @ manualContents
              | Inl e \<Rightarrow> [])))
        entries))"
proof -
  have w: "writeFileSync (Directory entries) ''BUILD.bazel'' t
      = (Inr (), Directory (AList.update ''BUILD.bazel'' (File t) entries))" for t
    using assms(3) by (cases "map_of entries ''BUILD.bazel''") (auto split: fsnode.splits)
  show ?thesis
    unfolding main_written[OF assms(1,2)] w generated_targets_def
    by (cases "readFileSync (child (Directory entries) ''manual_build_file_contents'')") simp_all
qed

lemma broken_cwd_facts:
  \<open>child broken_cwd ''node_modules''
     = Some (Directory [(''@s'', Directory [(''foo'', Directory [(''package.json'', File ''{"name":'')])])])\<close>
  \<open>startsWith ''@s'' ''@''\<close>
  \<open>\<not> startsWith ''foo'' ''@''\<close>
  \<open>isDirectory (Directory [(''foo'', Directory [(''package.json'', File ''{"name":'')])])\<close>
  \<open>isPackage (Directory [(''package.json'', File ''{"name":'')])\<close>
  \<open>readFileSync (child (Directory [(''package.json'', File ''{"name":'')]) ''package.json'') = Inr ''{"name":''\<close>
  \<open>example_parse ''{"name":'' = None\<close>
  \<open>findPackages example_parse ''node_modules'' (child broken_cwd ''node_modules'') = Inl SyntaxError\<close>
  unfolding broken_cwd_def by code_simp+

lemma broken_cwd_parsed_at:
  \<open>parsed_at ''node_modules''
     (Directory [(''@s'', Directory [(''foo'', Directory [(''package.json'', File ''{"name":'')])])])
     (posix_join [posix_join [''node_modules'', ''@s''], ''foo''])
     (Directory [(''package.json'', File ''{"name":'')])\<close>
  by (rule parsed_at.scoped[OF _ broken_cwd_facts(2,4) parsed_at.entry[OF _ broken_cwd_facts(3,5)]])
    simp_all

lemma unresolved_cwd_facts:
  "findPackages example_parse ''node_modules'' (child unresolved_cwd ''node_modules'')
     = Inr [\<lparr> json = JObject [(''name'', JString ''P''), (''dependencies'', JObject [(''x'', JString ''1'')])],
               dir = ''P'', isNested = False, executables = [] \<rparr>]"
  "flatten_all [\<lparr> json = JObject [(''name'', JString ''P''), (''dependencies'', JObject [(''x'', JString ''1'')])],
               dir = ''P'', isNested = False, executables = [] \<rparr>] (replicate (length [0::nat]) [])
     = Inl (Error ''Could not find required dep x of P'')"
  unfolding unresolved_cwd_def by code_simp+

lemma installed_cwd_facts:
  "findPackages example_parse ''node_modules'' (child (installed_cwd others) ''node_modules'') = Inr foo_pkgs"
  "flatten_all foo_pkgs (replicate (length foo_pkgs) []) = Inr [[0]]"
  "findScopes (child (installed_cwd others) ''node_modules'') = []"
  "readFileSync (child (installed_cwd []) ''manual_build_file_contents'') = Inl (SystemError ''ENOENT'')"
  "readFileSync (child (installed_cwd [(''manual_build_file_contents'', Directory [])]) ''manual_build_file_contents'')
     = Inl (SystemError ''EISDIR'')"
  "readFileSync (child (installed_cwd [(''manual_build_file_contents'', Unreadable)]) ''manual_build_file_contents'')
     = Inl (SystemError ''EACCES'')"
  "readFileSync (child (installed_cwd [(''manual_build_file_contents'', File ''# manual'')]) ''manual_build_file_contents'')
     = Inr ''# manual''"
  unfolding installed_cwd_def foo_dir_def foo_pkgs_def by code_simp+

lemma clean_name_path: "clean_name f \<Longrightarrow> clean_path f"
  by (simp add: clean_name_def clean_path_def split_on_id)

lemma clean_path_append:
  "clean_path p \<Longrightarrow> clean_path q \<Longrightarrow> clean_path (p @ CHR ''/'' # q)"
  by (auto simp: clean_path_def split_on_append)

lemma posix_join_two:
  "clean_path p \<Longrightarrow> clean_path q \<Longrightarrow> posix_join [p, q] = p @ ''/'' @ q"
  using posix_join_clean[of "[p, q]"] by simp

lemma head_segment: "hd (split_on c (q @ c # r)) = hd (split_on c q)"
  by (simp add: split_on_append)

lemma head_of_name: "CHR ''/'' \<notin> set f \<Longrightarrow> hd (split_on (CHR ''/'') f) = f"
  by (simp add: split_on_id)

lemma parsePackage_dir:
  "parsePackage JSON_parse q n = Inr pkg \<Longrightarrow> dir pkg = strip_node_modules q"
  by (auto simp: parsePackage_def split: sum.splits option.splits if_splits)

lemma wf_entries_member: "wf_entries es \<Longrightarrow> (f, n) \<in> set es \<Longrightarrow> clean_name f \<and> wf_fs n"
  by (induction es) auto

lemma wf_entries_filter: "wf_entries es \<Longrightarrow> wf_entries (filter P es)"
  by (induction es) auto

lemma wf_child: "wf_fs n \<Longrightarrow> child n k = Some c \<Longrightarrow> wf_fs c"
  by (cases n) (auto dest!: map_of_SomeD dest: wf_entries_member)

lemma scanned_dirs_Nil: "scanned_dirs p heads []"
  unfolding scanned_dirs_def by (rule exI[of _ "[]"]) simp

lemma scanned_dirs_mono: "scanned_dirs p H pkgs \<Longrightarrow> H \<subseteq> H' \<Longrightarrow> scanned_dirs p H' pkgs"
  unfolding scanned_dirs_def by blast

lemma scanned_dirs_append:
  assumes "scanned_dirs p H1 xs" and "scanned_dirs p H2 ys" and "H1 \<inter> H2 = {}"
  shows "scanned_dirs p (H1 \<union> H2) (xs @ ys)"
proof -
  from assms(1) obtain rs1 where
    1: "map dir xs = map (\<lambda>r. strip_node_modules (p @ ''/'' @ r)) rs1" "distinct rs1"
       "\<forall>r \<in> set rs1. clean_path r \<and> hd (split_on (CHR ''/'') r) \<in> H1"
    unfolding scanned_dirs_def by blast
  from assms(2) obtain rs2 where
    2: "map dir ys = map (\<lambda>r. strip_node_modules (p @ ''/'' @ r)) rs2" "distinct rs2"
       "\<forall>r \<in> set rs2. clean_path r \<and> hd (split_on (CHR ''/'') r) \<in> H2"
    unfolding scanned_dirs_def by blast
  from 1(3) 2(3) assms(3) have "set rs1 \<inter> set rs2 = {}" by blast
  with 1 2 show ?thesis
    unfolding scanned_dirs_def by (intro exI[of _ "rs1 @ rs2"]) auto
qed

lemma scanned_dirs_nest:
  assumes "scanned_dirs (p @ ''/'' @ q) H xs" and "clean_path q"
  shows "scanned_dirs p {hd (split_on (CHR ''/'') q)} xs"
proof -
  from assms(1) obtain rs where
    rs: "map dir xs = map (\<lambda>r. strip_node_modules ((p @ ''/'' @ q) @ ''/'' @ r)) rs" "distinct rs"
        "\<forall>r \<in> set rs. clean_path r"
    unfolding scanned_dirs_def by blast
  let ?rs = "map (\<lambda>r. q @ ''/'' @ r) rs"
  have "map dir xs = map (\<lambda>r. strip_node_modules (p @ ''/'' @ r)) ?rs"
    using rs(1) by (simp add: comp_def)
  moreover have "distinct ?rs"
    using rs(2) by (simp add: distinct_map inj_on_def)
  moreover have "\<forall>r \<in> set ?rs. clean_path r \<and> hd (split_on (CHR ''/'') r) \<in> {hd (split_on (CHR ''/'') q)}"
    using rs(3) assms(2) by (auto simp: clean_path_append head_segment)
  ultimately show ?thesis
    unfolding scanned_dirs_def by blast
qed

lemma scanned_dirs_package:
  assumes "dir pkg = strip_node_modules (p @ ''/'' @ f)" and "clean_name f"
    and "scanned_dirs (p @ ''/'' @ f @ ''/node_modules'') H nested"
  shows "scanned_dirs p {f} (pkg # nested)"
proof -
  from assms(2) have f: "CHR ''/'' \<notin> set f" "clean_path f"
    by (simp_all add: clean_name_def clean_name_path)
  from assms(3) obtain rs where
    rs: "map dir nested = map (\<lambda>r. strip_node_modules ((p @ ''/'' @ f @ ''/node_modules'') @ ''/'' @ r)) rs"
        "distinct rs" "\<forall>r \<in> set rs. clean_path r"
    unfolding scanned_dirs_def by blast
  let ?rs = "f # map (\<lambda>r. f @ ''/node_modules/'' @ r) rs"
  have "map dir (pkg # nested) = map (\<lambda>r. strip_node_modules (p @ ''/'' @ r)) ?rs"
    using rs(1) assms(1) by (simp add: comp_def)
  moreover have "distinct ?rs"
    using rs(2) by (auto simp: distinct_map inj_on_def)
  moreover have "clean_path (f @ ''/node_modules/'' @ r)" if "clean_path r" for r
    using clean_path_append[OF f(2) clean_path_append[OF clean_node_modules that]] by simp
  moreover have "hd (split_on (CHR ''/'') (f @ ''/node_modules/'' @ r)) = f" for r
    using head_segment[of "CHR ''/''" f "''node_modules/'' @ r"] f(1) by (simp add: split_on_id)
  ultimately show ?thesis
    unfolding scanned_dirs_def using rs(3) f
    by (intro exI[of _ ?rs]) (auto simp: split_on_id)
qed

lemma findPackages_scanned_dirs:
  shows "findPackages JSON_parse p node = Inr pkgs \<Longrightarrow> clean_path p \<Longrightarrow>
         (\<forall>n. node = Some n \<longrightarrow> wf_fs n) \<Longrightarrow> scanned_dirs p UNIV pkgs"
    and "findPackages_packages JSON_parse p es = Inr pkgs \<Longrightarrow> clean_path p \<Longrightarrow>
         wf_entries es \<Longrightarrow> distinct (map fst es) \<Longrightarrow> scanned_dirs p (fst ` set es) pkgs"
    and "findPackages_scopes JSON_parse p es = Inr pkgs \<Longrightarrow> clean_path p \<Longrightarrow>
         wf_entries es \<Longrightarrow> distinct (map fst es) \<Longrightarrow> scanned_dirs p (fst ` set es) pkgs"
proof (induction JSON_parse p node and JSON_parse p es and JSON_parse p es
    arbitrary: pkgs and pkgs and pkgs
    rule: findPackages_findPackages_packages_findPackages_scopes.induct)
  case (1 JSON_parse p)
  then show ?case by (simp add: scanned_dirs_Nil)
next
  case (2 JSON_parse p content)
  then show ?case by (simp add: scanned_dirs_Nil)
next
  case (3 JSON_parse p)
  then show ?case by (simp add: scanned_dirs_Nil)
next
  case (4 JSON_parse p listing)
  let ?ps = "filter (\<lambda>(f, n). \<not> startsWith f ''@'' \<and> isPackage n) listing"
  let ?ss = "filter (\<lambda>(f, n). startsWith f ''@'' \<and> isDirectory n) listing"
  from "4.prems"(1) obtain result others where
    r: "findPackages_packages JSON_parse p ?ps = Inr result" and
    o: "findPackages_scopes JSON_parse p ?ss = Inr others" and
    pkgs: "pkgs = result @ others"
    by (auto split: sum.splits)
  from "4.prems"(3) have wf: "wf_entries listing" "distinct (map fst listing)" by simp_all
  then have wfp: "wf_entries ?ps" "distinct (map fst ?ps)" and wfs: "wf_entries ?ss" "distinct (map fst ?ss)"
    by (simp_all add: wf_entries_filter distinct_map_filter)
  from "4.IH"(1)[OF r "4.prems"(2) wfp] have 1: "scanned_dirs p (fst ` set ?ps) result" .
  from "4.IH"(2)[OF r o "4.prems"(2) wfs] have 2: "scanned_dirs p (fst ` set ?ss) others" .
  have "fst ` set ?ps \<inter> fst ` set ?ss = {}" by auto
  from scanned_dirs_append[OF 1 2 this] pkgs show ?case
    by (auto intro: scanned_dirs_mono)
next
  case (5 JSON_parse p)
  then show ?case by (simp add: scanned_dirs_Nil)
next
  case (6 JSON_parse p f n rest)
  let ?q = "posix_join [p, f]"
  let ?nm = "posix_join [?q, ''node_modules'']"
  from "6.prems"(1) obtain pkg nested others where
    pk: "parsePackage JSON_parse ?q n = Inr pkg" and
    ne: "findPackages JSON_parse ?nm (child n ''node_modules'') = Inr nested" and
    ot: "findPackages_packages JSON_parse p rest = Inr others" and
    pkgs: "pkgs = pkg # nested @ others"
    by (auto split: sum.splits)
  from "6.prems"(3,4) have f: "clean_name f" and n: "wf_fs n" and
    rest: "wf_entries rest" "distinct (map fst rest)" and fresh: "f \<notin> fst ` set rest"
    by auto
  from f have cf: "clean_path f" by (rule clean_name_path)
  from "6.prems"(2) cf have q: "?q = p @ ''/'' @ f" and cq: "clean_path ?q"
    by (simp_all add: posix_join_two clean_path_append)
  from posix_join_two[OF cq clean_node_modules] q
  have nm: "?nm = p @ ''/'' @ f @ ''/node_modules''" by simp
  from clean_path_append[OF cq clean_node_modules] q nm
  have cnm: "clean_path ?nm" by simp
  have "\<forall>c. child n ''node_modules'' = Some c \<longrightarrow> wf_fs c"
    using n by (blast intro: wf_child)
  from "6.IH"(1)[OF pk ne cnm this] have "scanned_dirs ?nm UNIV nested" .
  with nm have "scanned_dirs (p @ ''/'' @ f @ ''/node_modules'') UNIV nested" by simp
  from scanned_dirs_package[OF _ f this, of pkg] parsePackage_dir[OF pk] q
  have 1: "scanned_dirs p {f} (pkg # nested)" by simp
  from "6.IH"(2)[OF pk ne ot "6.prems"(2) rest] have 2: "scanned_dirs p (fst ` set rest) others" .
  from fresh have "{f} \<inter> fst ` set rest = {}" by simp
  from scanned_dirs_append[OF 1 2 this] pkgs show ?case by simp
next
  case (7 JSON_parse p)
  then show ?case by (simp add: scanned_dirs_Nil)
next
  case (8 JSON_parse p f n rest)
  let ?q = "posix_join [p, f]"
  from "8.prems"(1) obtain found others where
    fo: "findPackages JSON_parse ?q (Some n) = Inr found" and
    ot: "findPackages_scopes JSON_parse p rest = Inr others" and
    pkgs: "pkgs = found @ others"
    by (auto split: sum.splits)
  from "8.prems"(3,4) have f: "clean_name f" and n: "wf_fs n" and
    rest: "wf_entries rest" "distinct (map fst rest)" and fresh: "f \<notin> fst ` set rest"
    by auto
  from f have cf: "clean_path f" and nf: "CHR ''/'' \<notin> set f"
    by (simp_all add: clean_name_path clean_name_def)
  from "8.prems"(2) cf have q: "?q = p @ ''/'' @ f" and cq: "clean_path ?q"
    by (simp_all add: posix_join_two clean_path_append)
  from "8.IH"(1)[OF fo cq] n have "scanned_dirs ?q UNIV found" by simp
  with q have "scanned_dirs (p @ ''/'' @ f) UNIV found" by simp
  from scanned_dirs_nest[OF this cf] nf have 1: "scanned_dirs p {f} found"
    by (simp add: split_on_id)
  from "8.IH"(2)[OF fo ot "8.prems"(2) rest] have 2: "scanned_dirs p (fst ` set rest) others" .
  from fresh have "{f} \<inter> fst ` set rest = {}" by simp
  from scanned_dirs_append[OF 1 2 this] pkgs show ?case by simp
qed

lemma findPackages_distinct_dirs:
  assumes "findPackages JSON_parse ''node_modules'' node = Inr pkgs"
    and "\<forall>n. node = Some n \<longrightarrow> wf_fs n"
  shows "distinct (map dir pkgs)"
proof -
  from findPackages_scanned_dirs(1)[OF assms(1) clean_node_modules assms(2)]
  obtain rs where rs: "map dir pkgs = map (\<lambda>r. strip_node_modules (''node_modules'' @ ''/'' @ r)) rs"
    and d: "distinct rs"
    unfolding scanned_dirs_def by blast
  have "strip_node_modules (''node_modules'' @ ''/'' @ r) = r" for r
    by (simp add: strip_node_modules_def startsWith_def)
  with rs have "map dir pkgs = rs" by simp
  with d show ?thesis by simp
qed

lemma cycle_tree_facts:
  "findPackages example_parse ''node_modules'' (Some cycle_tree) = Inr cycle_pkgs"
  "wf_fs cycle_tree"
  unfolding cycle_tree_def cycle_pkgs_def pkgA_def pkgB_def by code_simp+

lemma shadow_tree_facts:
  "findPackages example_parse ''node_modules'' (Some shadow_tree) = Inr shadow_pkgs"
  "wf_fs shadow_tree"
  unfolding shadow_tree_def shadow_pkgs_def by code_simp+

lemma findPackages_packages_fails_nested:
  assumes "(f, n) \<in> set es"
    and "findPackages JSON_parse (posix_join [posix_join [p, f], ''node_modules''])
           (child n ''node_modules'') = Inl e"
  shows "\<exists>e'. findPackages_packages JSON_parse p es = Inl e'"
  using assms(1)
proof (induction es)
  case Nil
  then show ?case by simp
next
  case (Cons x es)
  obtain g m where x: "x = (g, m)" by (cases x)
  show ?case
  proof (cases "parsePackage JSON_parse (posix_join [p, g]) m")
    case (Inl e0)
    with x show ?thesis by simp
  next
    case pkg: (Inr pkg)
    show ?thesis
    proof (cases "findPackages JSON_parse (posix_join [posix_join [p, g], ''node_modules''])
                    (child m ''node_modules'')")
      case (Inl e0)
      with x pkg show ?thesis by simp
    next
      case (Inr nested)
      with assms(2) have "x \<noteq> (f, n)" using x by auto
      with Cons.prems have "(f, n) \<in> set es" by simp
      from Cons.IH[OF this] obtain e' where "findPackages_packages JSON_parse p es = Inl e'" ..
      with x pkg Inr show ?thesis by simp
    qed
  qed
qed

lemma findPackages_scopes_fails:
  assumes "(f, n) \<in> set es" and "findPackages JSON_parse (posix_join [p, f]) (Some n) = Inl e"
  shows "\<exists>e'. findPackages_scopes JSON_parse p es = Inl e'"
  using assms(1)
proof (induction es)
  case Nil
  then show ?case by simp
next
  case (Cons x es)
  obtain g m where x: "x = (g, m)" by (cases x)
  show ?case
  proof (cases "findPackages JSON_parse (posix_join [p, g]) (Some m)")
    case (Inl e0)
    with x show ?thesis by simp
  next
    case (Inr found)
    with assms(2) have "x \<noteq> (f, n)" using x by auto
    with Cons.prems have "(f, n) \<in> set es" by simp
    from Cons.IH[OF this] obtain e' where "findPackages_scopes JSON_parse p es = Inl e'" ..
    with x Inr show ?thesis by simp
  qed
qed

lemma findPackages_fails_at:
  assumes "parsed_at p node q m" and "parsePackage JSON_parse q m = Inl e"
  shows "\<exists>e'. findPackages JSON_parse p (Some node) = Inl e'"
  using assms
proof (induction rule: parsed_at.induct)
  case (entry f n listing p)
  then show ?case by (rule findPackages_malformed)
next
  case (nested f n listing c p q m)
  from nested.IH[OF nested.prems] nested.hyps(4) obtain e' where
    "findPackages JSON_parse (posix_join [posix_join [p, f], ''node_modules''])
       (child n ''node_modules'') = Inl e'"
    by auto
  moreover from nested.hyps(1,2,3)
  have "(f, n) \<in> set (filter (\<lambda>(f, n). \<not> startsWith f ''@'' \<and> isPackage n) listing)"
    by simp
  ultimately obtain e'' where
    "findPackages_packages JSON_parse p
       (filter (\<lambda>(f, n). \<not> startsWith f ''@'' \<and> isPackage n) listing) = Inl e''"
    using findPackages_packages_fails_nested by blast
  then show ?case by simp
next
  case (scoped f n listing p q m)
  from scoped.IH[OF scoped.prems] obtain e' where
    "findPackages JSON_parse (posix_join [p, f]) (Some n) = Inl e'" ..
  moreover from scoped.hyps(1,2,3)
  have "(f, n) \<in> set (filter (\<lambda>(f, n). startsWith f ''@'' \<and> isDirectory n) listing)"
    by simp
  ultimately obtain e'' where
    "findPackages_scopes JSON_parse p
       (filter (\<lambda>(f, n). startsWith f ''@'' \<and> isDirectory n) listing) = Inl e''"
    using findPackages_scopes_fails by blast
  then show ?case by (simp split: sum.splits)
qed

lemma shadow_cwd_facts:
  "child shadow_cwd ''node_modules'' = Some shadow_tree"
  "findPackages example_parse ''node_modules'' (child shadow_cwd ''node_modules'') = Inr shadow_pkgs"
  "findScopes (child shadow_cwd ''node_modules'') = []"
  "readFileSync (child shadow_cwd ''manual_build_file_contents'') = Inl (SystemError ''ENOENT'')"
  "map_of [(''node_modules'', shadow_tree)] ''BUILD.bazel'' = None"
  unfolding shadow_cwd_def shadow_tree_def shadow_pkgs_def by code_simp+

lemma shadow_pkgs_printed:
  "filter (\<lambda>pkg. \<not> isNested (shadow_pkgs ! pkg)) [0..<length shadow_pkgs] = [0, 2, 3]"
  "filter (\<lambda>dep. dep \<noteq> 2 \<and> \<not> isNested (shadow_pkgs ! dep)) [2, 3] = [3]"
  "dir (shadow_pkgs ! 1) = ''A/node_modules/X''"
  "dir (shadow_pkgs ! 2) = ''B''"
  "dir (shadow_pkgs ! 3) = ''X''"
  "executables (shadow_pkgs ! 2) = []"
  \<open>printJson (\<lambda>j. ''{}'') shadow_pkgs [2, 3] 2 = ''# {}''\<close>
  "isNested (shadow_pkgs ! 1)"
  "\<not> isNested (shadow_pkgs ! 2)"
  \<open>''":'' @ ''B'' @ ''__files",'' = ''":B__files",''\<close>
  \<open>map (\<lambda>dep. ''":'' @ dir (shadow_pkgs ! dep) @ ''__files",'') [3] = [''":X__files",'']\<close>
  \<open>join_with (nl @ ''        '') [''":X__files",''] = ''":X__files",''\<close>
  \<open>''":'' @ ''A/node_modules/X'' @ ''__files",'' = ''":A/node_modules/X__files",''\<close>
  unfolding shadow_pkgs_def by code_simp+

section \<open>The claims\<close>

text \<open>
  C9. After \<^verbatim>\<open>main\<close> has run \<^verbatim>\<open>flattenDependencies(pkg, pkg, pkgsMap)\<close> for every
  record, starting from the empty \<^verbatim>\<open>_dependencies\<close> arrays that \<^verbatim>\<open>parsePackage\<close> leaves,
  the first element of the \<^verbatim>\<open>_dependencies\<close> of every record is the record itself.
\<close>

theorem self_is_first:
  assumes "flatten_all pkgs (replicate (length pkgs) []) = Inr st" and "i < length pkgs"
  shows "st ! i \<noteq> [] \<and> hd (st ! i) = i"
proof -
  from flatten_all_results(1)[OF assms(1) _ assms(2)] assms(2)
  have "flattenDependencies pkgs (build_pkgsMap pkgs) [] i = Inr (st ! i)" by simp
  from flatten_self[OF this] obtain ys where "st ! i = i # ys" ..
  then show ?thesis by simp
qed

theorem self_is_first_witness:
  "flatten_all cycle_pkgs (replicate (length cycle_pkgs) []) = Inr [[0, 1], [1, 0]]
   \<and> (1::nat) < length cycle_pkgs
   \<and> [[0, 1], [1, 0]] ! 1 \<noteq> [] \<and> hd ([[0, 1], [1, 0]] ! 1) = (1::nat)"
proof -
  have l: "length cycle_pkgs = 2" by (simp add: cycle_pkgs_def)
  have h: "flatten_all cycle_pkgs (replicate (length cycle_pkgs) []) = Inr [[0, 1], [1, 0]]"
    using cycle_pkgs_flatten_all by (simp add: l numeral_2_eq_2)
  have i: "(1::nat) < length cycle_pkgs" by (simp add: l)
  from self_is_first[OF h i] h i show ?thesis by simp
qed

text \<open>
  C3. After \<^verbatim>\<open>main\<close> has resolved every record, no \<^verbatim>\<open>_dependencies\<close> array holds the
  same record twice; and where the directories of the scanned records are pairwise different
  (the uniqueness of \<^verbatim>\<open>_dir\<close> that the data model states), none holds the same directory
  twice. The directories are pairwise different whenever the records are those that
  \<^verbatim>\<open>findPackages\<close> returns on a well-formed tree. The invariant of every recursive step is
  \<open>flatten_distinct\<close>.
\<close>
theorem no_duplicates:
  assumes "flatten_all pkgs (replicate (length pkgs) []) = Inr st" and "i < length pkgs"
  shows "distinct (st ! i)
       \<and> (distinct (map dir pkgs) \<longrightarrow> distinct (map (\<lambda>d. dir (pkgs ! d)) (st ! i)))
       \<and> (findPackages JSON_parse ''node_modules'' node = Inr pkgs
            \<and> (\<forall>n. node = Some n \<longrightarrow> wf_fs n) \<longrightarrow>
          distinct (map (\<lambda>d. dir (pkgs ! d)) (st ! i)))"
proof -
  from flatten_all_results(1)[OF assms(1) _ assms(2)] assms(2)
  have r: "flattenDependencies pkgs (build_pkgsMap pkgs) [] i = Inr (st ! i)" by simp
  from flatten_distinct[OF r] have d: "distinct (st ! i)" by simp
  from flatten_in_range[OF r assms(2)] have "set (st ! i) \<subseteq> {..<length pkgs}" by simp
  with d have "distinct (map dir pkgs) \<longrightarrow> distinct (map (\<lambda>d. dir (pkgs ! d)) (st ! i))"
    by (auto intro: distinct_dirs)
  with d show ?thesis
    by (auto dest: findPackages_distinct_dirs)
qed

theorem no_duplicates_witness:
  "flatten_all cycle_pkgs (replicate (length cycle_pkgs) []) = Inr [[0, 1], [1, 0]]
   \<and> (0::nat) < length cycle_pkgs
   \<and> distinct (map dir cycle_pkgs)
   \<and> findPackages example_parse ''node_modules'' (Some cycle_tree) = Inr cycle_pkgs
   \<and> wf_fs cycle_tree
   \<and> distinct ([[0, 1], [1, 0::nat]] ! 0)
   \<and> distinct (map (\<lambda>d. dir (cycle_pkgs ! d)) ([[0, 1], [1, 0]] ! 0))"
proof -
  have l: "length cycle_pkgs = 2" by (simp add: cycle_pkgs_def)
  have h: "flatten_all cycle_pkgs (replicate (length cycle_pkgs) []) = Inr [[0, 1], [1, 0]]"
    using cycle_pkgs_flatten_all by (simp add: l numeral_2_eq_2)
  have i: "(0::nat) < length cycle_pkgs" by (simp add: l)
  have d: "distinct (map dir cycle_pkgs)" by (simp add: cycle_pkgs_def pkgA_def pkgB_def)
  have w: "\<forall>n. Some cycle_tree = Some n \<longrightarrow> wf_fs n" by (simp add: cycle_tree_facts(2))
  from no_duplicates[OF h i, of example_parse "Some cycle_tree"] cycle_tree_facts w
  have "distinct ([[0, 1], [1, 0::nat]] ! 0)"
    and "distinct (map (\<lambda>d. dir (cycle_pkgs ! d)) ([[0, 1], [1, 0]] ! 0))"
    by blast+
  with h i d cycle_tree_facts show ?thesis by blast
qed

text \<open>
  C6. Running the resolution of \<^verbatim>\<open>main\<close> a second time, on the arrays the first run has
  filled, changes nothing: every call returns at the \<^verbatim>\<open>indexOf\<close> check, and every array
  is the same list in the same order.
\<close>

theorem resolution_idempotent:
  assumes "flatten_all pkgs (replicate (length pkgs) []) = Inr st"
  shows "flatten_all pkgs st = Inr st
       \<and> (\<forall>i < length pkgs. flattenDependencies pkgs (build_pkgsMap pkgs) (st ! i) i = Inr (st ! i))"
proof -
  have len: "length st = length pkgs"
    using forEach_flatten_pkg[of pkgs "build_pkgsMap pkgs" "replicate (length pkgs) []"
        "[0..<length pkgs]" st] assms
    by (simp add: flatten_all_def)
  have self: "i \<in> set (st ! i)" if "i < length pkgs" for i
  proof -
    from flatten_all_results(1)[OF assms _ that] that
    have "flattenDependencies pkgs (build_pkgsMap pkgs) [] i = Inr (st ! i)" by simp
    from flatten_self[OF this] show ?thesis by auto
  qed
  have "flatten_all pkgs st = Inr st"
    unfolding flatten_all_def
    by (rule forEach_flatten_pkg_visited) (use len self in auto)
  moreover have "\<forall>i < length pkgs. flattenDependencies pkgs (build_pkgsMap pkgs) (st ! i) i = Inr (st ! i)"
    using self by (simp add: flattenDependencies_visited)
  ultimately show ?thesis by simp
qed

theorem resolution_idempotent_witness:
  "flatten_all cycle_pkgs (replicate (length cycle_pkgs) []) = Inr [[0, 1], [1, 0]]
   \<and> flatten_all cycle_pkgs [[0, 1], [1, 0]] = Inr [[0, 1], [1, 0]]
   \<and> flattenDependencies cycle_pkgs (build_pkgsMap cycle_pkgs) ([[0, 1], [1, 0]] ! 1) 1
       = Inr ([[0, 1], [1, 0]] ! 1)"
proof -
  have l: "length cycle_pkgs = 2" by (simp add: cycle_pkgs_def)
  have h: "flatten_all cycle_pkgs (replicate (length cycle_pkgs) []) = Inr [[0, 1], [1, 0]]"
    using cycle_pkgs_flatten_all by (simp add: l numeral_2_eq_2)
  have i: "(1::nat) < length cycle_pkgs" by (simp add: l)
  from resolution_idempotent[OF h] i h show ?thesis by blast
qed

text \<open>
  C4. \<^verbatim>\<open>flattenDependencies\<close> is a total function: its recursion is well-founded on every
  package array and index, whatever the declared dependencies are, because every call that
  goes on adds a record that \<^verbatim>\<open>pkg._dependencies\<close> did not hold. For a cycle of two records
  \<open>i\<close> and \<open>j\<close>, where the only dependency of \<open>i\<close> resolves to \<open>j\<close> and the only
  dependency of \<open>j\<close> resolves to \<open>i\<close>, both resolutions return, without an error, and each
  list holds the other record exactly once.
\<close>

theorem two_cycle:
  assumes "i \<noteq> j"
    and "keys_or_empty (property (json (pkgs ! i)) ''dependencies'') = [b]"
    and "resolveTargetDep m (dir (pkgs ! i)) True b = Inr (Some j)"
    and "keys_or_empty (property (json (pkgs ! i)) ''peerDependencies'') = []"
    and "keys_or_empty (property (json (pkgs ! i)) ''optionalDependencies'') = []"
    and "keys_or_empty (property (json (pkgs ! j)) ''dependencies'') = [a]"
    and "resolveTargetDep m (dir (pkgs ! j)) True a = Inr (Some i)"
    and "keys_or_empty (property (json (pkgs ! j)) ''peerDependencies'') = []"
    and "keys_or_empty (property (json (pkgs ! j)) ''optionalDependencies'') = []"
  shows "flattenDependencies pkgs m [] i = Inr [i, j]
       \<and> flattenDependencies pkgs m [] j = Inr [j, i]
       \<and> count_list [i, j] j = 1 \<and> count_list [j, i] i = 1"
proof -
  have "flattenDependencies pkgs m [] i = flattenDependencies pkgs m [i] j"
    using flattenDependencies_one_dependency[of i "[]" pkgs b m j] assms by simp
  also have "\<dots> = flattenDependencies pkgs m [i, j] i"
    using flattenDependencies_one_dependency[of j "[i]" pkgs a m i] assms by simp
  also have "\<dots> = Inr [i, j]"
    by (simp add: flattenDependencies_visited)
  finally have 1: "flattenDependencies pkgs m [] i = Inr [i, j]" .
  have "flattenDependencies pkgs m [] j = flattenDependencies pkgs m [j] i"
    using flattenDependencies_one_dependency[of j "[]" pkgs a m i] assms by simp
  also have "\<dots> = flattenDependencies pkgs m [j, i] j"
    using flattenDependencies_one_dependency[of i "[j]" pkgs b m j] assms by simp
  also have "\<dots> = Inr [j, i]"
    by (simp add: flattenDependencies_visited)
  finally have 2: "flattenDependencies pkgs m [] j = Inr [j, i]" .
  from 1 2 assms(1) show ?thesis by simp
qed

theorem two_cycle_witness:
  "flattenDependencies cycle_pkgs (build_pkgsMap cycle_pkgs) [] 0 = Inr [0, 1]
   \<and> flattenDependencies cycle_pkgs (build_pkgsMap cycle_pkgs) [] 1 = Inr [1, 0]
   \<and> count_list [0, 1] (1::nat) = 1 \<and> count_list [1, 0] (0::nat) = 1"
  using two_cycle[of 0 1 cycle_pkgs "''B''" "build_pkgsMap cycle_pkgs" "''A''"]
    cycle_pkgs_keys cycle_pkgs_resolve
  by simp

text \<open>
  C1. The lookup that \<^verbatim>\<open>findDeps\<close> runs for a declared name is the one of the
  specification: \<open>resolveTargetDep\<close>, the loop of the source, is \<open>resolve_by_spec\<close>, the
  first candidate path \<^verbatim>\<open><segments>/node_modules/<name>\<close> that the index holds, the
  longest prefix of the segments first, and the name at the root of the index otherwise.
  So a copy nested under the nearest ancestor that has one is selected, whether or not the
  index holds the name at its root, and the root entry is selected only when no candidate
  is in the index. For a directory and a name without empty, \<^verbatim>\<open>.\<close> or \<^verbatim>\<open>..\<close> segments,
  the candidate that \<^verbatim>\<open>path.posix.join\<close> forms is the plain concatenation with slashes.
\<close>

theorem nearest_ancestor_first:
  "resolveTargetDep m d required t = resolve_by_spec m d required t
   \<and> findDeps pkgs m deps dep targetDeps required =
       (case map_throwing (resolve_by_spec m (dir (pkgs ! dep)) required) (keys_or_empty targetDeps) of
          Inl e \<Rightarrow> Inl e
        | Inr found \<Rightarrow> flattenEach pkgs m deps (filter_found found))
   \<and> (1 \<le> k \<and> k \<le> length (split_on (CHR ''/'') d) \<and> map_of m (candidate d t k) = Some r
        \<and> (\<forall>j. k < j \<and> j \<le> length (split_on (CHR ''/'') d) \<longrightarrow> map_of m (candidate d t j) = None)
       \<longrightarrow> resolveTargetDep m d required t = Inr (Some r))
   \<and> ((\<forall>j. 1 \<le> j \<and> j \<le> length (split_on (CHR ''/'') d) \<longrightarrow> map_of m (candidate d t j) = None)
        \<and> map_of m t = Some r
       \<longrightarrow> resolveTargetDep m d required t = Inr (Some r))
   \<and> (clean_path d \<and> clean_path t
       \<longrightarrow> candidate d t k
           = join_with ''/'' (take k (split_on (CHR ''/'') d) @ [''node_modules'', t]))"
proof (intro conjI impI)
  show "resolveTargetDep m d required t = resolve_by_spec m d required t"
    by (simp add: resolveTargetDep_spec resolve_by_spec_def)
  show "findDeps pkgs m deps dep targetDeps required =
       (case map_throwing (resolve_by_spec m (dir (pkgs ! dep)) required) (keys_or_empty targetDeps) of
          Inl e \<Rightarrow> Inl e
        | Inr found \<Rightarrow> flattenEach pkgs m deps (filter_found found))"
    by (rule findDeps_by_spec)
next
  assume "1 \<le> k \<and> k \<le> length (split_on (CHR ''/'') d) \<and> map_of m (candidate d t k) = Some r
        \<and> (\<forall>j. k < j \<and> j \<le> length (split_on (CHR ''/'') d) \<longrightarrow> map_of m (candidate d t j) = None)"
  then have "lookupNested m (split_on (CHR ''/'') d) t = Some r"
    by (intro lookupNested_nearest[of k]) auto
  then show "resolveTargetDep m d required t = Inr (Some r)"
    by (simp add: resolveTargetDep_def)
next
  assume "(\<forall>j. 1 \<le> j \<and> j \<le> length (split_on (CHR ''/'') d) \<longrightarrow> map_of m (candidate d t j) = None)
        \<and> map_of m t = Some r"
  then have "lookupNested m (split_on (CHR ''/'') d) t = None" and "map_of m t = Some r"
    by (auto intro: lookupNested_miss)
  then show "resolveTargetDep m d required t = Inr (Some r)"
    by (simp add: resolveTargetDep_def)
next
  assume "clean_path d \<and> clean_path t"
  then show "candidate d t k
           = join_with ''/'' (take k (split_on (CHR ''/'') d) @ [''node_modules'', t])"
    by (simp add: candidate_clean)
qed

theorem nearest_ancestor_first_witness:
  "map_of (build_pkgsMap shadow_pkgs) ''X'' = Some 3
   \<and> map_of (build_pkgsMap shadow_pkgs) (candidate ''A'' ''X'' 1) = Some 1
   \<and> resolveTargetDep (build_pkgsMap shadow_pkgs) ''A'' True ''X'' = Inr (Some 1)
   \<and> map_of (build_pkgsMap shadow_pkgs) (candidate ''B'' ''X'' 1) = None
   \<and> resolveTargetDep (build_pkgsMap shadow_pkgs) ''B'' True ''X'' = Inr (Some 3)
   \<and> candidate ''A'' ''X'' 1 = join_with ''/'' (take 1 (split_on (CHR ''/'') ''A'') @ [''node_modules'', ''X''])
   \<and> flatten_all shadow_pkgs [[], [], [], []] = Inr [[0, 1], [1], [2, 3], [3]]"
proof -
  let ?m = "build_pkgsMap shadow_pkgs"
  have root: "map_of ?m ''X'' = Some 3"
    and a: "map_of ?m (candidate ''A'' ''X'' 1) = Some 1"
    and b: "map_of ?m (candidate ''B'' ''X'' 1) = None"
    by (simp_all add: shadow_pkgsMap shadow_candidates[unfolded One_nat_def])
  have la: "(1::nat) \<le> 1" "1 \<le> length (split_on (CHR ''/'') ''A'')"
    and ja: "\<forall>j. 1 < j \<and> j \<le> length (split_on (CHR ''/'') ''A'') \<longrightarrow> map_of ?m (candidate ''A'' ''X'' j) = None"
    and jb: "\<forall>j. 1 \<le> j \<and> j \<le> length (split_on (CHR ''/'') ''B'') \<longrightarrow> map_of ?m (candidate ''B'' ''X'' j) = None"
    using b by (auto simp: shadow_candidates le_Suc_eq)
  note A = nearest_ancestor_first[of ?m "''A''" True "''X''" "[]" "[]" 0 None 1 1]
  note B = nearest_ancestor_first[of ?m "''B''" True "''X''" "[]" "[]" 0 None 1 3]
  from A a la ja have 1: "resolveTargetDep ?m ''A'' True ''X'' = Inr (Some 1)"
    by blast
  from A shadow_clean
  have 3: "candidate ''A'' ''X'' 1 = join_with ''/'' (take 1 (split_on (CHR ''/'') ''A'') @ [''node_modules'', ''X''])"
    by blast
  from B jb root have 2: "resolveTargetDep ?m ''B'' True ''X'' = Inr (Some 3)"
    by blast
  from root a b 1 2 3 shadow_pkgs_flatten_all show ?thesis by blast
qed

text \<open>
  C2, as amended. A name that a record requires (a key of its \<^verbatim>\<open>dependencies\<close> or
  \<^verbatim>\<open>peerDependencies\<close>) and that is found neither by the loop over the ancestors nor at
  the root of the index makes the resolution fail: that of the record, from any
  \<^verbatim>\<open>_dependencies\<close> that does not hold it yet, and that of \<^verbatim>\<open>main\<close> over the whole array.
  The error thrown is the first one that the resolution meets: it names a name that is
  missing and the directory of the record that requires it, and these are this name and this
  record when the name is the first key of the record's \<^verbatim>\<open>dependencies\<close> that is
  missing. For \<^verbatim>\<open>optionalDependencies\<close> nothing is thrown by the lookup, and only the
  names that are not missing are resolved and visited: a missing name adds no record.
\<close>

theorem missing_required_dependency:
  "(i < length pkgs \<and> X \<in> set (required_names (pkgs ! i))
      \<and> missing (build_pkgsMap pkgs) (dir (pkgs ! i)) X
     \<longrightarrow> (\<exists>e. flatten_all pkgs (replicate (length pkgs) []) = Inl e
              \<and> names_missing_dep pkgs (build_pkgsMap pkgs) e))
   \<and> (dep \<notin> set deps \<and> X \<in> set (required_names (pkgs ! dep)) \<and> missing m (dir (pkgs ! dep)) X
     \<longrightarrow> (\<exists>e. flattenDependencies pkgs m deps dep = Inl e \<and> names_missing_dep pkgs m e))
   \<and> (dep \<notin> set deps
      \<and> keys_or_empty (property (json (pkgs ! dep)) ''dependencies'') = ks @ X # ks'
      \<and> (\<forall>k \<in> set ks. \<not> missing m (dir (pkgs ! dep)) k)
      \<and> missing m (dir (pkgs ! dep)) X
     \<longrightarrow> flattenDependencies pkgs m deps dep = Inl (missing_dep_error X (dir (pkgs ! dep))))
   \<and> findDeps pkgs m deps dep targetDeps False =
       flattenEach pkgs m deps
         (map (\<lambda>X. the (nearest_ancestor_lookup m (dir (pkgs ! dep)) X))
            (filter (\<lambda>X. \<not> missing m (dir (pkgs ! dep)) X) (keys_or_empty targetDeps)))
   \<and> ((\<forall>X \<in> set (keys_or_empty targetDeps). missing m (dir (pkgs ! dep)) X)
     \<longrightarrow> findDeps pkgs m deps dep targetDeps False = Inr deps)"
proof (intro conjI impI)
  assume "i < length pkgs \<and> X \<in> set (required_names (pkgs ! i))
      \<and> missing (build_pkgsMap pkgs) (dir (pkgs ! i)) X"
  then show "\<exists>e. flatten_all pkgs (replicate (length pkgs) []) = Inl e
              \<and> names_missing_dep pkgs (build_pkgsMap pkgs) e"
    by (blast intro: flatten_all_fails)
next
  assume a: "dep \<notin> set deps \<and> X \<in> set (required_names (pkgs ! dep)) \<and> missing m (dir (pkgs ! dep)) X"
  then obtain e where "flattenDependencies pkgs m deps dep = Inl e"
    using flattenDependencies_fails[of dep deps X pkgs m] by blast
  with flatten_error(1)[OF this]
  show "\<exists>e. flattenDependencies pkgs m deps dep = Inl e \<and> names_missing_dep pkgs m e"
    by blast
next
  assume "dep \<notin> set deps
      \<and> keys_or_empty (property (json (pkgs ! dep)) ''dependencies'') = ks @ X # ks'
      \<and> (\<forall>k \<in> set ks. \<not> missing m (dir (pkgs ! dep)) k)
      \<and> missing m (dir (pkgs ! dep)) X"
  then show "flattenDependencies pkgs m deps dep = Inl (missing_dep_error X (dir (pkgs ! dep)))"
    by (intro flattenDependencies_first_missing[of dep deps pkgs ks X ks']) blast+
next
  show "findDeps pkgs m deps dep targetDeps False =
       flattenEach pkgs m deps
         (map (\<lambda>X. the (nearest_ancestor_lookup m (dir (pkgs ! dep)) X))
            (filter (\<lambda>X. \<not> missing m (dir (pkgs ! dep)) X) (keys_or_empty targetDeps)))"
    by (rule findDeps_optional_found)
next
  assume "\<forall>X \<in> set (keys_or_empty targetDeps). missing m (dir (pkgs ! dep)) X"
  then have "filter (\<lambda>X. \<not> missing m (dir (pkgs ! dep)) X) (keys_or_empty targetDeps) = []"
    by (simp add: filter_empty_conv)
  then show "findDeps pkgs m deps dep targetDeps False = Inr deps"
    by (simp add: findDeps_optional_found)
qed

theorem missing_required_dependency_counterexample:
  "''y'' \<in> set (keys_or_empty (property (json (missing_pkgs ! 0)) ''dependencies''))
   \<and> lookupNested (build_pkgsMap missing_pkgs) (split_on (CHR ''/'') (dir (missing_pkgs ! 0))) ''y'' = None
   \<and> map_of (build_pkgsMap missing_pkgs) ''y'' = None
   \<and> flattenDependencies missing_pkgs (build_pkgsMap missing_pkgs) [] 0
       = Inl (Error ''Could not find required dep x of P'')
   \<and> flattenDependencies missing_pkgs (build_pkgsMap missing_pkgs) [] 0
       \<noteq> Inl (Error (''Could not find required dep '' @ ''y'' @ '' of '' @ dir (missing_pkgs ! 0)))"
  using missing_pkgs_y missing_pkgs_flatten(1) by blast

theorem missing_required_dependency_witness:
  "(\<exists>e. flatten_all missing_pkgs (replicate (length missing_pkgs) []) = Inl e
        \<and> names_missing_dep missing_pkgs (build_pkgsMap missing_pkgs) e)
   \<and> (\<exists>e. flattenDependencies missing_pkgs (build_pkgsMap missing_pkgs) [] 0 = Inl e
        \<and> names_missing_dep missing_pkgs (build_pkgsMap missing_pkgs) e)
   \<and> flattenDependencies missing_pkgs (build_pkgsMap missing_pkgs) [] 0
       = Inl (missing_dep_error ''x'' ''P'')
   \<and> findDeps optional_pkgs (build_pkgsMap optional_pkgs) [0] 0
        (property (json (optional_pkgs ! 0)) ''optionalDependencies'') False = Inr [0]"
proof -
  let ?m = "build_pkgsMap missing_pkgs"
  note M = missing_required_dependency[of 0 missing_pkgs "''x''" 0 "[]" ?m "[]" "[''y'']" None]
  note O = missing_required_dependency[of 0 optional_pkgs "''fsevents''" 0 "[0]" 
      "build_pkgsMap optional_pkgs" "[]" "[]" "property (json (optional_pkgs ! 0)) ''optionalDependencies''"]
  have h1: "0 < length missing_pkgs" "''x'' \<in> set (required_names (missing_pkgs ! 0))"
    "missing ?m (dir (missing_pkgs ! 0)) ''x''" "(0::nat) \<notin> set []"
    "keys_or_empty (property (json (missing_pkgs ! 0)) ''dependencies'') = [] @ ''x'' # [''y'']"
    "\<forall>k \<in> set []. \<not> missing ?m (dir (missing_pkgs ! 0)) k"
    using missing_pkgs_missing by (simp_all add: missing_pkgs_facts)
  have h2: "\<forall>X \<in> set (keys_or_empty (property (json (optional_pkgs ! 0)) ''optionalDependencies'')).
      missing (build_pkgsMap optional_pkgs) (dir (optional_pkgs ! 0)) X"
    using optional_pkgs_missing by (simp add: optional_pkgs_facts)
  from M h1 have
    a: "\<exists>e. flatten_all missing_pkgs (replicate (length missing_pkgs) []) = Inl e
        \<and> names_missing_dep missing_pkgs ?m e" and
    b: "\<exists>e. flattenDependencies missing_pkgs ?m [] 0 = Inl e \<and> names_missing_dep missing_pkgs ?m e" and
    c: "flattenDependencies missing_pkgs ?m [] 0 = Inl (missing_dep_error ''x'' (dir (missing_pkgs ! 0)))"
    by blast+
  from O h2 have
    d: "findDeps optional_pkgs (build_pkgsMap optional_pkgs) [0] 0
        (property (json (optional_pkgs ! 0)) ''optionalDependencies'') False = Inr [0]"
    by blast
  from a b c d show ?thesis by (simp add: missing_pkgs_facts)
qed

text \<open>
  C7, as amended. When the \<^verbatim>\<open>package.json\<close> of the directory at \<open>p\<close> can be read and
  parses to an object, \<^verbatim>\<open>parsePackage\<close> returns a record. If \<open>p\<close> is nested (it has a
  \<^verbatim>\<open>/node_modules/\<close> inside), the executables mapping is empty. If not, a \<^verbatim>\<open>bin\<close> that
  is a string gives exactly one entry: its key is the directory of the package relative to
  \<^verbatim>\<open>node_modules\<close>, the \<^verbatim>\<open>_dir\<close> of the record (not the declared \<^verbatim>\<open>name\<close>), and its
  value is the normalised string; a \<^verbatim>\<open>bin\<close> that is an object of strings gives one entry
  for each declared key, in the order of the keys, with its normalised path. The
  normalisation replaces every backslash by a slash and then removes one leading \<^verbatim>\<open>./\<close>.
\<close>

theorem parsePackage_executables:
  assumes "readFileSync (child node ''package.json'') = Inr text"
    and "JSON_parse text = Some pkg" and "is_object pkg"
  shows "(occurs_in ''/node_modules/'' p \<longrightarrow>
            parsePackage JSON_parse p node
              = Inr \<lparr> json = pkg, dir = strip_node_modules p, isNested = True, executables = [] \<rparr>)
       \<and> (\<not> occurs_in ''/node_modules/'' p \<and> property pkg ''bin'' = Some (JString s) \<longrightarrow>
            parsePackage JSON_parse p node
              = Inr \<lparr> json = pkg, dir = strip_node_modules p, isNested = False,
                      executables = [(strip_node_modules p, normalized_path s)] \<rparr>)
       \<and> (\<not> occurs_in ''/node_modules/'' p
            \<and> property pkg ''bin'' = Some (JObject (map (\<lambda>(k, path). (k, JString path)) paths))
            \<and> distinct (map fst paths) \<longrightarrow>
            parsePackage JSON_parse p node
              = Inr \<lparr> json = pkg, dir = strip_node_modules p, isNested = False,
                      executables = map (\<lambda>(k, path). (k, normalized_path path)) paths \<rparr>)"
proof (intro conjI impI)
  assume "occurs_in ''/node_modules/'' p"
  with assms show "parsePackage JSON_parse p node
      = Inr \<lparr> json = pkg, dir = strip_node_modules p, isNested = True, executables = [] \<rparr>"
    by (simp add: parsePackage_def)
next
  assume "\<not> occurs_in ''/node_modules/'' p \<and> property pkg ''bin'' = Some (JString s)"
  with assms show "parsePackage JSON_parse p node
      = Inr \<lparr> json = pkg, dir = strip_node_modules p, isNested = False,
              executables = [(strip_node_modules p, normalized_path s)] \<rparr>"
    by (simp add: parsePackage_def cleanupBinPath_normalized)
next
  assume a: "\<not> occurs_in ''/node_modules/'' p
            \<and> property pkg ''bin'' = Some (JObject (map (\<lambda>(k, path). (k, JString path)) paths))
            \<and> distinct (map fst paths)"
  then have "bin_entries (map (\<lambda>(k, path). (k, JString path)) paths) []
      = Inr (map (\<lambda>(k, path). (k, normalized_path path)) paths)"
    using bin_entries_strings[of paths "[]"] by (simp add: cleanupBinPath_normalized)
  with assms a show "parsePackage JSON_parse p node
      = Inr \<lparr> json = pkg, dir = strip_node_modules p, isNested = False,
              executables = map (\<lambda>(k, path). (k, normalized_path path)) paths \<rparr>"
    by (simp add: parsePackage_def)
qed

theorem parsePackage_executables_counterexample:
  "parsePackage example_parse ''node_modules/foo'' foo_dir
     = Inr \<lparr> json = JObject [(''name'', JString ''bar''), (''bin'', JString ''./cli.js'')],
             dir = ''foo'', isNested = False, executables = [(''foo'', ''cli.js'')] \<rparr>
   \<and> property (JObject [(''name'', JString ''bar''), (''bin'', JString ''./cli.js'')]) ''name''
       = Some (JString ''bar'')
   \<and> map_of [(''foo'', ''cli.js'')] ''bar'' = None
   \<and> map_of [(''foo'', ''cli.js'')] ''foo'' = Some ''cli.js''"
  using foo_dir_parsed by simp

theorem parsePackage_executables_witness:
  "parsePackage example_parse ''node_modules/a/node_modules/foo'' foo_dir
     = Inr \<lparr> json = JObject [(''name'', JString ''bar''), (''bin'', JString ''./cli.js'')],
             dir = ''a/node_modules/foo'', isNested = True, executables = [] \<rparr>
   \<and> parsePackage example_parse ''node_modules/foo'' foo_dir
     = Inr \<lparr> json = JObject [(''name'', JString ''bar''), (''bin'', JString ''./cli.js'')],
             dir = ''foo'', isNested = False, executables = [(''foo'', ''cli.js'')] \<rparr>
   \<and> parsePackage example_parse ''node_modules/tool'' tool_dir
     = Inr \<lparr> json = JObject [(''name'', JString ''tool''),
                 (''bin'', JObject [(''t1'', JString ''./bin/t1''), (''t2'', JString ''lib/t2.js'')])],
             dir = ''tool'', isNested = False,
             executables = [(''t1'', ''bin/t1''), (''t2'', ''lib/t2.js'')] \<rparr>"
proof -
  let ?foo = "JObject [(''name'', JString ''bar''), (''bin'', JString ''./cli.js'')]"
  let ?tool = "JObject [(''name'', JString ''tool''),
                 (''bin'', JObject [(''t1'', JString ''./bin/t1''), (''t2'', JString ''lib/t2.js'')])]"
  note N = parsePackage_executables[where JSON_parse = example_parse and node = foo_dir
      and p = "''node_modules/a/node_modules/foo''" and s = "[]" and paths = "[]", OF foo_dir_facts(1)]
  note F = parsePackage_executables[where JSON_parse = example_parse and node = foo_dir
      and p = "''node_modules/foo''" and s = "''./cli.js''" and paths = "[]", OF foo_dir_facts(1)]
  note T = parsePackage_executables[where JSON_parse = example_parse and node = tool_dir
      and p = "''node_modules/tool''" and s = "[]"
      and paths = "[(''t1'', ''./bin/t1''), (''t2'', ''lib/t2.js'')]", OF tool_dir_facts(1)]
  have obj: "is_object ?foo" "is_object ?tool"
    and bins: "property ?foo ''bin'' = Some (JString ''./cli.js'')"
      "property ?tool ''bin''
        = Some (JObject (map (\<lambda>(k, path). (k, JString path)) [(''t1'', ''./bin/t1''), (''t2'', ''lib/t2.js'')]))"
      "distinct (map fst [(''t1'', ''./bin/t1''), (''t2'', ''lib/t2.js'')])"
    by simp_all
  from N[OF foo_dir_facts(2) obj(1)]
  have 1: "parsePackage example_parse ''node_modules/a/node_modules/foo'' foo_dir
     = Inr \<lparr> json = ?foo, dir = ''a/node_modules/foo'', isNested = True, executables = [] \<rparr>"
    by (simp only: foo_dir_facts simp_thms)
  from F[OF foo_dir_facts(2) obj(1)] bins(1)
  have 2: "parsePackage example_parse ''node_modules/foo'' foo_dir
     = Inr \<lparr> json = ?foo, dir = ''foo'', isNested = False, executables = [(''foo'', ''cli.js'')] \<rparr>"
    by (simp only: foo_dir_facts simp_thms)
  from T[OF tool_dir_facts(2) obj(2)] bins(2,3)
  have 3: "parsePackage example_parse ''node_modules/tool'' tool_dir
     = Inr \<lparr> json = ?tool, dir = ''tool'', isNested = False,
             executables = [(''t1'', ''bin/t1''), (''t2'', ''lib/t2.js'')] \<rparr>"
    by (simp only: tool_dir_facts simp_thms)
  from 1 2 3 show ?thesis by blast
qed

text \<open>
  C5. The text that \<^verbatim>\<open>printPackage\<close> emits for a record is, after its comment lines,
  the target named after the directory of the record, and the list of that target, from
  \<^verbatim>\<open>srcs = [\<close> to \<^verbatim>\<open>],\<close>, holds the record's own files-target and then, one on a line and in the order of
  its \<^verbatim>\<open>_dependencies\<close>, the files-targets of exactly the resolved records that are not
  the record itself and are not nested; the two \<^verbatim>\<open>glob\<close> targets and the binaries of the
  record follow. \<^verbatim>\<open>main\<close> writes, after the header, this text for every record of the scan
  that is not nested, in the order of the scan, and no text for a nested record. Where the
  directories of the records are pairwise different, as they are for the records that
  \<^verbatim>\<open>findPackages\<close> returns on a well-formed tree, the entries after the first are pairwise
  different, none of them is the record's own files-target, and the files-target of a
  nested record is none of them (nor the first, for a record that is not nested).
\<close>

theorem aggregate_inputs:
  assumes "flatten_all pkgs (replicate (length pkgs) []) = Inr st" and "i < length pkgs"
  shows
    \<open>let label = (\<lambda>dep. ''":'' @ dir (pkgs ! dep) @ ''__files",'');
         hoisted = filter (\<lambda>dep. dep \<noteq> i \<and> \<not> isNested (pkgs ! dep)) (st ! i)
     in printPackage JSON_stringify pkgs (st ! i) i =
          concat
          [nl,
           ''# Generated target for npm package "'', dir (pkgs ! i), ''"'', nl,
           printJson JSON_stringify pkgs (st ! i) i, nl,
           ''filegroup('', nl,
           ''    name = "'', dir (pkgs ! i), ''",'', nl,
           ''    srcs = ['', nl,
           ''        # '', dir (pkgs ! i), '' package contents (and contents of nested node_modules)'', nl,
           ''        '', label i, nl,
           ''        # direct or transitive dependencies hoisted to root by the package manager'', nl,
           ''        '', join_with (nl @ ''        '') (map label hoisted), nl,
           ''    ],'', nl,
           ''    tags = ["NODE_MODULE_MARKER"],'', nl,
           '')'', nl,
           nl,
           ''filegroup('', nl,
           ''    name = "'', dir (pkgs ! i), ''__files",'', nl,
           ''    srcs = glob('', nl,
           ''        include = ["node_modules/'', dir (pkgs ! i), ''/**/*"],'', nl,
           ''        exclude = ['', nl,
           ''          # Files under test & docs may contain file names that'', nl,
           ''          # are not legal Bazel labels (e.g.,'', nl,
           ''          # node_modules/ecstatic/test/public/'', [CHR 0xE4, CHR 0xB8, CHR 0xAD], [CHR 0xE6, CHR 0x96, CHR 0x87], ''/'', [CHR 0xE6, CHR 0xAA, CHR 0x94], [CHR 0xE6, CHR 0xA1, CHR 0x88], ''.html)'', nl,
           ''          "node_modules/'', dir (pkgs ! i), ''/test/**",'', nl,
           ''          "node_modules/'', dir (pkgs ! i), ''/docs/**",'', nl,
           ''          # Files with spaces in the name are not legal Bazel labels'', nl,
           ''          "node_modules/'', dir (pkgs ! i), ''/**/* */**",'', nl,
           ''          "node_modules/'', dir (pkgs ! i), ''/**/* *",'', nl,
           ''        ],'', nl,
           ''    ),'', nl,
           ''    tags = ["NODE_MODULE_MARKER"],'', nl,
           '')'', nl,
           nl,
           ''filegroup('', nl,
           ''    name = "'', dir (pkgs ! i), ''__typings",'', nl,
           ''    srcs = glob('', nl,
           ''        include = ["node_modules/'', dir (pkgs ! i), ''/**/*.d.ts"],'', nl,
           ''        exclude = ['', nl,
           ''          # Files under test & docs may contain file names that'', nl,
           ''          # are not legal Bazel labels (e.g.,'', nl,
           ''          # node_modules/ecstatic/test/public/'', [CHR 0xE4, CHR 0xB8, CHR 0xAD], [CHR 0xE6, CHR 0x96, CHR 0x87], ''/'', [CHR 0xE6, CHR 0xAA, CHR 0x94], [CHR 0xE6, CHR 0xA1, CHR 0x88], ''.html)'', nl,
           ''          "node_modules/'', dir (pkgs ! i), ''/test/**",'', nl,
           ''          "node_modules/'', dir (pkgs ! i), ''/docs/**",'', nl,
           ''          # Files with spaces in the name are not legal Bazel labels'', nl,
           ''          "node_modules/'', dir (pkgs ! i), ''/**/* */**",'', nl,
           ''          "node_modules/'', dir (pkgs ! i), ''/**/* *",'', nl,
           ''        ],'', nl,
           ''    ),'', nl,
           ''    tags = ["NODE_MODULE_MARKER"],'', nl,
           '')'', nl]
          @ concat (map (\<lambda>(name, path). printExecutable (dir (pkgs ! i)) name path)
                      (executables (pkgs ! i)))
        \<and> (findPackages JSON_parse ''node_modules'' (child cwd ''node_modules'') = Inr pkgs
                \<and> cwd = Directory entries
                \<and> (\<forall>sub. map_of entries ''BUILD.bazel'' \<noteq> Some (Directory sub)) \<longrightarrow>
              main JSON_parse JSON_stringify cwd =
                (Inr (),
                 Directory (AList.update ''BUILD.bazel''
                   (File
                     (BUILD_FILE_HEADER
                      @ concat (map (\<lambda>pkg. printPackage JSON_stringify pkgs (st ! pkg) pkg)
                                  (filter (\<lambda>pkg. \<not> isNested (pkgs ! pkg)) [0..<length pkgs]))
                      @ concat (map (\<lambda>scope. printScope scope pkgs) (findScopes (child cwd ''node_modules'')))
                      @ (case readFileSync (child cwd ''manual_build_file_contents'') of
                           Inr manualContents \<Rightarrow> nl @ nl @ manualContents
                         | Inl e \<Rightarrow> [])))
                   entries)))
        \<and> (distinct (map dir pkgs)
                \<or> (findPackages JSON_parse ''node_modules'' node = Inr pkgs
                    \<and> (\<forall>n. node = Some n \<longrightarrow> wf_fs n)) \<longrightarrow>
              label i \<notin> set (map label hoisted)
              \<and> distinct (map label hoisted)
              \<and> (\<forall>d < length pkgs. isNested (pkgs ! d) \<longrightarrow>
                    label d \<notin> set (map label hoisted)
                    \<and> (\<not> isNested (pkgs ! i) \<longrightarrow> label d \<noteq> label i)))\<close>
proof -
  let ?label = \<open>\<lambda>dep. ''":'' @ dir (pkgs ! dep) @ ''__files",''\<close>
  let ?hoisted = "filter (\<lambda>dep. dep \<noteq> i \<and> \<not> isNested (pkgs ! dep)) (st ! i)"
  have lab: "?label = (\<lambda>dep. files_label (dir (pkgs ! dep)))"
    by (simp add: files_label_def)
  have deps: "map ?label ?hoisted = printPackage_deps pkgs (st ! i) i"
    unfolding lab by (simp add: printPackage_deps_filter)
  have body: \<open>printPackage JSON_stringify pkgs (st ! i) i =
     concat
     [nl,
      ''# Generated target for npm package "'', dir (pkgs ! i), ''"'', nl,
      printJson JSON_stringify pkgs (st ! i) i, nl,
      ''filegroup('', nl,
      ''    name = "'', dir (pkgs ! i), ''",'', nl,
      ''    srcs = ['', nl,
      ''        # '', dir (pkgs ! i), '' package contents (and contents of nested node_modules)'', nl,
      ''        '', ?label i, nl,
      ''        # direct or transitive dependencies hoisted to root by the package manager'', nl,
      ''        '', join_with (nl @ ''        '') (map ?label ?hoisted), nl,
      ''    ],'', nl,
      ''    tags = ["NODE_MODULE_MARKER"],'', nl,
      '')'', nl,
      nl,
      ''filegroup('', nl,
      ''    name = "'', dir (pkgs ! i), ''__files",'', nl,
      ''    srcs = glob('', nl,
      ''        include = ["node_modules/'', dir (pkgs ! i), ''/**/*"],'', nl,
      ''        exclude = ['', nl,
      ''          # Files under test & docs may contain file names that'', nl,
      ''          # are not legal Bazel labels (e.g.,'', nl,
      ''          # node_modules/ecstatic/test/public/'', [CHR 0xE4, CHR 0xB8, CHR 0xAD], [CHR 0xE6, CHR 0x96, CHR 0x87], ''/'', [CHR 0xE6, CHR 0xAA, CHR 0x94], [CHR 0xE6, CHR 0xA1, CHR 0x88], ''.html)'', nl,
      ''          "node_modules/'', dir (pkgs ! i), ''/test/**",'', nl,
      ''          "node_modules/'', dir (pkgs ! i), ''/docs/**",'', nl,
      ''          # Files with spaces in the name are not legal Bazel labels'', nl,
      ''          "node_modules/'', dir (pkgs ! i), ''/**/* */**",'', nl,
      ''          "node_modules/'', dir (pkgs ! i), ''/**/* *",'', nl,
      ''        ],'', nl,
      ''    ),'', nl,
      ''    tags = ["NODE_MODULE_MARKER"],'', nl,
      '')'', nl,
      nl,
      ''filegroup('', nl,
      ''    name = "'', dir (pkgs ! i), ''__typings",'', nl,
      ''    srcs = glob('', nl,
      ''        include = ["node_modules/'', dir (pkgs ! i), ''/**/*.d.ts"],'', nl,
      ''        exclude = ['', nl,
      ''          # Files under test & docs may contain file names that'', nl,
      ''          # are not legal Bazel labels (e.g.,'', nl,
      ''          # node_modules/ecstatic/test/public/'', [CHR 0xE4, CHR 0xB8, CHR 0xAD], [CHR 0xE6, CHR 0x96, CHR 0x87], ''/'', [CHR 0xE6, CHR 0xAA, CHR 0x94], [CHR 0xE6, CHR 0xA1, CHR 0x88], ''.html)'', nl,
      ''          "node_modules/'', dir (pkgs ! i), ''/test/**",'', nl,
      ''          "node_modules/'', dir (pkgs ! i), ''/docs/**",'', nl,
      ''          # Files with spaces in the name are not legal Bazel labels'', nl,
      ''          "node_modules/'', dir (pkgs ! i), ''/**/* */**",'', nl,
      ''          "node_modules/'', dir (pkgs ! i), ''/**/* *",'', nl,
      ''        ],'', nl,
      ''    ),'', nl,
      ''    tags = ["NODE_MODULE_MARKER"],'', nl,
      '')'', nl]
     @ concat (map (\<lambda>(name, path). printExecutable (dir (pkgs ! i)) name path)
                 (executables (pkgs ! i)))\<close>
    unfolding deps by (simp only: printPackage_def files_label_def)
  have doc: \<open>(findPackages JSON_parse ''node_modules'' (child cwd ''node_modules'') = Inr pkgs
                \<and> cwd = Directory entries
                \<and> (\<forall>sub. map_of entries ''BUILD.bazel'' \<noteq> Some (Directory sub)) \<longrightarrow>
              main JSON_parse JSON_stringify cwd =
                (Inr (),
                 Directory (AList.update ''BUILD.bazel''
                   (File
                     (BUILD_FILE_HEADER
                      @ concat (map (\<lambda>pkg. printPackage JSON_stringify pkgs (st ! pkg) pkg)
                                  (filter (\<lambda>pkg. \<not> isNested (pkgs ! pkg)) [0..<length pkgs]))
                      @ concat (map (\<lambda>scope. printScope scope pkgs) (findScopes (child cwd ''node_modules'')))
                      @ (case readFileSync (child cwd ''manual_build_file_contents'') of
                           Inr manualContents \<Rightarrow> nl @ nl @ manualContents
                         | Inl e \<Rightarrow> [])))
                   entries)))\<close>
    using main_document[of JSON_parse entries pkgs st JSON_stringify] assms(1) by blast
  have dist: \<open>(distinct (map dir pkgs)
                \<or> (findPackages JSON_parse ''node_modules'' node = Inr pkgs
                    \<and> (\<forall>n. node = Some n \<longrightarrow> wf_fs n)) \<longrightarrow>
              ?label i \<notin> set (map ?label ?hoisted)
              \<and> distinct (map ?label ?hoisted)
              \<and> (\<forall>d < length pkgs. isNested (pkgs ! d) \<longrightarrow>
                    ?label d \<notin> set (map ?label ?hoisted)
                    \<and> (\<not> isNested (pkgs ! i) \<longrightarrow> ?label d \<noteq> ?label i)))\<close>
  proof (intro conjI impI allI)
    from flatten_all_results(1)[OF assms(1) _ assms(2)] assms(2)
    have r: "flattenDependencies pkgs (build_pkgsMap pkgs) [] i = Inr (st ! i)" by simp
    from flatten_distinct[OF r] have d: "distinct (st ! i)" by simp
    from flatten_in_range[OF r assms(2)] have rng: "set (st ! i) \<subseteq> {..<length pkgs}" by simp
    assume "distinct (map dir pkgs)
              \<or> (findPackages JSON_parse ''node_modules'' node = Inr pkgs
                  \<and> (\<forall>n. node = Some n \<longrightarrow> wf_fs n))"
    then have dirs: "distinct (map dir pkgs)"
      by (auto dest: findPackages_distinct_dirs)
    have inj: "?label a = ?label b \<longleftrightarrow> a = b" if "a < length pkgs" "b < length pkgs" for a b
      using dir_inj[OF dirs that] by simp
    show "?label i \<notin> set (map ?label ?hoisted)"
    proof
      assume "?label i \<in> set (map ?label ?hoisted)"
      then obtain d where "d \<in> set (st ! i)" "d \<noteq> i" "?label i = ?label d" by auto
      with rng inj[OF assms(2), of d] show False by auto
    qed
    have "inj_on ?label (set (st ! i))"
    proof (rule inj_onI)
      fix a b assume "a \<in> set (st ! i)" "b \<in> set (st ! i)" "?label a = ?label b"
      with rng inj[of a b] show "a = b" by auto
    qed
    then have "inj_on ?label (set ?hoisted)" by (rule inj_on_subset) auto
    with d show "distinct (map ?label ?hoisted)" by (simp add: distinct_map)
    fix d assume dl: "d < length pkgs" and nested: "isNested (pkgs ! d)"
    show "?label d \<notin> set (map ?label ?hoisted)"
    proof
      assume "?label d \<in> set (map ?label ?hoisted)"
      then obtain d' where "d' \<in> set (st ! i)" "\<not> isNested (pkgs ! d')" "?label d = ?label d'" by auto
      with rng inj[OF dl, of d'] nested show False by auto
    qed
    assume "\<not> isNested (pkgs ! i)"
    with nested have "d \<noteq> i" by auto
    with inj[OF dl assms(2)] show "?label d \<noteq> ?label i" by simp
  qed
  show ?thesis
    unfolding Let_def by (rule conjI[OF body conjI[OF doc dist]])
qed

theorem aggregate_inputs_witness:
  \<open>flatten_all shadow_pkgs (replicate (length shadow_pkgs) []) = Inr [[0, 1], [1], [2, 3], [3]]
   \<and> 2 < length shadow_pkgs
   \<and> findPackages example_parse ''node_modules'' (child shadow_cwd ''node_modules'') = Inr shadow_pkgs
   \<and> shadow_cwd = Directory [(''node_modules'', shadow_tree)]
   \<and> (\<forall>sub. map_of [(''node_modules'', shadow_tree)] ''BUILD.bazel'' \<noteq> Some (Directory sub))
   \<and> child shadow_cwd ''node_modules'' = Some shadow_tree \<and> wf_fs shadow_tree
   \<and> 1 < length shadow_pkgs \<and> isNested (shadow_pkgs ! 1) \<and> \<not> isNested (shadow_pkgs ! 2)
   \<and> printPackage (\<lambda>j. ''{}'') shadow_pkgs [2, 3] 2 =
       concat
       [nl,
        ''# Generated target for npm package "'', ''B'', ''"'', nl,
        ''# {}'', nl,
        ''filegroup('', nl,
        ''    name = "'', ''B'', ''",'', nl,
        ''    srcs = ['', nl,
        ''        # '', ''B'', '' package contents (and contents of nested node_modules)'', nl,
        ''        '', ''":B__files",'', nl,
        ''        # direct or transitive dependencies hoisted to root by the package manager'', nl,
        ''        '', ''":X__files",'', nl,
        ''    ],'', nl,
        ''    tags = ["NODE_MODULE_MARKER"],'', nl,
        '')'', nl,
        nl,
        ''filegroup('', nl,
        ''    name = "'', ''B'', ''__files",'', nl,
        ''    srcs = glob('', nl,
        ''        include = ["node_modules/'', ''B'', ''/**/*"],'', nl,
        ''        exclude = ['', nl,
        ''          # Files under test & docs may contain file names that'', nl,
        ''          # are not legal Bazel labels (e.g.,'', nl,
        ''          # node_modules/ecstatic/test/public/'', [CHR 0xE4, CHR 0xB8, CHR 0xAD], [CHR 0xE6, CHR 0x96, CHR 0x87], ''/'', [CHR 0xE6, CHR 0xAA, CHR 0x94], [CHR 0xE6, CHR 0xA1, CHR 0x88], ''.html)'', nl,
        ''          "node_modules/'', ''B'', ''/test/**",'', nl,
        ''          "node_modules/'', ''B'', ''/docs/**",'', nl,
        ''          # Files with spaces in the name are not legal Bazel labels'', nl,
        ''          "node_modules/'', ''B'', ''/**/* */**",'', nl,
        ''          "node_modules/'', ''B'', ''/**/* *",'', nl,
        ''        ],'', nl,
        ''    ),'', nl,
        ''    tags = ["NODE_MODULE_MARKER"],'', nl,
        '')'', nl,
        nl,
        ''filegroup('', nl,
        ''    name = "'', ''B'', ''__typings",'', nl,
        ''    srcs = glob('', nl,
        ''        include = ["node_modules/'', ''B'', ''/**/*.d.ts"],'', nl,
        ''        exclude = ['', nl,
        ''          # Files under test & docs may contain file names that'', nl,
        ''          # are not legal Bazel labels (e.g.,'', nl,
        ''          # node_modules/ecstatic/test/public/'', [CHR 0xE4, CHR 0xB8, CHR 0xAD], [CHR 0xE6, CHR 0x96, CHR 0x87], ''/'', [CHR 0xE6, CHR 0xAA, CHR 0x94], [CHR 0xE6, CHR 0xA1, CHR 0x88], ''.html)'', nl,
        ''          "node_modules/'', ''B'', ''/test/**",'', nl,
        ''          "node_modules/'', ''B'', ''/docs/**",'', nl,
        ''          # Files with spaces in the name are not legal Bazel labels'', nl,
        ''          "node_modules/'', ''B'', ''/**/* */**",'', nl,
        ''          "node_modules/'', ''B'', ''/**/* *",'', nl,
        ''        ],'', nl,
        ''    ),'', nl,
        ''    tags = ["NODE_MODULE_MARKER"],'', nl,
        '')'', nl]
   \<and> main example_parse (\<lambda>j. ''{}'') shadow_cwd =
       (Inr (),
        Directory
          [(''node_modules'', shadow_tree),
           (''BUILD.bazel'',
            File (BUILD_FILE_HEADER
                  @ printPackage (\<lambda>j. ''{}'') shadow_pkgs [0, 1] 0
                  @ printPackage (\<lambda>j. ''{}'') shadow_pkgs [2, 3] 2
                  @ printPackage (\<lambda>j. ''{}'') shadow_pkgs [3] 3))])
   \<and> ''":B__files",'' \<notin> set [''":X__files",'']
   \<and> distinct [''":X__files",'']
   \<and> ''":A/node_modules/X__files",'' \<notin> set [''":X__files",'']
   \<and> ''":A/node_modules/X__files",'' \<noteq> ''":B__files",''\<close>
proof -
  have h: "flatten_all shadow_pkgs (replicate (length shadow_pkgs) []) = Inr [[0, 1], [1], [2, 3], [3]]"
    using shadow_pkgs_flatten_all by (simp add: shadow_pkgs_facts(1) numeral_eq_Suc)
  have i: "2 < length shadow_pkgs" "1 < length shadow_pkgs" by (simp_all add: shadow_pkgs_facts(1))
  have nth: "[[0, 1], [1], [2, 3], [3::nat]] ! 2 = [2, 3]" "[[0, 1], [1], [2, 3], [3::nat]] ! 0 = [0, 1]"
    "[[0, 1], [1], [2, 3], [3::nat]] ! 3 = [3]"
    by code_simp+
  have b: "\<forall>sub. map_of [(''node_modules'', shadow_tree)] ''BUILD.bazel'' \<noteq> Some (Directory sub)"
    by (simp add: shadow_cwd_facts(5))
  have w: "\<forall>n. Some shadow_tree = Some n \<longrightarrow> wf_fs n" by (simp add: shadow_tree_facts(2))
  note T = aggregate_inputs[OF h i(1), where JSON_stringify = \<open>\<lambda>j. ''{}''\<close> and JSON_parse = example_parse
      and cwd = shadow_cwd and entries = "[(''node_modules'', shadow_tree)]" and node = "Some shadow_tree",
      unfolded Let_def]
  have e: "concat (map f ([]::(string \<times> string) list)) = []" for f :: "string \<times> string \<Rightarrow> string"
    by simp
  note 1 = T[THEN conjunct1,
      unfolded nth shadow_pkgs_printed(2,4,6,7,10,11,12) e append_Nil2]
  have scan: "findPackages example_parse ''node_modules'' (child shadow_cwd ''node_modules'') = Inr shadow_pkgs
      \<and> shadow_cwd = Directory [(''node_modules'', shadow_tree)]
      \<and> (\<forall>sub. map_of [(''node_modules'', shadow_tree)] ''BUILD.bazel'' \<noteq> Some (Directory sub))"
    using shadow_cwd_facts(2) b by (simp add: shadow_cwd_def)
  have u: "AList.update ''BUILD.bazel'' v [(''node_modules'', shadow_tree)]
      = [(''node_modules'', shadow_tree), (''BUILD.bazel'', v)]" for v
    by simp
  have 2: \<open>main example_parse (\<lambda>j. ''{}'') shadow_cwd =
       (Inr (),
        Directory
          [(''node_modules'', shadow_tree),
           (''BUILD.bazel'',
            File (BUILD_FILE_HEADER
                  @ printPackage (\<lambda>j. ''{}'') shadow_pkgs [0, 1] 0
                  @ printPackage (\<lambda>j. ''{}'') shadow_pkgs [2, 3] 2
                  @ printPackage (\<lambda>j. ''{}'') shadow_pkgs [3] 3))])\<close>
    using mp[OF T[THEN conjunct2, THEN conjunct1] scan]
    by (simp only: shadow_pkgs_printed(1) shadow_cwd_facts(3,4) u nth list.map concat.simps
        append_Nil2 sum.case append_assoc)
  have d: "distinct (map dir shadow_pkgs)
      \<or> (findPackages example_parse ''node_modules'' (Some shadow_tree) = Inr shadow_pkgs
          \<and> (\<forall>n. Some shadow_tree = Some n \<longrightarrow> wf_fs n))"
    using shadow_tree_facts(1) w by blast
  note 3 = mp[OF T[THEN conjunct2, THEN conjunct2] d,
      unfolded nth shadow_pkgs_printed(2,4,10,11)]
  from 3 have 4: \<open>''":B__files",'' \<notin> set [''":X__files",'']\<close>
    and 5: \<open>distinct [''":X__files",'']\<close> by blast+
  from 3 i(2) shadow_pkgs_printed(8,9)
  have \<open>''":'' @ dir (shadow_pkgs ! 1) @ ''__files",'' \<notin> set [''":X__files",'']\<close>
    and \<open>''":'' @ dir (shadow_pkgs ! 1) @ ''__files",'' \<noteq> ''":B__files",''\<close>
    by blast+
  then have 6: \<open>''":A/node_modules/X__files",'' \<notin> set [''":X__files",'']\<close>
    and 7: \<open>''":A/node_modules/X__files",'' \<noteq> ''":B__files",''\<close>
    unfolding shadow_pkgs_printed(3,13) by this+
  from h i scan shadow_cwd_facts(1) shadow_tree_facts(2) shadow_pkgs_printed(8,9) 1 2 4 5 6 7
  show ?thesis by (intro conjI) blast+
qed

text \<open>
  C8. An exception of the scan (\<^verbatim>\<open>findPackages\<close>, for instance at a package directory the scan comes to
  whose \<^verbatim>\<open>package.json\<close> does not parse) or of the resolution
  (\<^verbatim>\<open>flattenDependencies\<close>, for a required name that is missing) ends \<^verbatim>\<open>main\<close> with that
  exception and leaves the working directory as it was: \<^verbatim>\<open>fs.writeFileSync\<close> has not run.
  In every run the working directory is either unchanged or it holds, in
  \<^verbatim>\<open>BUILD.bazel\<close>, the whole document of a scan and a resolution that both returned.
\<close>

theorem all_or_nothing:
  "(findPackages JSON_parse ''node_modules'' (child cwd ''node_modules'') = Inl e \<longrightarrow>
      main JSON_parse JSON_stringify cwd = (Inl e, cwd))
   \<and> (findPackages JSON_parse ''node_modules'' (child cwd ''node_modules'') = Inr pkgs
        \<and> flatten_all pkgs (replicate (length pkgs) []) = Inl e \<longrightarrow>
      main JSON_parse JSON_stringify cwd = (Inl e, cwd))
   \<and> (child cwd ''node_modules'' = Some tree \<and> parsed_at ''node_modules'' tree q m
        \<and> readFileSync (child m ''package.json'') = Inr text \<and> JSON_parse text = None \<longrightarrow>
      (\<exists>e'. main JSON_parse JSON_stringify cwd = (Inl e', cwd)))
   \<and> (findPackages JSON_parse ''node_modules'' (child cwd ''node_modules'') = Inr pkgs
        \<and> i < length pkgs \<and> X \<in> set (required_names (pkgs ! i))
        \<and> missing (build_pkgsMap pkgs) (dir (pkgs ! i)) X \<longrightarrow>
      (\<exists>e'. main JSON_parse JSON_stringify cwd = (Inl e', cwd)))
   \<and> (snd (main JSON_parse JSON_stringify cwd) = cwd
       \<or> (\<exists>entries found deps.
             cwd = Directory entries
             \<and> findPackages JSON_parse ''node_modules'' (child cwd ''node_modules'') = Inr found
             \<and> flatten_all found (replicate (length found) []) = Inr deps
             \<and> main JSON_parse JSON_stringify cwd =
                 (Inr (), Directory (AList.update ''BUILD.bazel''
                    (File (case readFileSync (child cwd ''manual_build_file_contents'') of
                             Inr manualContents \<Rightarrow>
                               generated_targets JSON_stringify found deps
                                 (findScopes (child cwd ''node_modules'')) @ nl @ nl @ manualContents
                           | Inl e \<Rightarrow>
                               generated_targets JSON_stringify found deps
                                 (findScopes (child cwd ''node_modules''))))
                    entries))))"
proof (intro conjI impI)
  assume "findPackages JSON_parse ''node_modules'' (child cwd ''node_modules'') = Inl e"
  then show "main JSON_parse JSON_stringify cwd = (Inl e, cwd)"
    by (rule main_scan_error)
next
  assume "findPackages JSON_parse ''node_modules'' (child cwd ''node_modules'') = Inr pkgs
        \<and> flatten_all pkgs (replicate (length pkgs) []) = Inl e"
  then show "main JSON_parse JSON_stringify cwd = (Inl e, cwd)"
    by (simp add: main_resolution_error)
next
  assume a: "child cwd ''node_modules'' = Some tree \<and> parsed_at ''node_modules'' tree q m
        \<and> readFileSync (child m ''package.json'') = Inr text \<and> JSON_parse text = None"
  then have "parsePackage JSON_parse q m = Inl SyntaxError"
    by (simp add: parsePackage_malformed)
  with a obtain e' where "findPackages JSON_parse ''node_modules'' (Some tree) = Inl e'"
    using findPackages_fails_at[of "''node_modules''" tree q m JSON_parse SyntaxError] by blast
  with a have "main JSON_parse JSON_stringify cwd = (Inl e', cwd)"
    by (simp add: main_scan_error)
  then show "\<exists>e'. main JSON_parse JSON_stringify cwd = (Inl e', cwd)" ..
next
  assume a: "findPackages JSON_parse ''node_modules'' (child cwd ''node_modules'') = Inr pkgs
        \<and> i < length pkgs \<and> X \<in> set (required_names (pkgs ! i))
        \<and> missing (build_pkgsMap pkgs) (dir (pkgs ! i)) X"
  then obtain e' where "flatten_all pkgs (replicate (length pkgs) []) = Inl e'"
    using flatten_all_fails[of i pkgs X] by blast
  with a have "main JSON_parse JSON_stringify cwd = (Inl e', cwd)"
    by (simp add: main_resolution_error)
  then show "\<exists>e'. main JSON_parse JSON_stringify cwd = (Inl e', cwd)" ..
next
  let ?scan = "findPackages JSON_parse ''node_modules'' (child cwd ''node_modules'')"
  show "snd (main JSON_parse JSON_stringify cwd) = cwd
       \<or> (\<exists>entries found deps.
             cwd = Directory entries
             \<and> ?scan = Inr found
             \<and> flatten_all found (replicate (length found) []) = Inr deps
             \<and> main JSON_parse JSON_stringify cwd =
                 (Inr (), Directory (AList.update ''BUILD.bazel''
                    (File (case readFileSync (child cwd ''manual_build_file_contents'') of
                             Inr manualContents \<Rightarrow>
                               generated_targets JSON_stringify found deps
                                 (findScopes (child cwd ''node_modules'')) @ nl @ nl @ manualContents
                           | Inl e \<Rightarrow>
                               generated_targets JSON_stringify found deps
                                 (findScopes (child cwd ''node_modules''))))
                    entries)))"
  proof (cases ?scan)
    case (Inl e0)
    then show ?thesis by (simp add: main_scan_error)
  next
    case scan: (Inr found)
    show ?thesis
    proof (cases "flatten_all found (replicate (length found) [])")
      case (Inl e0)
      with scan show ?thesis by (simp add: main_resolution_error)
    next
      case (Inr deps)
      let ?doc = "case readFileSync (child cwd ''manual_build_file_contents'') of
                    Inr manualContents \<Rightarrow>
                      generated_targets JSON_stringify found deps
                        (findScopes (child cwd ''node_modules'')) @ nl @ nl @ manualContents
                  | Inl e \<Rightarrow>
                      generated_targets JSON_stringify found deps
                        (findScopes (child cwd ''node_modules''))"
      from main_written[OF scan Inr]
      have m: "main JSON_parse JSON_stringify cwd = writeFileSync cwd ''BUILD.bazel'' ?doc" .
      from writeFileSync_cases[of cwd "''BUILD.bazel''" ?doc] show ?thesis
      proof
        assume "snd (writeFileSync cwd ''BUILD.bazel'' ?doc) = cwd"
        with m show ?thesis by simp
      next
        assume "\<exists>entries. cwd = Directory entries
          \<and> writeFileSync cwd ''BUILD.bazel'' ?doc
              = (Inr (), Directory (AList.update ''BUILD.bazel'' (File ?doc) entries))"
        with m scan Inr show ?thesis by auto
      qed
    qed
  qed
qed

theorem all_or_nothing_witness:
  "main example_parse (\<lambda>j. ''{}'') broken_cwd = (Inl SyntaxError, broken_cwd)
   \<and> (\<exists>e'. main example_parse (\<lambda>j. ''{}'') broken_cwd = (Inl e', broken_cwd))
   \<and> main example_parse (\<lambda>j. ''{}'') unresolved_cwd
       = (Inl (Error ''Could not find required dep x of P''), unresolved_cwd)"
proof -
  let ?P = "[\<lparr> json = JObject [(''name'', JString ''P''), (''dependencies'', JObject [(''x'', JString ''1'')])],
               dir = ''P'', isNested = False, executables = [] \<rparr>]"
  let ?text = "''{'' @ [CHR 0x22] @ ''name'' @ [CHR 0x22] @ '':''"
  note B = all_or_nothing[of example_parse broken_cwd SyntaxError "\<lambda>j. ''{}''" "[]"
      "Directory [(''@s'', Directory [(''foo'', Directory [(''package.json'', File ?text)])])]"
      "posix_join [posix_join [''node_modules'', ''@s''], ''foo'']"
      "Directory [(''package.json'', File ?text)]" ?text 0 "[]"]
  note U = all_or_nothing[of example_parse unresolved_cwd "Error ''Could not find required dep x of P''"
      "\<lambda>j. ''{}''" ?P Unreadable "[]" Unreadable "[]" 0 "[]"]
  from B broken_cwd_facts(8)
  have 1: "main example_parse (\<lambda>j. ''{}'') broken_cwd = (Inl SyntaxError, broken_cwd)"
    by blast
  from B broken_cwd_parsed_at broken_cwd_facts(1,6,7)
  have 2: "\<exists>e'. main example_parse (\<lambda>j. ''{}'') broken_cwd = (Inl e', broken_cwd)"
    by simp
  from U unresolved_cwd_facts
  have 3: "main example_parse (\<lambda>j. ''{}'') unresolved_cwd
       = (Inl (Error ''Could not find required dep x of P''), unresolved_cwd)"
    by simp
  from 1 2 3 show ?thesis by blast
qed

text \<open>
  C10. When the scan and the resolution have returned, every exception of the read of
  \<^verbatim>\<open>manual_build_file_contents\<close>, whatever it is (the file is absent, is a directory,
  cannot be read), is dropped by the empty \<^verbatim>\<open>catch\<close>, and \<^verbatim>\<open>main\<close> writes the generated
  targets alone: neither the two newlines nor a fragment follow them. When the read
  returns, the two newlines and the fragment are appended.
\<close>

theorem manual_fragment_read_errors_swallowed:
  "(findPackages JSON_parse ''node_modules'' (child cwd ''node_modules'') = Inr pkgs
      \<and> flatten_all pkgs (replicate (length pkgs) []) = Inr deps
      \<and> readFileSync (child cwd ''manual_build_file_contents'') = Inl e \<longrightarrow>
    main JSON_parse JSON_stringify cwd =
      writeFileSync cwd ''BUILD.bazel''
        (generated_targets JSON_stringify pkgs deps (findScopes (child cwd ''node_modules''))))
   \<and> (findPackages JSON_parse ''node_modules'' (child cwd ''node_modules'') = Inr pkgs
      \<and> flatten_all pkgs (replicate (length pkgs) []) = Inr deps
      \<and> readFileSync (child cwd ''manual_build_file_contents'') = Inr manualContents \<longrightarrow>
    main JSON_parse JSON_stringify cwd =
      writeFileSync cwd ''BUILD.bazel''
        (generated_targets JSON_stringify pkgs deps (findScopes (child cwd ''node_modules''))
         @ nl @ nl @ manualContents))
   \<and> readFileSync None = Inl (SystemError ''ENOENT'')
   \<and> readFileSync (Some (Directory entries)) = Inl (SystemError ''EISDIR'')
   \<and> readFileSync (Some Unreadable) = Inl (SystemError ''EACCES'')"
proof (intro conjI impI)
  assume "findPackages JSON_parse ''node_modules'' (child cwd ''node_modules'') = Inr pkgs
      \<and> flatten_all pkgs (replicate (length pkgs) []) = Inr deps
      \<and> readFileSync (child cwd ''manual_build_file_contents'') = Inl e"
  then show "main JSON_parse JSON_stringify cwd =
      writeFileSync cwd ''BUILD.bazel''
        (generated_targets JSON_stringify pkgs deps (findScopes (child cwd ''node_modules'')))"
    by (simp add: main_written)
next
  assume "findPackages JSON_parse ''node_modules'' (child cwd ''node_modules'') = Inr pkgs
      \<and> flatten_all pkgs (replicate (length pkgs) []) = Inr deps
      \<and> readFileSync (child cwd ''manual_build_file_contents'') = Inr manualContents"
  then show "main JSON_parse JSON_stringify cwd =
      writeFileSync cwd ''BUILD.bazel''
        (generated_targets JSON_stringify pkgs deps (findScopes (child cwd ''node_modules''))
         @ nl @ nl @ manualContents)"
    by (simp add: main_written)
qed simp_all

theorem manual_fragment_read_errors_swallowed_witness:
  "readFileSync (child (installed_cwd [(''manual_build_file_contents'', Directory [])]) ''manual_build_file_contents'')
     = Inl (SystemError ''EISDIR'')
   \<and> main example_parse (\<lambda>j. ''{}'') (installed_cwd [(''manual_build_file_contents'', Directory [])])
     = writeFileSync (installed_cwd [(''manual_build_file_contents'', Directory [])]) ''BUILD.bazel''
         (generated_targets (\<lambda>j. ''{}'') foo_pkgs [[0]] [])
   \<and> main example_parse (\<lambda>j. ''{}'') (installed_cwd [(''manual_build_file_contents'', File ''# manual'')])
     = writeFileSync (installed_cwd [(''manual_build_file_contents'', File ''# manual'')]) ''BUILD.bazel''
         (generated_targets (\<lambda>j. ''{}'') foo_pkgs [[0]] [] @ nl @ nl @ ''# manual'')"
proof -
  let ?d = "installed_cwd [(''manual_build_file_contents'', Directory [])]"
  let ?f = "installed_cwd [(''manual_build_file_contents'', File ''# manual'')]"
  note D = manual_fragment_read_errors_swallowed[of example_parse ?d foo_pkgs "[[0]]"
      "SystemError ''EISDIR''" "\<lambda>j. ''{}''" "[]" "[]"]
  note F = manual_fragment_read_errors_swallowed[of example_parse ?f foo_pkgs "[[0]]"
      "SystemError ''EISDIR''" "\<lambda>j. ''{}''" "''# manual''" "[]"]
  from D installed_cwd_facts(1,2,3,5)
  have 1: "main example_parse (\<lambda>j. ''{}'') ?d
     = writeFileSync ?d ''BUILD.bazel'' (generated_targets (\<lambda>j. ''{}'') foo_pkgs [[0]] [])"
    by simp
  from F installed_cwd_facts(1,2,3,7)
  have 2: "main example_parse (\<lambda>j. ''{}'') ?f
     = writeFileSync ?f ''BUILD.bazel'' (generated_targets (\<lambda>j. ''{}'') foo_pkgs [[0]] [] @ nl @ nl @ ''# manual'')"
    by simp
  from 1 2 installed_cwd_facts(5) show ?thesis by blast
qed

end
